(* ===== verification/Prelude.thy ===== *)
theory Prelude
  imports Main "HOL-Library.Word" "HOL-Library.List_Lexorder" "HOL-Library.Char_ord"
    "HOL-Library.Product_Lexorder"
begin

text \<open>
  Shared vocabulary of the development.

  \<^item> The result of a Go call that threads the chain state: a value, a returned error, or a
    panic.  The state is returned beside the result in every case, because a caller that
    swallows an error keeps what the callee had already written.
  \<^item> The fixed-width and truncating integer operations of Go and of the SDK's big integers.
  \<^item> Generic lemmas on lists and sums, and the collections \<open>outcome_simps\<close>, \<open>kv_simps\<close>
    and \<open>go_arith\<close> that the component proofs use.
\<close>

named_theorems outcome_simps \<open>rewriting the result of sequenced calls\<close>
named_theorems kv_simps \<open>reads after writes on the key-value store\<close>
named_theorems go_arith \<open>wrap-around and truncated division inside their exact range\<close>


section \<open>Results of stateful calls\<close>

datatype ('e, 'a) outcome = Ok 'a | Err 'e | Panic

definition andthen ::
  "('e, 'a) outcome \<times> 's \<Rightarrow> ('a \<Rightarrow> 's \<Rightarrow> ('e, 'b) outcome \<times> 's) \<Rightarrow> ('e, 'b) outcome \<times> 's"
where
  "andthen r k = (case r of
      (Ok a, s) \<Rightarrow> k a s
    | (Err e, s) \<Rightarrow> (Err e, s)
    | (Panic, s) \<Rightarrow> (Panic, s))"

lemma andthen_Ok [simp, outcome_simps]: "andthen (Ok a, s) k = k a s"
  by (simp add: andthen_def)

lemma andthen_Err [simp, outcome_simps]: "andthen (Err e, s) k = (Err e, s)"
  by (simp add: andthen_def)

lemma andthen_Panic [simp, outcome_simps]: "andthen (Panic, s) k = (Panic, s)"
  by (simp add: andthen_def)

lemma andthen_eq_Ok [outcome_simps]:
  "andthen r k = (Ok b, s') \<longleftrightarrow> (\<exists>a s. r = (Ok a, s) \<and> k a s = (Ok b, s'))"
  by (cases r; cases "fst r") (auto simp: andthen_def)

lemma andthen_eq_Err [outcome_simps]:
  "andthen r k = (Err e, s') \<longleftrightarrow> r = (Err e, s') \<or> (\<exists>a s. r = (Ok a, s) \<and> k a s = (Err e, s'))"
  by (cases r; cases "fst r") (auto simp: andthen_def)

lemma andthen_assoc: "andthen (andthen r f) g = andthen r (\<lambda>a s. andthen (f a s) g)"
  by (cases r; cases "fst r") (auto simp: andthen_def)

lemma andthen_cong [fundef_cong]:
  assumes "r = r'" and "\<And>a s. r' = (Ok a, s) \<Longrightarrow> k a s = k' a s"
  shows "andthen r k = andthen r' k'"
  using assms by (cases r'; cases "fst r'") (auto simp: andthen_def)

text \<open>Wrapping a returned error, as \<open>fmt.Errorf("...: %w", err)\<close> does.\<close>

fun map_err :: "('e \<Rightarrow> 'f) \<Rightarrow> ('e, 'a) outcome \<times> 's \<Rightarrow> ('f, 'a) outcome \<times> 's" where
  "map_err f (Ok a, s) = (Ok a, s)"
| "map_err f (Err e, s) = (Err (f e), s)"
| "map_err f (Panic, s) = (Panic, s)"

lemma map_err_eq_Ok [outcome_simps]: "map_err f r = (Ok a, s) \<longleftrightarrow> r = (Ok a, s)"
  by (cases "(f, r)" rule: map_err.cases) auto

lemma map_err_eq_Err [outcome_simps]: "map_err f r = (Err e, s) \<longleftrightarrow> (\<exists>e'. r = (Err e', s) \<and> e = f e')"
  by (cases "(f, r)" rule: map_err.cases) auto

text \<open>Running a stateful call for every element of a list, stopping at the first failure.\<close>

fun foreach :: "('x \<Rightarrow> 's \<Rightarrow> ('e, unit) outcome \<times> 's) \<Rightarrow> 'x list \<Rightarrow> 's \<Rightarrow> ('e, unit) outcome \<times> 's"
where
  "foreach f [] s = (Ok (), s)"
| "foreach f (x # xs) s = andthen (f x s) (\<lambda>_ s. foreach f xs s)"

lemma foreach_invariant:
  assumes "foreach f xs s = (Ok (), s')" and "I s"
    and "\<And>x s t. x \<in> set xs \<Longrightarrow> I s \<Longrightarrow> f x s = (Ok (), t) \<Longrightarrow> I t"
  shows "I s'"
  using assms
proof (induction xs arbitrary: s)
  case Nil
  then show ?case by simp
next
  case (Cons x xs)
  then obtain t where "f x s = (Ok (), t)" "foreach f xs t = (Ok (), s')"
    by (auto simp: outcome_simps)
  with Cons show ?case by (metis list.set_intros)
qed


section \<open>Go integers\<close>

text \<open>
  \<open>big.Int.Quo\<close> truncates towards zero; \<open>int64\<close> and \<open>uint64\<close> conversions wrap;
  \<open>Int.Int64\<close> panics outside the range, which \<open>is_int64\<close> decides.
\<close>

definition quo :: "int \<Rightarrow> int \<Rightarrow> int" where
  "quo a b = sgn a * sgn b * (\<bar>a\<bar> div \<bar>b\<bar>)"

definition wrap_int64 :: "int \<Rightarrow> int" where
  "wrap_int64 x = (x + 2 ^ 63) mod 2 ^ 64 - 2 ^ 63"

definition wrap_uint64 :: "int \<Rightarrow> nat" where
  "wrap_uint64 x = nat (x mod 2 ^ 64)"

definition is_int64 :: "int \<Rightarrow> bool" where
  "is_int64 x \<longleftrightarrow> - (2 ^ 63) \<le> x \<and> x < 2 ^ 63"

lemma wrap_int64_id [go_arith]: "is_int64 x \<Longrightarrow> wrap_int64 x = x"
  by (simp add: wrap_int64_def is_int64_def)

lemma wrap_uint64_id [go_arith]: "0 \<le> x \<Longrightarrow> x < 2 ^ 64 \<Longrightarrow> int (wrap_uint64 x) = x"
  by (simp add: wrap_uint64_def)

lemma is_int64_wrap [simp]: "is_int64 (wrap_int64 x)"
  by (simp add: wrap_int64_def is_int64_def)

lemma quo_nonneg [go_arith]: "0 \<le> a \<Longrightarrow> 0 < b \<Longrightarrow> quo a b = a div b"
  by (cases "a = 0") (auto simp: quo_def)

lemma quo_mult_le: "0 \<le> a \<Longrightarrow> 0 < b \<Longrightarrow> quo a b * b \<le> a"
  by (simp add: quo_nonneg) (metis div_mult_mod_eq le_add_same_cancel1 pos_mod_sign)

lemma int_div_le_iff:
  fixes a b c :: int
  assumes "0 < b"
  shows "a div b \<le> c \<longleftrightarrow> a < (c + 1) * b"
proof -
  have "(a + (- (c + 1)) * b) div b = - (c + 1) + a div b"
    using assms by (intro div_mult_self1) simp
  with pos_imp_zdiv_neg_iff [OF assms, of "a + (- (c + 1)) * b"] show ?thesis
    by (simp add: algebra_simps) linarith
qed

lemma quo_le_iff:
  assumes "0 < b" and "0 \<le> c"
  shows "quo a b \<le> c \<longleftrightarrow> a < (c + 1) * b"
proof (cases "0 \<le> a")
  case True
  with assms show ?thesis
    by (simp add: quo_nonneg int_div_le_iff)
next
  case False
  with assms have "quo a b \<le> 0"
    by (simp add: quo_def zero_le_mult_iff pos_imp_zdiv_nonneg_iff)
  moreover from False assms have "a < (c + 1) * b"
    by (smt (verit) mult_pos_pos)
  ultimately show ?thesis using assms by linarith
qed

end
