(* ===== verification/KVStore.thy ===== *)
theory KVStore
  imports Prelude
begin

text \<open>
  The ordered key-value store behind every keeper.  The locale \<open>kv_store\<close> states what the
  keepers rely on: a read returns the last write, a delete removes exactly its key, and an
  iterator visits every key once in ascending order, over the contents the store had when the
  iterator was opened.  The sorted association list at the end of the theory provides it, and
  the models of the keepers hold one such list per key prefix of their module.
\<close>

definition kv_sum :: "('k \<Rightarrow> 'v \<Rightarrow> int) \<Rightarrow> ('k \<times> 'v) list \<Rightarrow> int" where
  "kv_sum f xs = (\<Sum>(k, v) \<leftarrow> xs. f k v)"

lemma kv_sum_Nil [simp]: "kv_sum f [] = 0"
  by (simp add: kv_sum_def)

lemma kv_sum_Cons [simp]: "kv_sum f ((k, v) # xs) = f k v + kv_sum f xs"
  by (simp add: kv_sum_def)

lemma kv_sum_add: "kv_sum (\<lambda>k v. f k v + g k v) xs = kv_sum f xs + kv_sum g xs"
  by (induction xs) (auto simp: kv_sum_def)

lemma kv_sum_minus: "kv_sum (\<lambda>k v. - f k v) xs = - kv_sum f xs"
  by (induction xs) (auto simp: kv_sum_def)

lemma kv_sum_cong: "(\<And>k v. (k, v) \<in> set xs \<Longrightarrow> f k v = g k v) \<Longrightarrow> kv_sum f xs = kv_sum g xs"
  by (induction xs) (auto simp: kv_sum_def)

lemma kv_sum_domain:
  assumes "distinct (map fst xs)"
  shows "kv_sum f xs = (\<Sum>k \<in> dom (map_of xs). f k (the (map_of xs k)))"
  using assms
proof (induction xs)
  case Nil
  then show ?case by simp
next
  case (Cons p xs)
  obtain k v where p: "p = (k, v)" by (cases p)
  from Cons p have k: "k \<notin> dom (map_of xs)" by (simp add: dom_map_of_conv_image_fst)
  then have "(\<Sum>j \<in> dom (map_of xs). f j (the (map_of (p # xs) j)))
      = (\<Sum>j \<in> dom (map_of xs). f j (the (map_of xs j)))"
    by (intro sum.cong) (auto simp: p)
  moreover have "dom (map_of (p # xs)) = insert k (dom (map_of xs))"
    by (auto simp: p dom_def)
  moreover have "kv_sum f (p # xs) = f k v + (\<Sum>j \<in> dom (map_of xs). f j (the (map_of xs j)))"
    using Cons p by simp
  moreover have "map_of (p # xs) k = Some v" by (simp add: p)
  ultimately show ?case using k
    by (simp only: sum.insert [OF finite_dom_map_of k] option.sel)
qed

locale kv_store =
  fixes empty :: "'s"
    and get :: "'s \<Rightarrow> 'k::linorder \<Rightarrow> 'v option"
    and put :: "'k \<Rightarrow> 'v \<Rightarrow> 's \<Rightarrow> 's"
    and del :: "'k \<Rightarrow> 's \<Rightarrow> 's"
    and iter :: "'s \<Rightarrow> ('k \<times> 'v) list"
    and ok :: "'s \<Rightarrow> bool"
  assumes get_empty: "get empty = Map.empty"
    and get_put: "ok s \<Longrightarrow> get (put k v s) = (get s)(k \<mapsto> v)"
    and get_del: "ok s \<Longrightarrow> get (del k s) = (get s)(k := None)"
    and iter_get: "ok s \<Longrightarrow> map_of (iter s) = get s"
    and iter_sorted: "ok s \<Longrightarrow> sorted_wrt (<) (map fst (iter s))"
    and ok_empty: "ok empty"
    and ok_put: "ok s \<Longrightarrow> ok (put k v s)"
    and ok_del: "ok s \<Longrightarrow> ok (del k s)"
begin

lemma iter_distinct: "ok s \<Longrightarrow> distinct (map fst (iter s))"
  using iter_sorted strict_sorted_iff by blast

lemma get_put_same: "ok s \<Longrightarrow> get (put k v s) k = Some v"
  by (simp add: get_put)

lemma get_put_other: "ok s \<Longrightarrow> j \<noteq> k \<Longrightarrow> get (put k v s) j = get s j"
  by (simp add: get_put)

lemma iter_put: "ok s \<Longrightarrow> map_of (iter (put k v s)) = (map_of (iter s))(k \<mapsto> v)"
  by (simp add: iter_get get_put ok_put)

lemma iter_del: "ok s \<Longrightarrow> map_of (iter (del k s)) = (map_of (iter s))(k := None)"
  by (simp add: iter_get get_del ok_del)

lemma finite_dom: "ok s \<Longrightarrow> finite (dom (get s))"
  using iter_get finite_dom_map_of by metis

lemma sum_iter: "ok s \<Longrightarrow> kv_sum f (iter s) = (\<Sum>k \<in> dom (get s). f k (the (get s k)))"
  by (simp add: kv_sum_domain iter_distinct iter_get)

lemma sum_del:
  assumes "ok s"
  shows "kv_sum f (iter (del k s))
    = kv_sum f (iter s) - (case get s k of None \<Rightarrow> 0 | Some w \<Rightarrow> f k w)"
proof (cases "get s k")
  case None
  then have "(get s)(k := None) = get s" by auto
  with None assms show ?thesis by (simp add: sum_iter ok_del get_del)
next
  case (Some w)
  then have "k \<in> dom (get s)" by auto
  moreover have "(\<Sum>j \<in> dom (get s) - {k}. f j (the (((get s)(k := None)) j)))
      = (\<Sum>j \<in> dom (get s) - {k}. f j (the (get s j)))"
    by (intro sum.cong) auto
  ultimately show ?thesis using Some assms
    by (simp add: sum_iter ok_del get_del sum.remove [OF finite_dom])
qed

lemma sum_put:
  assumes "ok s"
  shows "kv_sum f (iter (put k v s))
    = kv_sum f (iter s) - (case get s k of None \<Rightarrow> 0 | Some w \<Rightarrow> f k w) + f k v"
proof -
  let ?m = "(get s)(k \<mapsto> v)"
  have k: "k \<in> dom ?m" and fin: "finite (dom ?m)"
    using finite_dom [OF assms] by auto
  have "kv_sum f (iter (put k v s)) = (\<Sum>j \<in> dom ?m. f j (the (?m j)))"
    using assms by (simp add: sum_iter ok_put get_put)
  also have "\<dots> = f k (the (?m k)) + (\<Sum>j \<in> dom ?m - {k}. f j (the (?m j)))"
    by (rule sum.remove [OF fin k])
  also have "(\<Sum>j \<in> dom ?m - {k}. f j (the (?m j)))
      = (\<Sum>j \<in> dom ((get s)(k := None)). f j (the (((get s)(k := None)) j)))"
    by (intro sum.cong) auto
  also have "\<dots> = kv_sum f (iter (del k s))"
    using assms by (simp add: sum_iter ok_del get_del)
  finally show ?thesis using sum_del [OF assms] by simp
qed

end


section \<open>Sorted association lists\<close>

fun kv_set :: "'k::linorder \<Rightarrow> 'v \<Rightarrow> ('k \<times> 'v) list \<Rightarrow> ('k \<times> 'v) list" where
  "kv_set k v [] = [(k, v)]"
| "kv_set k v ((j, w) # xs) =
     (if k < j then (k, v) # (j, w) # xs
      else if k = j then (k, v) # xs
      else (j, w) # kv_set k v xs)"

definition kv_del :: "'k \<Rightarrow> ('k \<times> 'v) list \<Rightarrow> ('k \<times> 'v) list" where
  "kv_del k xs = filter (\<lambda>(j, _). j \<noteq> k) xs"

definition kv_has :: "('k \<times> 'v) list \<Rightarrow> 'k \<Rightarrow> bool" where
  "kv_has xs k = (map_of xs k \<noteq> None)"

definition kv_ok :: "('k::linorder \<times> 'v) list \<Rightarrow> bool" where
  "kv_ok xs = sorted_wrt (<) (map fst xs)"

lemma map_of_kv_set: "map_of (kv_set k v xs) = (map_of xs)(k \<mapsto> v)"
  by (induction xs rule: kv_set.induct) auto

lemma set_kv_set: "fst ` set (kv_set k v xs) = insert k (fst ` set xs)"
  by (induction xs rule: kv_set.induct) auto

lemma map_of_kv_del: "map_of (kv_del k xs) = (map_of xs)(k := None)"
  by (induction xs) (auto simp: kv_del_def)

lemma kv_ok_set: "kv_ok xs \<Longrightarrow> kv_ok (kv_set k v xs)"
proof (induction k v xs rule: kv_set.induct)
  case (2 k v j w xs)
  then have IH: "k \<noteq> j \<Longrightarrow> \<not> k < j \<Longrightarrow> kv_ok (kv_set k v xs)" by (simp add: kv_ok_def)
  have "\<forall>y \<in> set (kv_set k v xs). j < fst y" if "\<not> k < j" "k \<noteq> j"
  proof -
    have "fst y = k \<or> fst y \<in> fst ` set xs" if "y \<in> set (kv_set k v xs)" for y
      using that set_kv_set [of k v xs] by (metis imageI insertE)
    with that 2(2) show ?thesis by (force simp: kv_ok_def)
  qed
  with 2 IH show ?case by (auto simp: kv_ok_def)
qed (simp add: kv_ok_def)

lemma kv_ok_del: "kv_ok xs \<Longrightarrow> kv_ok (kv_del k xs)"
  unfolding kv_ok_def kv_del_def
  by (induction xs) auto

interpretation kv: kv_store "[]" map_of kv_set kv_del "\<lambda>xs. xs" kv_ok
  by unfold_locales
    (auto simp: map_of_kv_set map_of_kv_del kv_ok_set kv_ok_del kv_ok_def [of "[]"]
      kv_ok_def [symmetric] fun_upd_def)

lemmas kv_laws [kv_simps] = map_of_kv_set map_of_kv_del kv_ok_set kv_ok_del

lemma kv_ok_Nil [simp, kv_simps]: "kv_ok []"
  by (simp add: kv_ok_def)

lemma kv_del_Nil [simp]: "kv_del k [] = []"
  by (simp add: kv_del_def)

lemma kv_del_Cons [simp]: "kv_del k ((j, w) # xs) = (if j = k then kv_del k xs else (j, w) # kv_del k xs)"
  by (simp add: kv_del_def)

lemma kv_has_set [kv_simps]: "kv_has (kv_set k v xs) j \<longleftrightarrow> j = k \<or> kv_has xs j"
  by (simp add: kv_has_def map_of_kv_set)

lemma kv_has_del [kv_simps]: "kv_has (kv_del k xs) j \<longleftrightarrow> j \<noteq> k \<and> kv_has xs j"
  by (simp add: kv_has_def map_of_kv_del)

lemma kv_has_iff: "kv_has xs k \<longleftrightarrow> k \<in> fst ` set xs"
  by (simp add: kv_has_def map_of_eq_None_iff)

lemma kv_ok_map_of:
  assumes "kv_ok xs"
  shows "map_of xs k = Some v \<longleftrightarrow> (k, v) \<in> set xs"
  using assms kv.iter_distinct map_of_eq_Some_iff by metis

lemma set_kv_set_subset: "set (kv_set k v xs) \<subseteq> insert (k, v) (set xs)"
  by (induction k v xs rule: kv_set.induct) auto

section \<open>One list per contents\<close>

lemma kv_ext:
  assumes "kv_ok xs" and "kv_ok ys" and "map_of xs = map_of ys"
  shows "xs = ys"
proof -
  have "set xs = set ys"
    using assms by (auto simp: kv_ok_map_of [symmetric] set_eq_iff)
  moreover have "inj_on fst (set xs \<union> set ys)"
    using calculation kv.iter_distinct [OF assms(1)] by (simp add: distinct_map)
  ultimately show ?thesis
    using assms(1,2) map_sorted_distinct_set_unique [of fst xs ys]
    by (simp add: kv_ok_def strict_sorted_iff)
qed

lemma kv_set_set: "kv_ok xs \<Longrightarrow> kv_set k w (kv_set k v xs) = kv_set k w xs"
  by (rule kv_ext) (auto simp: kv_simps)

lemma kv_set_same: "kv_ok xs \<Longrightarrow> map_of xs k = Some v \<Longrightarrow> kv_set k v xs = xs"
  by (rule kv_ext) (auto simp: kv_simps)

lemma kv_del_set: "kv_ok xs \<Longrightarrow> map_of xs k = None \<Longrightarrow> kv_del k (kv_set k v xs) = xs"
  by (rule kv_ext) (auto simp: kv_simps fun_upd_idem)

lemma kv_del_fresh: "kv_ok xs \<Longrightarrow> map_of xs k = None \<Longrightarrow> kv_del k xs = xs"
  by (rule kv_ext) (auto simp: kv_simps fun_upd_idem)

lemma kv_set_nonempty [simp]: "kv_set k v xs \<noteq> []"
  by (cases xs) (auto split: if_splits)

end
