(* ===== verification/PaymentTypes.thy ===== *)
theory PaymentTypes
  imports KVStore
begin

text \<open>
  The data of the payment module (\<open>src/x/payment/types\<close>): stream records and the changes
  applied to them, flows, parameters with their validation, and the parts of the chain outside
  the module that its keeper calls (bank, accounts, address derivation) as the record
  \<open>payment_env\<close> of functions over an abstract bank state.

  An SDK \<open>Int\<close> is a HOL integer; a nil \<open>Int\<close> inside a stream record is 0, which is
  what the codec writes for it.  An \<open>sdk.AccAddress\<close> is its 20 bytes read as a 160-bit word, so
  that the word order is the byte order of the store keys.
\<close>

type_synonym addr = "160 word"

datatype StreamAccountStatus =
    STREAM_ACCOUNT_STATUS_ACTIVE
  | STREAM_ACCOUNT_STATUS_FROZEN
  | STREAM_ACCOUNT_STATUS_OTHER int

datatype OutFlowStatus = OUT_FLOW_STATUS_ACTIVE | OUT_FLOW_STATUS_FROZEN

record StreamRecord =
  Account :: addr
  CrudTimestamp :: int
  NetflowRate :: int
  StaticBalance :: int
  BufferBalance :: int
  LockBalance :: int
  Status :: StreamAccountStatus
  SettleTimestamp :: int
  OutFlowCount :: nat
  FrozenNetflowRate :: int

definition NewStreamRecord :: "addr \<Rightarrow> int \<Rightarrow> StreamRecord" where
  "NewStreamRecord account crudTimestamp =
     \<lparr>Account = account, CrudTimestamp = crudTimestamp, NetflowRate = 0, StaticBalance = 0,
      BufferBalance = 0, LockBalance = 0, Status = STREAM_ACCOUNT_STATUS_ACTIVE,
      SettleTimestamp = 0, OutFlowCount = 0, FrozenNetflowRate = 0\<rparr>"

record StreamRecordChange =
  Addr :: addr
  RateChange :: int
  StaticBalanceChange :: int
  LockBalanceChange :: int
  FrozenRateChange :: int

definition NewDefaultStreamRecordChangeWithAddr :: "addr \<Rightarrow> StreamRecordChange" where
  "NewDefaultStreamRecordChangeWithAddr a =
     \<lparr>Addr = a, RateChange = 0, StaticBalanceChange = 0, LockBalanceChange = 0,
      FrozenRateChange = 0\<rparr>"

definition WithRateChange :: "StreamRecordChange \<Rightarrow> int \<Rightarrow> StreamRecordChange" where
  "WithRateChange change r = change\<lparr>RateChange := r\<rparr>"

definition WithStaticBalanceChange :: "StreamRecordChange \<Rightarrow> int \<Rightarrow> StreamRecordChange" where
  "WithStaticBalanceChange change b = change\<lparr>StaticBalanceChange := b\<rparr>"

definition WithLockBalanceChange :: "StreamRecordChange \<Rightarrow> int \<Rightarrow> StreamRecordChange" where
  "WithLockBalanceChange change b = change\<lparr>LockBalanceChange := b\<rparr>"

definition WithFrozenRateChange :: "StreamRecordChange \<Rightarrow> int \<Rightarrow> StreamRecordChange" where
  "WithFrozenRateChange change r = change\<lparr>FrozenRateChange := r\<rparr>"

lemmas change_defs = NewDefaultStreamRecordChangeWithAddr_def WithRateChange_def
  WithStaticBalanceChange_def WithLockBalanceChange_def WithFrozenRateChange_def

record OutFlow =
  ToAddress :: addr
  Rate :: int
  FlowStatus :: OutFlowStatus

record UserFlows =
  From :: addr
  Flows :: "OutFlow list"

record PaymentAccount =
  PAddr :: addr
  Owner :: string
  Refundable :: bool

record DelayedWithdrawalRecord =
  DAddr :: addr
  Amount :: int
  DFrom :: addr
  UnlockTimestamp :: int


section \<open>Parameters\<close>

text \<open>A \<open>LegacyDec\<close> is its scaled integer (18 decimals); a nil one is \<open>None\<close>.\<close>

definition legacy_one :: int where
  "legacy_one = 10 ^ 18"

record VersionedParams =
  ReserveTime :: nat
  ValidatorTaxRate :: "int option"

record PaymentParams =
  Versioned :: VersionedParams
  PaymentAccountCountLimit :: nat
  ForcedSettleTime :: nat
  MaxAutoSettleFlowCount :: nat
  MaxAutoResumeFlowCount :: nat
  FeeDenom :: string
  WithdrawTimeLockThreshold :: "int option"
  WithdrawTimeLockDuration :: nat

text \<open>The zero value that \<open>GetParams\<close> returns when nothing is stored.\<close>

definition ZeroParams :: PaymentParams where
  "ZeroParams = \<lparr>Versioned = \<lparr>ReserveTime = 0, ValidatorTaxRate = None\<rparr>,
     PaymentAccountCountLimit = 0, ForcedSettleTime = 0, MaxAutoSettleFlowCount = 0,
     MaxAutoResumeFlowCount = 0, FeeDenom = [], WithdrawTimeLockThreshold = None,
     WithdrawTimeLockDuration = 0\<rparr>"

definition NewParams ::
  "nat \<Rightarrow> int option \<Rightarrow> nat \<Rightarrow> nat \<Rightarrow> nat \<Rightarrow> nat \<Rightarrow> string \<Rightarrow> int \<Rightarrow> nat \<Rightarrow> PaymentParams"
where
  "NewParams reserveTime validatorTaxRate forcedSettleTime paymentAccountCountLimit
     maxAutoSettleFlowCount maxAutoResumeFlowCount feeDenom threshold duration =
   \<lparr>Versioned = \<lparr>ReserveTime = reserveTime, ValidatorTaxRate = validatorTaxRate\<rparr>,
    PaymentAccountCountLimit = paymentAccountCountLimit, ForcedSettleTime = forcedSettleTime,
    MaxAutoSettleFlowCount = maxAutoSettleFlowCount,
    MaxAutoResumeFlowCount = maxAutoResumeFlowCount, FeeDenom = feeDenom,
    WithdrawTimeLockThreshold = Some threshold, WithdrawTimeLockDuration = duration\<rparr>"

definition DefaultParams :: PaymentParams where
  "DefaultParams = NewParams (180 * 24 * 60 * 60) (Some (10 ^ 16)) (24 * 60 * 60) 200 100 100
     ''amoca'' (10 ^ 18 * 100) (24 * 60 * 60)"

datatype param_error =
    ReserveTimeNotPositive | TaxRateOutOfRange | ForcedSettleTimeNotPositive
  | AccountLimitNotPositive | MaxSettleNotPositive | MaxResumeNotPositive | FeeDenomBlank
  | ThresholdNotPositive | ReserveNotAboveForced

text \<open>
  \<open>strings.TrimSpace\<close> leaves the empty string exactly for strings of white space; on the
  bytes of an ASCII string these are the six characters below.
\<close>

definition is_space :: "char \<Rightarrow> bool" where
  "is_space c \<longleftrightarrow> c \<in> {CHR '' '', CHR 0x09, CHR 0x0A, CHR 0x0B, CHR 0x0C, CHR 0x0D}"

definition is_blank :: "string \<Rightarrow> bool" where
  "is_blank s = list_all is_space s"

definition Validate :: "PaymentParams \<Rightarrow> param_error option" where
  "Validate p =
    (if ReserveTime (Versioned p) \<le> 0 then Some ReserveTimeNotPositive
     else if (case ValidatorTaxRate (Versioned p) of
                None \<Rightarrow> True | Some r \<Rightarrow> r < 0 \<or> legacy_one < r) then Some TaxRateOutOfRange
     else if ForcedSettleTime p \<le> 0 then Some ForcedSettleTimeNotPositive
     else if PaymentAccountCountLimit p \<le> 0 then Some AccountLimitNotPositive
     else if MaxAutoSettleFlowCount p \<le> 0 then Some MaxSettleNotPositive
     else if MaxAutoResumeFlowCount p \<le> 0 then Some MaxResumeNotPositive
     else if is_blank (FeeDenom p) then Some FeeDenomBlank
     else if (case WithdrawTimeLockThreshold p of None \<Rightarrow> False | Some t \<Rightarrow> t \<le> 0)
       then Some ThresholdNotPositive
     else if ReserveTime (Versioned p) \<le> ForcedSettleTime p then Some ReserveNotAboveForced
     else None)"

lemma Validate_DefaultParams: "Validate DefaultParams = None"
  by (simp add: Validate_def DefaultParams_def NewParams_def legacy_one_def is_blank_def is_space_def)

lemma Validate_SomeD:
  assumes "Validate p = None"
  shows "0 < ForcedSettleTime p" "ForcedSettleTime p < ReserveTime (Versioned p)"
    "0 < MaxAutoSettleFlowCount p" "0 < MaxAutoResumeFlowCount p" "0 < PaymentAccountCountLimit p"
  using assms by (auto simp: Validate_def split: if_splits)


section \<open>Errors and the environment of the keeper\<close>

datatype pay_error =
    ErrReachPaymentAccountLimit | ErrPaymentAccountNotFound | ErrStreamRecordNotFound
  | ErrNotPaymentAccountOwner | ErrPaymentAccountAlreadyNonRefundable | ErrInsufficientBalance
  | ErrReceiveAccountNotExist | ErrInvalidStreamAccountStatus | ErrNoDelayedWithdrawal
  | ErrIncorrectWithdrawAmount | ErrNotReachTimeLockDuration | ErrExistsDelayedWithdrawal
  | ErrInvalidSigner | ErrParams param_error
  | ErrFrozen addr              \<comment> \<open>stream record is frozen\<close>
  | ErrBalanceNotEnough addr int \<comment> \<open>stream account balance not enough, lack of\<close>
  | ErrLack addr int            \<comment> \<open>stream account lacks of\<close>
  | ErrSettle pay_error         \<comment> \<open>check and force settle failed\<close>
  | ErrGovernance pay_error     \<comment> \<open>update governance stream record failed\<close>
  | ErrApply pay_error          \<comment> \<open>apply stream record changes failed\<close>
  | ErrNotFrozen addr | ErrResuming addr
  | ErrResumeReceiver pay_error
  | ErrUpdate pay_error         \<comment> \<open>update stream record failed\<close>
  | ErrNoVersionedParams
  | ErrBank string

type_synonym coins = "(string \<times> int) list"

record 'b payment_env =
  HasAccount :: "'b \<Rightarrow> addr \<Rightarrow> bool"
  GetBalance :: "'b \<Rightarrow> addr \<Rightarrow> string \<Rightarrow> int"
  SendCoinsFromAccountToModule :: "addr \<Rightarrow> string \<Rightarrow> coins \<Rightarrow> 'b \<Rightarrow> string + 'b"
  SendCoinsFromModuleToAccount :: "string \<Rightarrow> addr \<Rightarrow> coins \<Rightarrow> 'b \<Rightarrow> string + 'b"
  SendCoinsFromModuleToModule :: "string \<Rightarrow> string \<Rightarrow> coins \<Rightarrow> 'b \<Rightarrow> string + 'b"
  ModuleAddress :: "string \<Rightarrow> addr"
  ValidDenom :: "string \<Rightarrow> bool"
  GovernanceAddress :: addr
  AddressDerive :: "addr \<Rightarrow> nat list \<Rightarrow> addr"
  AccString :: "addr \<Rightarrow> string"
  AccFromHex :: "string \<Rightarrow> addr option"

text \<open>
  What the payment keeper relies on from the bank module, for every denomination \<open>d\<close>: a
  successful transfer of a list of coins moves their amount of \<open>d\<close> from one balance to the other.
\<close>

definition coins_amount :: "coins \<Rightarrow> string \<Rightarrow> int" where
  "coins_amount cs d = (\<Sum>(e, n) \<leftarrow> cs. if e = d then n else 0)"

definition bank_laws :: "'b payment_env \<Rightarrow> bool" where
  "bank_laws E \<longleftrightarrow>
     (\<forall>a m cs b b' x d. SendCoinsFromAccountToModule E a m cs b = Inr b' \<longrightarrow>
        GetBalance E b' x d = GetBalance E b x d
          - (if x = a then coins_amount cs d else 0)
          + (if x = ModuleAddress E m then coins_amount cs d else 0)) \<and>
     (\<forall>a m cs b b' x d. SendCoinsFromModuleToAccount E m a cs b = Inr b' \<longrightarrow>
        GetBalance E b' x d = GetBalance E b x d
          - (if x = ModuleAddress E m then coins_amount cs d else 0)
          + (if x = a then coins_amount cs d else 0)) \<and>
     (\<forall>m n cs b b' x d. SendCoinsFromModuleToModule E m n cs b = Inr b' \<longrightarrow>
        GetBalance E b' x d = GetBalance E b x d
          - (if x = ModuleAddress E m then coins_amount cs d else 0)
          + (if x = ModuleAddress E n then coins_amount cs d else 0))"

text \<open>
  \<open>sdk.MustAccAddressFromHex\<close> panics on a string that is no address.
  \<open>sdk.NewCoins(sdk.NewCoin(denom, amount))\<close>: the constructor panics on a negative amount or a
  malformed denomination, and a zero coin is dropped.
\<close>

definition MustAccAddressFromHex ::
  "'b payment_env \<Rightarrow> string \<Rightarrow> 's \<Rightarrow> (pay_error, addr) outcome \<times> 's" where
  "MustAccAddressFromHex E str s =
     (case AccFromHex E str of None \<Rightarrow> (Panic, s) | Some a \<Rightarrow> (Ok a, s))"

definition NewCoins :: "'b payment_env \<Rightarrow> string \<Rightarrow> int \<Rightarrow> 's \<Rightarrow> (pay_error, coins) outcome \<times> 's" where
  "NewCoins E denom amount s =
     (if amount < 0 \<or> \<not> ValidDenom E denom then (Panic, s)
      else (Ok (if amount = 0 then [] else [(denom, amount)]), s))"

lemma coins_amount_Nil [simp]: "coins_amount [] d = 0"
  by (simp add: coins_amount_def)

lemma coins_amount_single [simp]: "coins_amount [(e, n)] d = (if e = d then n else 0)"
  by (simp add: coins_amount_def)

lemma bank_laws_in:
  assumes "bank_laws E" "SendCoinsFromAccountToModule E a m cs b = Inr b'" "a \<noteq> ModuleAddress E m"
  shows "GetBalance E b' (ModuleAddress E m) d = GetBalance E b (ModuleAddress E m) d + coins_amount cs d"
  using assms(1) [unfolded bank_laws_def, THEN conjunct1, rule_format, OF assms(2),
      of "ModuleAddress E m" d] assms(3)
  by simp

lemma bank_laws_out:
  assumes "bank_laws E" "SendCoinsFromModuleToAccount E m a cs b = Inr b'" "a \<noteq> ModuleAddress E m"
  shows "GetBalance E b' (ModuleAddress E m) d = GetBalance E b (ModuleAddress E m) d - coins_amount cs d"
  using assms(1) [unfolded bank_laws_def, THEN conjunct2, THEN conjunct1, rule_format, OF assms(2),
      of "ModuleAddress E m" d] assms(3)
  by simp

end
