(* ===== verification/PaymentStore.thy ===== *)
theory PaymentStore
  imports PaymentTypes
begin

text \<open>
  The state of the payment keeper and its typed stores (\<open>src/x/payment/keeper\<close>: stream records,
  auto-settle and auto-resume queues, out flows, payment accounts and their counts, parameters and
  their versions, delayed withdrawals), one ordered store per key prefix of
  \<open>types/keys.go\<close>.  The codec's byte strings are replaced by the values they encode; the
  byte keys are encodings of fixed length, which compare as the values do (\<open>Bytes\<close>).  Emitted events, logging
  and telemetry are not part of the state.
\<close>

record 'b pay_state =
  streamRecords :: "(addr \<times> StreamRecord) list"
  autoSettleRecords :: "((nat \<times> addr) \<times> unit) list"
  autoResumeRecords :: "((nat \<times> addr) \<times> unit) list"
  outFlows :: "((addr \<times> bool \<times> addr) \<times> int) list"
  paymentAccounts :: "(addr \<times> PaymentAccount) list"
  paymentAccountCounts :: "(addr \<times> nat) list"
  payParams :: "PaymentParams option"
  versionedParams :: "(nat \<times> VersionedParams) list"
  delayedWithdrawals :: "(addr \<times> DelayedWithdrawalRecord) list"
  bank :: 'b

text \<open>
  The part of \<open>sdk.Context\<close> the keeper reads: the block time in seconds, the
  \<open>ForceUpdateStreamRecordKey\<close> flag, and the number of nested settlements the call stack
  allows (every nested call costs a frame, and running out is a crash).
\<close>

record pay_ctx =
  BlockTime :: int
  Forced :: bool
  CallDepth :: nat

type_synonym 'b pay_result = "(pay_error, unit) outcome \<times> 'b pay_state"

definition GetParams :: "'b pay_state \<Rightarrow> PaymentParams" where
  "GetParams s = (case payParams s of None \<Rightarrow> ZeroParams | Some p \<Rightarrow> p)"

definition SetVersionedParamsWithTS :: "pay_ctx \<Rightarrow> VersionedParams \<Rightarrow> 'b pay_state \<Rightarrow> 'b pay_state" where
  "SetVersionedParamsWithTS ctx vp s =
     s\<lparr>versionedParams := kv_set (wrap_uint64 (BlockTime ctx)) vp (versionedParams s)\<rparr>"

definition SetParams :: "pay_ctx \<Rightarrow> PaymentParams \<Rightarrow> 'b pay_state \<Rightarrow> 'b pay_result" where
  "SetParams ctx p s = (case Validate p of
      Some e \<Rightarrow> (Err (ErrParams e), s)
    | None \<Rightarrow> (Ok (), SetVersionedParamsWithTS ctx (Versioned p) (s\<lparr>payParams := Some p\<rparr>)))"

text \<open>The reverse iterator over the keys below \<open>ts\<close>: its first element is the greatest.\<close>

definition GetVersionedParamsWithTs :: "'b pay_state \<Rightarrow> int \<Rightarrow> pay_error + VersionedParams" where
  "GetVersionedParamsWithTs s ts =
     (case rev (filter (\<lambda>(k, _). k < wrap_uint64 ts) (versionedParams s)) of
        [] \<Rightarrow> Inl ErrNoVersionedParams
      | (_, vp) # _ \<Rightarrow> Inr vp)"


section \<open>Stream records\<close>

definition CheckStreamRecord :: "StreamRecord \<Rightarrow> bool" where
  "CheckStreamRecord r \<longleftrightarrow>
     (Status r = STREAM_ACCOUNT_STATUS_ACTIVE \<or> Status r = STREAM_ACCOUNT_STATUS_FROZEN) \<and>
     \<not> 0 < FrozenNetflowRate r \<and> \<not> LockBalance r < 0 \<and> \<not> BufferBalance r < 0 \<and>
     \<not> (NetflowRate r < 0 \<and> OutFlowCount r = 0)"

definition SetStreamRecord :: "StreamRecord \<Rightarrow> 'b pay_state \<Rightarrow> 'b pay_result" where
  "SetStreamRecord r s =
     (if CheckStreamRecord r
      then (Ok (), s\<lparr>streamRecords := kv_set (Account r) r (streamRecords s)\<rparr>)
      else (Panic, s))"

text \<open>
  The source unmarshals into a new record of the block time, and an encoded timestamp of 0 would leave
  that time in place.  A stored record has the time of a block later than the epoch, so the case is left out.
\<close>

definition GetStreamRecord :: "pay_ctx \<Rightarrow> addr \<Rightarrow> 'b pay_state \<Rightarrow> StreamRecord \<times> bool" where
  "GetStreamRecord ctx account s = (case map_of (streamRecords s) account of
      None \<Rightarrow> (NewStreamRecord account (BlockTime ctx), False)
    | Some r \<Rightarrow> (r\<lparr>Account := account\<rparr>, True))"

definition IsEmptyNetFlow :: "pay_ctx \<Rightarrow> addr \<Rightarrow> 'b pay_state \<Rightarrow> bool" where
  "IsEmptyNetFlow ctx account s =
     (let (record, found) = GetStreamRecord ctx account s
      in if \<not> found then True else NetflowRate record = 0 \<and> FrozenNetflowRate record = 0)"

definition GetAllStreamRecord :: "'b pay_state \<Rightarrow> StreamRecord list" where
  "GetAllStreamRecord s = map (\<lambda>(a, r). r\<lparr>Account := a\<rparr>) (streamRecords s)"


section \<open>The settle and resume queues\<close>

definition SetAutoSettleRecord :: "int \<Rightarrow> addr \<Rightarrow> 'b pay_state \<Rightarrow> 'b pay_state" where
  "SetAutoSettleRecord timestamp a s =
     s\<lparr>autoSettleRecords := kv_set (wrap_uint64 timestamp, a) () (autoSettleRecords s)\<rparr>"

definition RemoveAutoSettleRecord :: "int \<Rightarrow> addr \<Rightarrow> 'b pay_state \<Rightarrow> 'b pay_state" where
  "RemoveAutoSettleRecord timestamp a s =
     s\<lparr>autoSettleRecords := kv_del (wrap_uint64 timestamp, a) (autoSettleRecords s)\<rparr>"

definition GetAllAutoSettleRecord :: "'b pay_state \<Rightarrow> (int \<times> addr) list" where
  "GetAllAutoSettleRecord s =
     map (\<lambda>((t, a), _). (wrap_int64 (int t), a)) (autoSettleRecords s)"

definition UpdateAutoSettleRecord :: "addr \<Rightarrow> int \<Rightarrow> int \<Rightarrow> 'b pay_state \<Rightarrow> 'b pay_state" where
  "UpdateAutoSettleRecord a oldTime newTime s =
     (let s = (if oldTime \<noteq> 0 then RemoveAutoSettleRecord oldTime a s else s)
      in if newTime \<noteq> 0 then SetAutoSettleRecord newTime a s else s)"

definition SetAutoResumeRecord :: "int \<Rightarrow> addr \<Rightarrow> 'b pay_state \<Rightarrow> 'b pay_state" where
  "SetAutoResumeRecord timestamp a s =
     s\<lparr>autoResumeRecords := kv_set (wrap_uint64 timestamp, a) () (autoResumeRecords s)\<rparr>"

definition GetAutoResumeRecord :: "int \<Rightarrow> addr \<Rightarrow> 'b pay_state \<Rightarrow> (int \<times> addr) option" where
  "GetAutoResumeRecord timestamp a s =
     (case map_of (autoResumeRecords s) (wrap_uint64 timestamp, a) of
        None \<Rightarrow> None | Some _ \<Rightarrow> Some (timestamp, a))"

definition RemoveAutoResumeRecord :: "int \<Rightarrow> addr \<Rightarrow> 'b pay_state \<Rightarrow> 'b pay_state" where
  "RemoveAutoResumeRecord timestamp a s =
     s\<lparr>autoResumeRecords := kv_del (wrap_uint64 timestamp, a) (autoResumeRecords s)\<rparr>"

text \<open>
  The scan stops at the first queue entry later than a positive \<open>timestamp\<close>.
\<close>

fun exists_resume_scan :: "int \<Rightarrow> addr \<Rightarrow> ((nat \<times> addr) \<times> unit) list \<Rightarrow> bool" where
  "exists_resume_scan timestamp a [] = False"
| "exists_resume_scan timestamp a (((t, b), _) # rest) =
     (if timestamp > 0 \<and> wrap_int64 (int t) > timestamp then False
      else if b = a then True
      else exists_resume_scan timestamp a rest)"

definition ExistsAutoResumeRecord :: "int \<Rightarrow> addr \<Rightarrow> 'b pay_state \<Rightarrow> bool" where
  "ExistsAutoResumeRecord timestamp a s = exists_resume_scan timestamp a (autoResumeRecords s)"


section \<open>Out flows\<close>

definition flow_byte :: "OutFlowStatus \<Rightarrow> bool" where
  "flow_byte st = (st \<noteq> OUT_FLOW_STATUS_ACTIVE)"

definition flow_status :: "bool \<Rightarrow> OutFlowStatus" where
  "flow_status b = (if b then OUT_FLOW_STATUS_FROZEN else OUT_FLOW_STATUS_ACTIVE)"

definition SetOutFlow :: "addr \<Rightarrow> OutFlow \<Rightarrow> 'b pay_state \<Rightarrow> 'b pay_state" where
  "SetOutFlow a f s =
     s\<lparr>outFlows := kv_set (a, flow_byte (FlowStatus f), ToAddress f) (Rate f) (outFlows s)\<rparr>"

definition GetOutFlow :: "addr \<Rightarrow> OutFlowStatus \<Rightarrow> addr \<Rightarrow> 'b pay_state \<Rightarrow> OutFlow option" where
  "GetOutFlow a st toAddr s =
     (case map_of (outFlows s) (a, flow_byte st, toAddr) of
        None \<Rightarrow> None
      | Some r \<Rightarrow> Some \<lparr>ToAddress = toAddr, Rate = r, FlowStatus = st\<rparr>)"

text \<open>
  \<open>iter_from a b\<close> is the iterator over the flow keys from (\<open>a\<close>, status byte \<open>b\<close>) on,
  without an upper bound; the loops over it stop by themselves at the next address.
\<close>

definition iter_from :: "addr \<Rightarrow> bool \<Rightarrow> ((addr \<times> bool \<times> addr) \<times> int) list
  \<Rightarrow> ((addr \<times> bool \<times> addr) \<times> int) list" where
  "iter_from a b flows = dropWhile (\<lambda>((x, st, _), _). x < a \<or> x = a \<and> st < b) flows"

definition GetOutFlows :: "addr \<Rightarrow> 'b pay_state \<Rightarrow> OutFlow list" where
  "GetOutFlows a s =
     map (\<lambda>((_, st, toAddr), r). \<lparr>ToAddress = toAddr, Rate = r, FlowStatus = flow_status st\<rparr>)
       (takeWhile (\<lambda>((x, _, _), _). x = a) (iter_from a False (outFlows s)))"

definition DeleteOutFlow :: "addr \<times> bool \<times> addr \<Rightarrow> 'b pay_state \<Rightarrow> 'b pay_state" where
  "DeleteOutFlow key s = s\<lparr>outFlows := kv_del key (outFlows s)\<rparr>"

fun mergeOutFlows_loop :: "addr \<Rightarrow> OutFlowStatus \<Rightarrow> OutFlow list \<Rightarrow> int \<Rightarrow> 'b pay_state
  \<Rightarrow> int \<times> 'b pay_state" where
  "mergeOutFlows_loop a st [] deltaCount s = (deltaCount, s)"
| "mergeOutFlows_loop a st (f # fs) deltaCount s =
     (let outFlow = f\<lparr>FlowStatus := st\<rparr>;
          key = (a, flow_byte st, ToAddress outFlow)
      in case map_of (outFlows s) key of
           None \<Rightarrow> mergeOutFlows_loop a st fs (deltaCount + 1) (SetOutFlow a outFlow s)
         | Some old \<Rightarrow>
             (let outFlow = outFlow\<lparr>Rate := old + Rate outFlow\<rparr>
              in if Rate outFlow = 0
                 then mergeOutFlows_loop a st fs (deltaCount - 1) (DeleteOutFlow key s)
                 else mergeOutFlows_loop a st fs deltaCount (SetOutFlow a outFlow s)))"

definition mergeOutFlows :: "addr \<Rightarrow> OutFlowStatus \<Rightarrow> OutFlow list \<Rightarrow> 'b pay_state \<Rightarrow> int \<times> 'b pay_state" where
  "mergeOutFlows a st fs s = mergeOutFlows_loop a st fs 0 s"

definition MergeActiveOutFlows :: "addr \<Rightarrow> OutFlow list \<Rightarrow> 'b pay_state \<Rightarrow> int \<times> 'b pay_state" where
  "MergeActiveOutFlows a fs s = mergeOutFlows a OUT_FLOW_STATUS_ACTIVE fs s"

definition MergeFrozenOutFlows :: "addr \<Rightarrow> OutFlow list \<Rightarrow> 'b pay_state \<Rightarrow> int \<times> 'b pay_state" where
  "MergeFrozenOutFlows a fs s = mergeOutFlows a OUT_FLOW_STATUS_FROZEN fs s"


section \<open>Payment accounts and delayed withdrawals\<close>

definition SetPaymentAccount :: "PaymentAccount \<Rightarrow> 'b pay_state \<Rightarrow> 'b pay_state" where
  "SetPaymentAccount p s = s\<lparr>paymentAccounts := kv_set (PAddr p) p (paymentAccounts s)\<rparr>"

definition GetPaymentAccount :: "addr \<Rightarrow> 'b pay_state \<Rightarrow> PaymentAccount option" where
  "GetPaymentAccount a s = map_option (\<lambda>p. p\<lparr>PAddr := a\<rparr>) (map_of (paymentAccounts s) a)"

definition IsPaymentAccount :: "addr \<Rightarrow> 'b pay_state \<Rightarrow> bool" where
  "IsPaymentAccount a s = kv_has (paymentAccounts s) a"

definition GetAllPaymentAccount :: "'b pay_state \<Rightarrow> PaymentAccount list" where
  "GetAllPaymentAccount s = map (\<lambda>(a, p). p\<lparr>PAddr := a\<rparr>) (paymentAccounts s)"

definition IsPaymentAccountOwner :: "'b payment_env \<Rightarrow> addr \<Rightarrow> addr \<Rightarrow> 'b pay_state \<Rightarrow> bool" where
  "IsPaymentAccountOwner E a owner s =
     (if a = owner then True
      else (case GetPaymentAccount a s of None \<Rightarrow> [] | Some p \<Rightarrow> Owner p) = AccString E owner)"

text \<open>The derivation hashes the owner's bytes and the index as eight little-endian bytes.\<close>

fun le_bytes :: "nat \<Rightarrow> nat \<Rightarrow> nat list" where
  "le_bytes 0 x = []"
| "le_bytes (Suc n) x = x mod 256 # le_bytes n (x div 256)"

definition DerivePaymentAccountAddress :: "'b payment_env \<Rightarrow> addr \<Rightarrow> nat \<Rightarrow> addr" where
  "DerivePaymentAccountAddress E owner index = AddressDerive E owner (le_bytes 8 index)"

definition SetPaymentAccountCount :: "addr \<Rightarrow> nat \<Rightarrow> 'b pay_state \<Rightarrow> 'b pay_state" where
  "SetPaymentAccountCount owner n s =
     s\<lparr>paymentAccountCounts := kv_set owner n (paymentAccountCounts s)\<rparr>"

definition GetPaymentAccountCount :: "addr \<Rightarrow> 'b pay_state \<Rightarrow> nat" where
  "GetPaymentAccountCount owner s =
     (case map_of (paymentAccountCounts s) owner of None \<Rightarrow> 0 | Some n \<Rightarrow> n)"

definition GetAllPaymentAccountCount :: "'b pay_state \<Rightarrow> (addr \<times> nat) list" where
  "GetAllPaymentAccountCount s = paymentAccountCounts s"

definition SetDelayedWithdrawalRecord :: "DelayedWithdrawalRecord \<Rightarrow> 'b pay_state \<Rightarrow> 'b pay_state" where
  "SetDelayedWithdrawalRecord d s =
     s\<lparr>delayedWithdrawals := kv_set (DAddr d) d (delayedWithdrawals s)\<rparr>"

definition GetDelayedWithdrawalRecord :: "addr \<Rightarrow> 'b pay_state \<Rightarrow> DelayedWithdrawalRecord option" where
  "GetDelayedWithdrawalRecord a s =
     map_option (\<lambda>d. d\<lparr>DAddr := a\<rparr>) (map_of (delayedWithdrawals s) a)"

definition RemoveDelayedWithdrawalRecord :: "addr \<Rightarrow> 'b pay_state \<Rightarrow> 'b pay_state" where
  "RemoveDelayedWithdrawalRecord a s =
     s\<lparr>delayedWithdrawals := kv_del a (delayedWithdrawals s)\<rparr>"

lemma GetParams_bank [simp]: "GetParams (s\<lparr>bank := b\<rparr>) = GetParams s"
  "GetParams (s\<lparr>streamRecords := x\<rparr>) = GetParams s"
  "GetParams (s\<lparr>autoSettleRecords := y\<rparr>) = GetParams s"
  "GetParams (s\<lparr>autoResumeRecords := y\<rparr>) = GetParams s"
  by (simp_all add: GetParams_def)

end
