(* ===== verification/StreamRecords.thy ===== *)
theory StreamRecords
  imports PaymentStore
begin

text \<open>
  Settlement of stream accounts (\<open>src/x/payment/keeper/stream_record.go\<close>): the update of one
  stream record with its accrual, lock, buffer and bank top-up steps, forced settlement into the
  governance account, the end-block loops that settle and resume accounts, and the resumption
  a deposit triggers.

  \<open>UpdateStreamRecord\<close>, \<open>ForceSettle\<close> and \<open>UpdateStreamRecordByAddr\<close> call each
  other in Go.  Here the body of each takes the next one as an argument and \<open>update_rec\<close> ties
  the knot, one unit of call depth per nested update.  The loops run over the contents the store
  had when their iterator was opened.
\<close>

section \<open>Updating a stream record\<close>

definition apply_lock_change :: "StreamRecord \<Rightarrow> int \<Rightarrow> StreamRecord" where
  "apply_lock_change r d =
     (if d \<noteq> 0 then
        (let r = r\<lparr>LockBalance := LockBalance r + d\<rparr>;
             r = r\<lparr>StaticBalance := StaticBalance r - d\<rparr>
         in if LockBalance r < 0
            then r\<lparr>StaticBalance := StaticBalance r + LockBalance r, LockBalance := 0\<rparr>
            else r)
      else r)"

definition UpdateFrozenStreamRecord ::
  "pay_ctx \<Rightarrow> StreamRecord \<Rightarrow> StreamRecordChange \<Rightarrow> pay_error + StreamRecord" where
  "UpdateFrozenStreamRecord ctx r change =
     (if \<not> Forced ctx then Inl (ErrFrozen (Account r))
      else
        (let r = apply_lock_change r (LockBalanceChange change);
             r = (if RateChange change \<noteq> 0
                  then r\<lparr>NetflowRate := NetflowRate r + RateChange change\<rparr> else r);
             r = (if FrozenRateChange change \<noteq> 0
                  then r\<lparr>FrozenNetflowRate := FrozenNetflowRate r + FrozenRateChange change\<rparr>
                  else r)
         in Inr r))"

definition accrue :: "int \<Rightarrow> StreamRecord \<Rightarrow> StreamRecord" where
  "accrue now r =
     (if now > CrudTimestamp r then
        (let r = (if NetflowRate r \<noteq> 0
                  then r\<lparr>StaticBalance := StaticBalance r
                           + NetflowRate r * wrap_int64 (now - CrudTimestamp r)\<rparr>
                  else r)
         in r\<lparr>CrudTimestamp := now\<rparr>)
      else r)"

definition apply_rate_change :: "PaymentParams \<Rightarrow> StreamRecord \<Rightarrow> int \<Rightarrow> StreamRecord" where
  "apply_rate_change p r d =
     (let r = r\<lparr>NetflowRate := NetflowRate r + d\<rparr>;
          newBufferBalance = (if NetflowRate r < 0
                              then \<bar>NetflowRate r\<bar> * int (ReserveTime (Versioned p)) else 0)
      in if newBufferBalance \<noteq> BufferBalance r
         then r\<lparr>StaticBalance := StaticBalance r - newBufferBalance + BufferBalance r,
                BufferBalance := newBufferBalance\<rparr>
         else r)"

definition apply_static_change :: "StreamRecord \<Rightarrow> int \<Rightarrow> StreamRecord" where
  "apply_static_change r d =
     (if d \<noteq> 0 then r\<lparr>StaticBalance := StaticBalance r + d\<rparr> else r)"

text \<open>A failed transfer is logged and ignored; the bank state is then unchanged.\<close>

definition auto_transfer :: "'b payment_env \<Rightarrow> PaymentParams \<Rightarrow> StreamRecord \<Rightarrow> 'b pay_state
  \<Rightarrow> (pay_error, StreamRecord) outcome \<times> 'b pay_state" where
  "auto_transfer E p r s =
     (if StaticBalance r < 0 then
        (if HasAccount E (bank s) (Account r) then
           andthen (NewCoins E (FeeDenom p) \<bar>StaticBalance r\<bar> s) (\<lambda>coins s.
             case SendCoinsFromAccountToModule E (Account r) ''payment'' coins (bank s) of
               Inl _ \<Rightarrow> (Ok r, s)
             | Inr b \<Rightarrow> (Ok (r\<lparr>StaticBalance := 0\<rparr>), s\<lparr>bank := b\<rparr>))
         else (Ok r, s))
      else (Ok r, s))"

definition set_settle_time :: "int \<Rightarrow> StreamRecord \<Rightarrow> 'b pay_state
  \<Rightarrow> (pay_error, StreamRecord) outcome \<times> 'b pay_state" where
  "set_settle_time t r s =
     (Ok (r\<lparr>SettleTimestamp := t\<rparr>), UpdateAutoSettleRecord (Account r) (SettleTimestamp r) t s)"

definition settle_step ::
  "(StreamRecord \<Rightarrow> 'b pay_state \<Rightarrow> (pay_error, StreamRecord) outcome \<times> 'b pay_state)
   \<Rightarrow> pay_ctx \<Rightarrow> PaymentParams \<Rightarrow> StreamRecord \<Rightarrow> 'b pay_state
   \<Rightarrow> (pay_error, StreamRecord) outcome \<times> 'b pay_state" where
  "settle_step settle ctx p r s =
     (if NetflowRate r < 0 then
        (let payDuration = quo (StaticBalance r + BufferBalance r) \<bar>NetflowRate r\<bar>
         in andthen
             (if payDuration \<le> int (ForcedSettleTime p)
              then if \<not> Forced ctx then (Err (ErrLack (Account r) \<bar>StaticBalance r\<bar>), s)
                   else map_err ErrSettle (settle r s)
              else (Ok r, s))
             (\<lambda>r s.
               if \<not> is_int64 payDuration then (Panic, s)
               else set_settle_time
                      (wrap_int64 (wrap_int64 (BlockTime ctx - wrap_int64 (int (ForcedSettleTime p)))
                         + payDuration)) r s))
      else set_settle_time 0 r s)"

definition update_body ::
  "(StreamRecord \<Rightarrow> 'b pay_state \<Rightarrow> (pay_error, StreamRecord) outcome \<times> 'b pay_state)
   \<Rightarrow> 'b payment_env \<Rightarrow> pay_ctx \<Rightarrow> StreamRecord \<Rightarrow> StreamRecordChange \<Rightarrow> 'b pay_state
   \<Rightarrow> (pay_error, StreamRecord) outcome \<times> 'b pay_state" where
  "update_body settle E ctx r change s =
     (if Status r = STREAM_ACCOUNT_STATUS_FROZEN then
        (case UpdateFrozenStreamRecord ctx r change of
           Inl e \<Rightarrow> (Err e, s)
         | Inr r \<Rightarrow> (Ok r, s))
      else
        (let isPay = StaticBalanceChange change < 0 \<or> RateChange change < 0;
             p = GetParams s;
             r = accrue (BlockTime ctx) r;
             r = apply_lock_change r (LockBalanceChange change);
             r = apply_rate_change p r (RateChange change);
             r = apply_static_change r (StaticBalanceChange change)
         in andthen (auto_transfer E p r s) (\<lambda>r s.
              if \<not> Forced ctx \<and> isPay \<and> StaticBalance r < 0
              then (Err (ErrBalanceNotEnough (Account r) \<bar>StaticBalance r\<bar>), s)
              else settle_step settle ctx p r s)))"

definition by_addr ::
  "(StreamRecord \<Rightarrow> StreamRecordChange \<Rightarrow> 'b pay_state
      \<Rightarrow> (pay_error, StreamRecord) outcome \<times> 'b pay_state)
   \<Rightarrow> pay_ctx \<Rightarrow> StreamRecordChange \<Rightarrow> 'b pay_state
   \<Rightarrow> (pay_error, StreamRecord) outcome \<times> 'b pay_state" where
  "by_addr update ctx change s =
     andthen (update (fst (GetStreamRecord ctx (Addr change) s)) change s) (\<lambda>r s.
       andthen (SetStreamRecord r s) (\<lambda>_ s. (Ok r, s)))"

definition force_settle ::
  "(StreamRecord \<Rightarrow> StreamRecordChange \<Rightarrow> 'b pay_state
      \<Rightarrow> (pay_error, StreamRecord) outcome \<times> 'b pay_state)
   \<Rightarrow> 'b payment_env \<Rightarrow> pay_ctx \<Rightarrow> StreamRecord \<Rightarrow> 'b pay_state
   \<Rightarrow> (pay_error, StreamRecord) outcome \<times> 'b pay_state" where
  "force_settle update E ctx r s =
     (let totalBalance = StaticBalance r + BufferBalance r;
          change = WithStaticBalanceChange
                     (NewDefaultStreamRecordChangeWithAddr (GovernanceAddress E)) totalBalance
      in andthen (map_err ErrGovernance (by_addr update ctx change s)) (\<lambda>_ s.
           (Ok (r\<lparr>StaticBalance := 0, BufferBalance := 0,
                  Status := STREAM_ACCOUNT_STATUS_FROZEN\<rparr>), s)))"

fun update_rec :: "nat \<Rightarrow> 'b payment_env \<Rightarrow> pay_ctx \<Rightarrow> StreamRecord \<Rightarrow> StreamRecordChange
   \<Rightarrow> 'b pay_state \<Rightarrow> (pay_error, StreamRecord) outcome \<times> 'b pay_state" where
  "update_rec 0 E ctx r change s = (Panic, s)"
| "update_rec (Suc n) E ctx r change s =
     update_body (force_settle (update_rec n E ctx) E ctx) E ctx r change s"

definition UpdateStreamRecord :: "'b payment_env \<Rightarrow> pay_ctx \<Rightarrow> StreamRecord \<Rightarrow> StreamRecordChange
   \<Rightarrow> 'b pay_state \<Rightarrow> (pay_error, StreamRecord) outcome \<times> 'b pay_state" where
  "UpdateStreamRecord E ctx r change s = update_rec (CallDepth ctx) E ctx r change s"

definition UpdateStreamRecordByAddr :: "'b payment_env \<Rightarrow> pay_ctx \<Rightarrow> StreamRecordChange
   \<Rightarrow> 'b pay_state \<Rightarrow> (pay_error, StreamRecord) outcome \<times> 'b pay_state" where
  "UpdateStreamRecordByAddr E ctx change s = by_addr (UpdateStreamRecord E ctx) ctx change s"

definition ForceSettle :: "'b payment_env \<Rightarrow> pay_ctx \<Rightarrow> StreamRecord \<Rightarrow> 'b pay_state
   \<Rightarrow> (pay_error, StreamRecord) outcome \<times> 'b pay_state" where
  "ForceSettle E ctx r s = force_settle (UpdateStreamRecord E ctx) E ctx r s"


section \<open>Settling accounts at the end of a block\<close>

text \<open>
  The inner loops return the counter, the accumulated rate, the flows to write back and whether
  the account's flows were exhausted.  A receiver that cannot be updated is a panic.
\<close>

fun settle_flows :: "'b payment_env \<Rightarrow> pay_ctx \<Rightarrow> nat \<Rightarrow> addr
   \<Rightarrow> ((addr \<times> bool \<times> addr) \<times> int) list \<Rightarrow> nat \<Rightarrow> int \<Rightarrow> OutFlow list \<Rightarrow> 'b pay_state
   \<Rightarrow> (pay_error, nat \<times> int \<times> OutFlow list \<times> bool) outcome \<times> 'b pay_state" where
  "settle_flows E ctx limit a [] count totalRate toUpdate s = (Ok (count, totalRate, toUpdate, True), s)"
| "settle_flows E ctx limit a (((x, st, toAddr), rate) # flows) count totalRate toUpdate s =
     (if count \<ge> limit then (Ok (count, totalRate, toUpdate, False), s)
      else if x \<noteq> a then (Ok (count, totalRate, toUpdate, True), s)
      else if flow_status st = OUT_FLOW_STATUS_FROZEN then (Ok (count, totalRate, toUpdate, True), s)
      else
        (case UpdateStreamRecordByAddr E ctx
                (WithRateChange (NewDefaultStreamRecordChangeWithAddr toAddr) (- rate)) s of
           (Ok _, s) \<Rightarrow>
             settle_flows E ctx limit a flows (count + 1) (totalRate + rate)
               (toUpdate @ [\<lparr>ToAddress = toAddr, Rate = rate, FlowStatus = OUT_FLOW_STATUS_FROZEN\<rparr>])
               (DeleteOutFlow (x, st, toAddr) s)
         | (_, s) \<Rightarrow> (Panic, s)))"

definition settle_account :: "'b payment_env \<Rightarrow> pay_ctx \<Rightarrow> nat \<Rightarrow> int \<Rightarrow> addr \<Rightarrow> StreamRecord
   \<Rightarrow> nat \<Rightarrow> 'b pay_state \<Rightarrow> (pay_error, nat) outcome \<times> 'b pay_state" where
  "settle_account E ctx limit timestamp a r count s =
     andthen (settle_flows E ctx limit a (iter_from a False (outFlows s)) count 0 [] s)
       (\<lambda>(count, totalRate, toUpdate, ended) s.
         let s = fold (SetOutFlow a) toUpdate s;
             r = r\<lparr>NetflowRate := NetflowRate r + totalRate,
                   FrozenNetflowRate := FrozenNetflowRate r + (- totalRate)\<rparr>
         in if ended \<and> NetflowRate r \<noteq> 0 then (Panic, s)
            else
              (let s = (if ended then RemoveAutoSettleRecord timestamp a s else s)
               in andthen (SetStreamRecord r s) (\<lambda>_ s. (Ok count, s))))"

fun auto_settle_loop :: "'b payment_env \<Rightarrow> pay_ctx \<Rightarrow> nat \<Rightarrow> ((nat \<times> addr) \<times> unit) list \<Rightarrow> nat
   \<Rightarrow> 'b pay_state \<Rightarrow> 'b pay_result" where
  "auto_settle_loop E ctx limit [] count s = (Ok (), s)"
| "auto_settle_loop E ctx limit (((t, a), _) # rest) count s =
     (if count \<ge> limit then (Ok (), s)
      else if wrap_int64 (int t) > BlockTime ctx then (Ok (), s)
      else
        (case GetStreamRecord ctx a s of
           (r, False) \<Rightarrow> auto_settle_loop E ctx limit rest count s
         | (r, True) \<Rightarrow>
            if Status r = STREAM_ACCOUNT_STATUS_ACTIVE then
              (case UpdateStreamRecord E ctx r (NewDefaultStreamRecordChangeWithAddr a) s of
                 (Err _, s) \<Rightarrow> auto_settle_loop E ctx limit rest (count + 1) s
               | (Panic, s) \<Rightarrow> (Panic, s)
               | (Ok r, s) \<Rightarrow>
                   andthen (SetStreamRecord r s) (\<lambda>_ s.
                     if Status r = STREAM_ACCOUNT_STATUS_ACTIVE
                     then auto_settle_loop E ctx limit rest (count + 1) s
                     else if count + 1 \<ge> limit then (Ok (), s)
                     else if ExistsAutoResumeRecord (wrap_int64 (int t)) a s
                     then auto_settle_loop E ctx limit rest (count + 1) s
                     else andthen (settle_account E ctx limit (wrap_int64 (int t)) a r (count + 1) s)
                            (\<lambda>count s. auto_settle_loop E ctx limit rest count s)))
            else if ExistsAutoResumeRecord (wrap_int64 (int t)) a s
            then auto_settle_loop E ctx limit rest count s
            else andthen (settle_account E ctx limit (wrap_int64 (int t)) a r count s)
                   (\<lambda>count s. auto_settle_loop E ctx limit rest count s)))"

definition AutoSettle :: "'b payment_env \<Rightarrow> pay_ctx \<Rightarrow> 'b pay_state \<Rightarrow> 'b pay_result" where
  "AutoSettle E ctx s =
     auto_settle_loop E ctx (MaxAutoSettleFlowCount (GetParams s)) (autoSettleRecords s) 0 s"


section \<open>Resuming frozen accounts\<close>

fun try_resume_flows :: "'b payment_env \<Rightarrow> pay_ctx \<Rightarrow> addr
   \<Rightarrow> ((addr \<times> bool \<times> addr) \<times> int) list \<Rightarrow> OutFlow list \<Rightarrow> 'b pay_state
   \<Rightarrow> (pay_error, OutFlow list) outcome \<times> 'b pay_state" where
  "try_resume_flows E ctx a [] toUpdate s = (Ok toUpdate, s)"
| "try_resume_flows E ctx a (((x, st, toAddr), rate) # flows) toUpdate s =
     (if x \<noteq> a then (Ok toUpdate, s)
      else
        andthen (map_err ErrResumeReceiver (UpdateStreamRecordByAddr E ctx
                  (WithRateChange (NewDefaultStreamRecordChangeWithAddr toAddr) rate) s)) (\<lambda>_ s.
          try_resume_flows E ctx a flows
            (toUpdate @ [\<lparr>ToAddress = toAddr, Rate = rate, FlowStatus = OUT_FLOW_STATUS_ACTIVE\<rparr>])
            (DeleteOutFlow (x, st, toAddr) s)))"

definition TryResumeStreamRecord :: "'b payment_env \<Rightarrow> pay_ctx \<Rightarrow> StreamRecord \<Rightarrow> int
   \<Rightarrow> 'b pay_state \<Rightarrow> 'b pay_result" where
  "TryResumeStreamRecord E ctx r depositBalance s =
     (if Status r \<noteq> STREAM_ACCOUNT_STATUS_FROZEN then (Err (ErrNotFrozen (Account r)), s)
      else if ExistsAutoResumeRecord 0 (Account r) s then (Err (ErrResuming (Account r)), s)
      else
        (let p = GetParams s;
             now = BlockTime ctx;
             totalRate = NetflowRate r + FrozenNetflowRate r;
             r = r\<lparr>StaticBalance := StaticBalance r + depositBalance\<rparr>
         in if totalRate = 0 then
              SetStreamRecord (r\<lparr>Status := STREAM_ACCOUNT_STATUS_ACTIVE, CrudTimestamp := now,
                                 SettleTimestamp := 0\<rparr>) s
            else
              (let expectedBalanceToResume = - totalRate * int (ReserveTime (Versioned p))
               in if StaticBalance r < expectedBalanceToResume then SetStreamRecord r s
                  else if \<not> is_int64 (quo (StaticBalance r) \<bar>totalRate\<bar>) then (Panic, s)
                  else
                    (let prevSettleTime = SettleTimestamp r;
                         r = r\<lparr>SettleTimestamp := wrap_int64 (wrap_int64
                                  (now + quo (StaticBalance r) \<bar>totalRate\<bar>)
                                  - wrap_int64 (int (ForcedSettleTime p)))\<rparr>;
                         r = r\<lparr>BufferBalance := expectedBalanceToResume,
                               StaticBalance := StaticBalance r - expectedBalanceToResume,
                               CrudTimestamp := now\<rparr>
                     in if OutFlowCount r \<le> MaxAutoResumeFlowCount p then
                          (let r = r\<lparr>Status := STREAM_ACCOUNT_STATUS_ACTIVE,
                                     NetflowRate := totalRate, FrozenNetflowRate := 0\<rparr>
                           in andthen (try_resume_flows E ctx (Account r)
                                        (iter_from (Account r) True (outFlows s)) [] s)
                                (\<lambda>toUpdate s.
                                  andthen (SetStreamRecord r (fold (SetOutFlow (Account r)) toUpdate s))
                                    (\<lambda>_ s. (Ok (), UpdateAutoSettleRecord (Account r)
                                              prevSettleTime (SettleTimestamp r) s))))
                        else
                          andthen (SetStreamRecord r s)
                            (\<lambda>_ s. (Ok (), SetAutoResumeRecord now (Account r) s))))))"

fun resume_flows :: "'b payment_env \<Rightarrow> pay_ctx \<Rightarrow> nat \<Rightarrow> addr
   \<Rightarrow> ((addr \<times> bool \<times> addr) \<times> int) list \<Rightarrow> nat \<Rightarrow> int \<Rightarrow> OutFlow list \<Rightarrow> 'b pay_state
   \<Rightarrow> (pay_error, nat \<times> int \<times> OutFlow list \<times> bool) outcome \<times> 'b pay_state" where
  "resume_flows E ctx limit a [] count totalRate toUpdate s = (Ok (count, totalRate, toUpdate, True), s)"
| "resume_flows E ctx limit a (((x, st, toAddr), rate) # flows) count totalRate toUpdate s =
     (if count \<ge> limit then (Ok (count, totalRate, toUpdate, False), s)
      else if x \<noteq> a then (Ok (count, totalRate, toUpdate, True), s)
      else
        (case UpdateStreamRecordByAddr E ctx
                (WithRateChange (NewDefaultStreamRecordChangeWithAddr toAddr) rate) s of
           (Ok _, s) \<Rightarrow>
             resume_flows E ctx limit a flows (count + 1) (totalRate + rate)
               (toUpdate @ [\<lparr>ToAddress = toAddr, Rate = rate, FlowStatus = OUT_FLOW_STATUS_ACTIVE\<rparr>])
               (DeleteOutFlow (x, st, toAddr) s)
         | (_, s) \<Rightarrow> (Panic, s)))"

definition resume_account :: "'b payment_env \<Rightarrow> pay_ctx \<Rightarrow> nat \<Rightarrow> int \<Rightarrow> addr \<Rightarrow> StreamRecord
   \<Rightarrow> nat \<Rightarrow> 'b pay_state \<Rightarrow> (pay_error, nat) outcome \<times> 'b pay_state" where
  "resume_account E ctx limit timestamp a r count s =
     andthen (resume_flows E ctx limit a (iter_from a True (outFlows s)) count 0 [] s)
       (\<lambda>(count, totalRate, toUpdate, ended) s.
         let s = fold (SetOutFlow a) toUpdate s;
             r = r\<lparr>NetflowRate := NetflowRate r + (- totalRate),
                   FrozenNetflowRate := FrozenNetflowRate r + totalRate\<rparr>
         in if ended then
              (if FrozenNetflowRate r \<noteq> 0 then (Panic, s)
               else
                 (case UpdateStreamRecord E ctx (r\<lparr>Status := STREAM_ACCOUNT_STATUS_ACTIVE\<rparr>)
                         (NewDefaultStreamRecordChangeWithAddr a) s of
                    (Ok r, s) \<Rightarrow>
                      andthen (SetStreamRecord r (RemoveAutoResumeRecord timestamp a s))
                        (\<lambda>_ s. (Ok count, s))
                  | (_, s) \<Rightarrow> (Panic, s)))
            else andthen (SetStreamRecord r s) (\<lambda>_ s. (Ok count, s)))"

fun auto_resume_loop :: "'b payment_env \<Rightarrow> pay_ctx \<Rightarrow> nat \<Rightarrow> ((nat \<times> addr) \<times> unit) list \<Rightarrow> nat
   \<Rightarrow> 'b pay_state \<Rightarrow> 'b pay_result" where
  "auto_resume_loop E ctx limit [] count s = (Ok (), s)"
| "auto_resume_loop E ctx limit (((t, a), _) # rest) count s =
     (case GetStreamRecord ctx a s of
        (r, False) \<Rightarrow> auto_resume_loop E ctx limit rest count s
      | (r, True) \<Rightarrow>
          andthen (resume_account E ctx limit (wrap_int64 (int t)) a r count s)
            (\<lambda>count s. auto_resume_loop E ctx limit rest count s))"

definition AutoResume :: "'b payment_env \<Rightarrow> pay_ctx \<Rightarrow> 'b pay_state \<Rightarrow> 'b pay_result" where
  "AutoResume E ctx s =
     auto_resume_loop E ctx (MaxAutoResumeFlowCount (GetParams s)) (autoResumeRecords s) 0 s"

definition EndBlock :: "'b payment_env \<Rightarrow> pay_ctx \<Rightarrow> 'b pay_state \<Rightarrow> 'b pay_result" where
  "EndBlock E ctx s =
     (let c = ctx\<lparr>Forced := True\<rparr>
      in andthen (AutoResume E c s) (\<lambda>_ s. AutoSettle E c s))"

end
