(* ===== verification/StreamLedger.thy ===== *)
theory StreamLedger
  imports StreamRecords
begin

text \<open>
  The books of the payment module.  \<open>worth_at\<close> is what a stream account owns at a time:
  its static, buffer and lock balances and, unless it is frozen, the flow accrued since its last
  update.  \<open>books\<close> adds it up over the store and \<open>custody\<close> is what the bank
  holds for the module.  The lemmas follow an update through its stages and through a forced
  settlement: an update changes the difference of books and custody by the static balance change it
  was asked to apply and by nothing else.
\<close>

definition worth :: "StreamRecord \<Rightarrow> int" where
  "worth r = StaticBalance r + BufferBalance r + LockBalance r"

definition worth_at :: "int \<Rightarrow> StreamRecord \<Rightarrow> int" where
  "worth_at now r = worth r
     + (if Status r = STREAM_ACCOUNT_STATUS_FROZEN then 0
        else NetflowRate r * (now - CrudTimestamp r))"

definition books :: "int \<Rightarrow> 'b pay_state \<Rightarrow> int" where
  "books now s = kv_sum (\<lambda>_ r. worth_at now r) (streamRecords s)"

definition custody :: "'b payment_env \<Rightarrow> 'b pay_state \<Rightarrow> int" where
  "custody E s =
     GetBalance E (bank s) (ModuleAddress E ''payment'') (FeeDenom (GetParams s))"

definition record_ok :: "int \<Rightarrow> StreamRecord \<Rightarrow> bool" where
  "record_ok now r \<longleftrightarrow> 0 \<le> CrudTimestamp r \<and> CrudTimestamp r \<le> now \<and> now < 2 ^ 63"

definition gov_record_ok :: "'b payment_env \<Rightarrow> StreamRecord \<Rightarrow> bool" where
  "gov_record_ok E r \<longleftrightarrow> Status r \<noteq> STREAM_ACCOUNT_STATUS_FROZEN \<and> 0 \<le> NetflowRate r"

definition ledger_ok :: "'b payment_env \<Rightarrow> int \<Rightarrow> 'b pay_state \<Rightarrow> bool" where
  "ledger_ok E now s \<longleftrightarrow>
     kv_ok (streamRecords s) \<and> 0 \<le> now \<and> now < 2 ^ 63 \<and>
     list_all (\<lambda>(a, r). record_ok now r \<and> a \<noteq> ModuleAddress E ''payment'' \<and> CheckStreamRecord r \<and>
        (a = GovernanceAddress E \<longrightarrow> gov_record_ok E r)) (streamRecords s) \<and>
     GovernanceAddress E \<noteq> ModuleAddress E ''payment''"

definition frame :: "'b pay_state \<Rightarrow> 'b pay_state \<Rightarrow> bool" where
  "frame s s' \<longleftrightarrow> s' = s\<lparr>streamRecords := streamRecords s',
     autoSettleRecords := autoSettleRecords s', bank := bank s'\<rparr>"

lemma worth_upd [simp]:
  "worth (r\<lparr>SettleTimestamp := t\<rparr>) = worth r" "worth (r\<lparr>CrudTimestamp := t\<rparr>) = worth r"
  "worth (r\<lparr>Account := a\<rparr>) = worth r" "worth (r\<lparr>Status := st\<rparr>) = worth r"
  "worth (r\<lparr>NetflowRate := x\<rparr>) = worth r" "worth (r\<lparr>FrozenNetflowRate := x\<rparr>) = worth r"
  "worth (r\<lparr>OutFlowCount := n\<rparr>) = worth r"
  by (simp_all add: worth_def)

lemma worth_at_upd [simp]:
  "worth_at now (r\<lparr>SettleTimestamp := t\<rparr>) = worth_at now r"
  "worth_at now (r\<lparr>Account := a\<rparr>) = worth_at now r"
  "worth_at now (r\<lparr>FrozenNetflowRate := x\<rparr>) = worth_at now r"
  "worth_at now (r\<lparr>OutFlowCount := n\<rparr>) = worth_at now r"
  by (simp_all add: worth_at_def)

lemma worth_at_now: "CrudTimestamp r = now \<Longrightarrow> worth_at now r = worth r"
  by (simp add: worth_at_def)

lemma frame_refl [simp]: "frame s s"
  by (simp add: frame_def)

lemma frame_trans: "frame s t \<Longrightarrow> frame t u \<Longrightarrow> frame s u"
  unfolding frame_def by (cases s; cases t; cases u) simp

lemma frame_simps:
  assumes "frame s t"
  shows "payParams t = payParams s" "outFlows t = outFlows s"
    "autoResumeRecords t = autoResumeRecords s" "paymentAccounts t = paymentAccounts s"
    "delayedWithdrawals t = delayedWithdrawals s" "GetParams t = GetParams s"
    "paymentAccountCounts t = paymentAccountCounts s" "versionedParams t = versionedParams s"
  using assms unfolding frame_def by (cases s; cases t; simp add: GetParams_def)+

subsection \<open>What the stages of an update keep\<close>

lemma lock_fields [simp]:
  "worth (apply_lock_change r d) = worth r"
  "Account (apply_lock_change r d) = Account r" "Status (apply_lock_change r d) = Status r"
  "CrudTimestamp (apply_lock_change r d) = CrudTimestamp r"
  "NetflowRate (apply_lock_change r d) = NetflowRate r"
  "FrozenNetflowRate (apply_lock_change r d) = FrozenNetflowRate r"
  "BufferBalance (apply_lock_change r d) = BufferBalance r"
  "SettleTimestamp (apply_lock_change r d) = SettleTimestamp r"
  "OutFlowCount (apply_lock_change r d) = OutFlowCount r"
  by (simp_all add: apply_lock_change_def worth_def Let_def)

lemma rate_fields [simp]:
  "worth (apply_rate_change p r d) = worth r"
  "Account (apply_rate_change p r d) = Account r" "Status (apply_rate_change p r d) = Status r"
  "CrudTimestamp (apply_rate_change p r d) = CrudTimestamp r"
  "NetflowRate (apply_rate_change p r d) = NetflowRate r + d"
  "FrozenNetflowRate (apply_rate_change p r d) = FrozenNetflowRate r"
  "LockBalance (apply_rate_change p r d) = LockBalance r"
  "SettleTimestamp (apply_rate_change p r d) = SettleTimestamp r"
  "OutFlowCount (apply_rate_change p r d) = OutFlowCount r"
  by (simp_all add: apply_rate_change_def worth_def Let_def)

lemma rate_buffer [simp]:
  "BufferBalance (apply_rate_change p r d) =
     (if NetflowRate r + d < 0 then \<bar>NetflowRate r + d\<bar> * int (ReserveTime (Versioned p)) else 0)"
  by (simp add: apply_rate_change_def Let_def)

lemma static_fields [simp]:
  "worth (apply_static_change r d) = worth r + d"
  "Account (apply_static_change r d) = Account r" "Status (apply_static_change r d) = Status r"
  "CrudTimestamp (apply_static_change r d) = CrudTimestamp r"
  "NetflowRate (apply_static_change r d) = NetflowRate r"
  "FrozenNetflowRate (apply_static_change r d) = FrozenNetflowRate r"
  "LockBalance (apply_static_change r d) = LockBalance r"
  "BufferBalance (apply_static_change r d) = BufferBalance r"
  "SettleTimestamp (apply_static_change r d) = SettleTimestamp r"
  "OutFlowCount (apply_static_change r d) = OutFlowCount r"
  by (simp_all add: apply_static_change_def worth_def)

lemma accrue_fields [simp]:
  "Account (accrue now r) = Account r" "Status (accrue now r) = Status r"
  "NetflowRate (accrue now r) = NetflowRate r"
  "FrozenNetflowRate (accrue now r) = FrozenNetflowRate r"
  "LockBalance (accrue now r) = LockBalance r"
  "BufferBalance (accrue now r) = BufferBalance r"
  "SettleTimestamp (accrue now r) = SettleTimestamp r"
  "OutFlowCount (accrue now r) = OutFlowCount r"
  "CrudTimestamp (accrue now r) = max now (CrudTimestamp r)"
  by (simp_all add: accrue_def Let_def)

lemma worth_accrue:
  assumes "record_ok now r" "Status r \<noteq> STREAM_ACCOUNT_STATUS_FROZEN"
  shows "worth (accrue now r) = worth_at now r"
  using assms by (auto simp: accrue_def worth_def worth_at_def record_ok_def Let_def wrap_int64_id is_int64_def)

lemma auto_transfer_Ok:
  assumes "auto_transfer E p r s = (Ok r', s')"
  shows "s' = s\<lparr>bank := bank s'\<rparr>" "r' = r\<lparr>StaticBalance := StaticBalance r'\<rparr>"
    "StaticBalance r \<ge> 0 \<Longrightarrow> r' = r \<and> s' = s"
    "r' = r \<and> s' = s \<or> StaticBalance r' = 0"
  using assms
  by (auto simp: auto_transfer_def andthen_eq_Ok NewCoins_def split: if_splits sum.splits)

lemma auto_transfer_custody:
  assumes "auto_transfer E p r s = (Ok r', s')" "bank_laws E" "p = GetParams s"
    "Account r \<noteq> ModuleAddress E ''payment''"
  shows "worth r' - custody E s' = worth r - custody E s"
  using assms
  by (auto simp: auto_transfer_def andthen_eq_Ok NewCoins_def custody_def worth_def bank_laws_in
      split: if_splits sum.splits)

lemma auto_transfer_fields:
  assumes "auto_transfer E p r s = (Ok r', s')"
  shows "Account r' = Account r" "Status r' = Status r" "NetflowRate r' = NetflowRate r"
    "CrudTimestamp r' = CrudTimestamp r" "FrozenNetflowRate r' = FrozenNetflowRate r"
    "LockBalance r' = LockBalance r" "BufferBalance r' = BufferBalance r"
    "SettleTimestamp r' = SettleTimestamp r" "OutFlowCount r' = OutFlowCount r"
    "frame s s'" "streamRecords s' = streamRecords s" "autoSettleRecords s' = autoSettleRecords s"
    "GetParams s' = GetParams s"
  using assms
  by (auto simp: auto_transfer_def andthen_eq_Ok NewCoins_def frame_def split: if_splits sum.splits)

lemma set_settle_time_Ok:
  assumes "set_settle_time t r s = (Ok r', s')"
  shows "r' = r\<lparr>SettleTimestamp := t\<rparr>" "frame s s'" "streamRecords s' = streamRecords s"
    "bank s' = bank s" "GetParams s' = GetParams s"
  using assms
  by (auto simp: set_settle_time_def UpdateAutoSettleRecord_def RemoveAutoSettleRecord_def
      SetAutoSettleRecord_def frame_def Let_def)

text \<open>The record just before the bank top-up.\<close>

definition staged :: "pay_ctx \<Rightarrow> PaymentParams \<Rightarrow> StreamRecord \<Rightarrow> StreamRecordChange \<Rightarrow> StreamRecord" where
  "staged ctx p r change = apply_static_change (apply_rate_change p
     (apply_lock_change (accrue (BlockTime ctx) r) (LockBalanceChange change))
     (RateChange change)) (StaticBalanceChange change)"

lemma update_body_active:
  assumes "Status r \<noteq> STREAM_ACCOUNT_STATUS_FROZEN" "p = GetParams s"
  shows "update_body settle E ctx r change s =
     andthen (auto_transfer E p (staged ctx p r change) s) (\<lambda>r s.
       if \<not> Forced ctx \<and> (StaticBalanceChange change < 0 \<or> RateChange change < 0) \<and> StaticBalance r < 0
       then (Err (ErrBalanceNotEnough (Account r) \<bar>StaticBalance r\<bar>), s)
       else settle_step settle ctx p r s)"
  unfolding assms(2) using assms(1) by (simp add: update_body_def staged_def Let_def)

lemma staged_fields [simp]:
  "Account (staged ctx p r ch) = Account r" "Status (staged ctx p r ch) = Status r"
  "CrudTimestamp (staged ctx p r ch) = max (BlockTime ctx) (CrudTimestamp r)"
  "NetflowRate (staged ctx p r ch) = NetflowRate r + RateChange ch"
  "FrozenNetflowRate (staged ctx p r ch) = FrozenNetflowRate r"
  "SettleTimestamp (staged ctx p r ch) = SettleTimestamp r"
  "OutFlowCount (staged ctx p r ch) = OutFlowCount r"
  "BufferBalance (staged ctx p r ch) =
     (if NetflowRate r + RateChange ch < 0
      then \<bar>NetflowRate r + RateChange ch\<bar> * int (ReserveTime (Versioned p)) else 0)"
  by (simp_all add: staged_def)

lemma worth_staged:
  assumes "record_ok (BlockTime ctx) r" "Status r \<noteq> STREAM_ACCOUNT_STATUS_FROZEN"
  shows "worth (staged ctx p r ch) = worth_at (BlockTime ctx) r + StaticBalanceChange ch"
  using assms by (simp add: staged_def worth_accrue)

lemma settle_step_no_debt:
  "0 \<le> NetflowRate r \<Longrightarrow> settle_step settle ctx p r s = set_settle_time 0 r s"
  by (simp add: settle_step_def)

text \<open>
  \<open>update_spec\<close>: the effect of an update of record \<open>r\<close> (outside the store) by an amount
  \<open>d\<close> of new money.
\<close>

definition update_spec :: "'b payment_env \<Rightarrow> int \<Rightarrow> int \<Rightarrow> StreamRecord \<Rightarrow> 'b pay_state
    \<Rightarrow> StreamRecord \<Rightarrow> 'b pay_state \<Rightarrow> bool" where
  "update_spec E now d r s r' s' \<longleftrightarrow>
     worth_at now r' + books now s' - custody E s' = worth_at now r + d + books now s - custody E s \<and>
     Account r' = Account r \<and> record_ok now r' \<and> frame s s' \<and> ledger_ok E now s' \<and>
     (\<forall>a. a \<noteq> GovernanceAddress E \<longrightarrow> map_of (streamRecords s') a = map_of (streamRecords s) a)"

lemma update_body_no_debt:
  assumes run: "update_body settle E ctx r ch s = (Ok r', s')"
    and act: "Status r \<noteq> STREAM_ACCOUNT_STATUS_FROZEN" and debt: "0 \<le> NetflowRate r + RateChange ch"
    and laws: "bank_laws E" and a: "Account r \<noteq> ModuleAddress E ''payment''"
    and now: "record_ok (BlockTime ctx) r"
  shows "worth_at (BlockTime ctx) r' - custody E s'
      = worth_at (BlockTime ctx) r + StaticBalanceChange ch - custody E s"
    and "frame s s'" "streamRecords s' = streamRecords s" "Account r' = Account r"
    "Status r' = Status r" "NetflowRate r' = NetflowRate r + RateChange ch"
    "CrudTimestamp r' = BlockTime ctx"
proof -
  from run obtain r1 s1 where
    tr: "auto_transfer E (GetParams s) (staged ctx (GetParams s) r ch) s = (Ok r1, s1)"
    and st: "settle_step settle ctx (GetParams s) r1 s1 = (Ok r', s')"
    unfolding update_body_active [OF act refl] by (auto simp: andthen_eq_Ok split: if_splits)
  note f1 = auto_transfer_fields [OF tr]
  have "0 \<le> NetflowRate r1" using debt f1 by simp
  then have ss: "set_settle_time 0 r1 s1 = (Ok r', s')"
    using st by (simp add: settle_step_no_debt)
  note f2 = set_settle_time_Ok [OF ss]
  have c: "custody E s' = custody E s1" by (simp add: custody_def f2)
  have crud: "CrudTimestamp r1 = BlockTime ctx" using now f1 by (simp add: record_ok_def)
  show "worth_at (BlockTime ctx) r' - custody E s'
      = worth_at (BlockTime ctx) r + StaticBalanceChange ch - custody E s"
    using auto_transfer_custody [OF tr laws refl] a worth_staged [OF now act, of "GetParams s" ch]
    by (simp add: worth_at_now crud c f2(1))
  show "frame s s'" using f1 f2 frame_trans by blast
  show "streamRecords s' = streamRecords s" "Account r' = Account r"
    "Status r' = Status r" "NetflowRate r' = NetflowRate r + RateChange ch"
    "CrudTimestamp r' = BlockTime ctx"
    using f1 f2(3) crud by (simp_all add: f2(1))
qed

lemma GetStreamRecord_ok:
  assumes "ledger_ok E (BlockTime ctx) s"
  shows "record_ok (BlockTime ctx) (fst (GetStreamRecord ctx a s))"
    "Account (fst (GetStreamRecord ctx a s)) = a"
    "a = GovernanceAddress E \<Longrightarrow> gov_record_ok E (fst (GetStreamRecord ctx a s))"
    "worth_at (BlockTime ctx) (fst (GetStreamRecord ctx a s))
      = (case map_of (streamRecords s) a of None \<Rightarrow> 0 | Some r \<Rightarrow> worth_at (BlockTime ctx) r)"
proof -
  have "map_of (streamRecords s) a = Some r \<Longrightarrow>
      record_ok (BlockTime ctx) r \<and> (a = GovernanceAddress E \<longrightarrow> gov_record_ok E r)" for r
    using assms by (auto simp: ledger_ok_def list_all_iff dest!: map_of_SomeD)
  then show "record_ok (BlockTime ctx) (fst (GetStreamRecord ctx a s))"
    "Account (fst (GetStreamRecord ctx a s)) = a"
    "a = GovernanceAddress E \<Longrightarrow> gov_record_ok E (fst (GetStreamRecord ctx a s))"
    "worth_at (BlockTime ctx) (fst (GetStreamRecord ctx a s))
      = (case map_of (streamRecords s) a of None \<Rightarrow> 0 | Some r \<Rightarrow> worth_at (BlockTime ctx) r)"
    using assms
    by (auto simp: GetStreamRecord_def NewStreamRecord_def record_ok_def gov_record_ok_def
        ledger_ok_def worth_at_def worth_def split: option.splits)
qed

lemma SetStreamRecord_Ok:
  "SetStreamRecord r s = (Ok u, s') \<longleftrightarrow>
     CheckStreamRecord r \<and> s' = s\<lparr>streamRecords := kv_set (Account r) r (streamRecords s)\<rparr>"
  by (auto simp: SetStreamRecord_def)

lemma ledger_ok_set:
  assumes "ledger_ok E now s" "record_ok now r" "Account r \<noteq> ModuleAddress E ''payment''"
    "Account r = GovernanceAddress E \<Longrightarrow> gov_record_ok E r" "CheckStreamRecord r"
  shows "ledger_ok E now (s\<lparr>streamRecords := kv_set (Account r) r (streamRecords s)\<rparr>)"
  using assms set_kv_set_subset [of "Account r" r "streamRecords s"]
  by (auto simp: ledger_ok_def list_all_iff kv.ok_put)

lemma books_set:
  assumes "ledger_ok E now s"
  shows "books now (s\<lparr>streamRecords := kv_set (Account r) r (streamRecords s)\<rparr>)
    = books now s - (case map_of (streamRecords s) (Account r) of None \<Rightarrow> 0 | Some w \<Rightarrow> worth_at now w)
      + worth_at now r"
  using assms kv.sum_put [of "streamRecords s" "\<lambda>_. worth_at now" "Account r" r]
  by (simp add: books_def ledger_ok_def)

lemma by_addr_ledger:
  assumes run: "by_addr update ctx ch s = (Ok r', s')"
    and led: "ledger_ok E (BlockTime ctx) s" and a: "Addr ch \<noteq> ModuleAddress E ''payment''"
    and upd: "\<And>r r' t. update r ch s = (Ok r', t) \<Longrightarrow> r = fst (GetStreamRecord ctx (Addr ch) s) \<Longrightarrow>
        update_spec E (BlockTime ctx) d r s r' t \<and>
        (Account r = GovernanceAddress E \<longrightarrow> streamRecords t = streamRecords s \<and> gov_record_ok E r')"
  shows "books (BlockTime ctx) s' - custody E s' = books (BlockTime ctx) s - custody E s + d"
    "ledger_ok E (BlockTime ctx) s'" "frame s s'"
    "\<forall>b. b \<noteq> Addr ch \<longrightarrow> b \<noteq> GovernanceAddress E \<longrightarrow> map_of (streamRecords s') b = map_of (streamRecords s) b"
    "map_of (streamRecords s') (Addr ch) = Some r'"
proof -
  let ?r = "fst (GetStreamRecord ctx (Addr ch) s)" and ?now = "BlockTime ctx"
  from run obtain t where u: "update ?r ch s = (Ok r', t)"
    and chk: "CheckStreamRecord r'"
    and s': "s' = t\<lparr>streamRecords := kv_set (Account r') r' (streamRecords t)\<rparr>"
    by (auto simp: by_addr_def andthen_eq_Ok SetStreamRecord_Ok)
  note g = GetStreamRecord_ok [OF led, of "Addr ch"]
  from upd [OF u refl] g(2) have
    sp: "update_spec E ?now d ?r s r' t" and
    gov: "Addr ch = GovernanceAddress E \<Longrightarrow> streamRecords t = streamRecords s \<and> gov_record_ok E r'"
    by auto
  have acc: "Account r' = Addr ch" and rok: "record_ok ?now r'" and fr: "frame s t"
    and ledt: "ledger_ok E ?now t"
    using sp g(2) by (auto simp: update_spec_def)
  have same: "map_of (streamRecords t) (Addr ch) = map_of (streamRecords s) (Addr ch)"
    using sp gov by (cases "Addr ch = GovernanceAddress E") (auto simp: update_spec_def)
  have kvt: "kv_ok (streamRecords t)" using ledt by (simp add: ledger_ok_def)
  show "books ?now s' - custody E s' = books ?now s - custody E s + d"
    using sp books_set [OF ledt, of r'] g(4) same
    by (simp add: s' acc update_spec_def custody_def)
  show "ledger_ok E ?now s'" unfolding s'
    by (rule ledger_ok_set) (use ledt rok acc a gov chk in auto)
  show "frame s s'" using fr by (cases s; cases t) (simp add: s' frame_def)
  show "\<forall>b. b \<noteq> Addr ch \<longrightarrow> b \<noteq> GovernanceAddress E \<longrightarrow>
      map_of (streamRecords s') b = map_of (streamRecords s) b"
    using sp kvt by (auto simp: s' acc update_spec_def kv.get_put)
  show "map_of (streamRecords s') (Addr ch) = Some r'"
    using kvt by (simp add: s' acc kv.get_put)
qed

lemma force_settle_spec:
  assumes run: "force_settle (update_rec n E ctx) E ctx r s = (Ok r', s')"
    and laws: "bank_laws E" and led: "ledger_ok E (BlockTime ctx) s"
    and crud: "CrudTimestamp r = BlockTime ctx"
  shows "update_spec E (BlockTime ctx) 0 r s r' s'" "Status r' = STREAM_ACCOUNT_STATUS_FROZEN"
    "r' = r\<lparr>StaticBalance := 0, BufferBalance := 0, Status := STREAM_ACCOUNT_STATUS_FROZEN\<rparr>"
proof -
  let ?d = "StaticBalance r + BufferBalance r" and ?now = "BlockTime ctx"
  let ?ch = "WithStaticBalanceChange (NewDefaultStreamRecordChangeWithAddr (GovernanceAddress E)) ?d"
  have ch: "Addr ?ch = GovernanceAddress E" "RateChange ?ch = 0" "StaticBalanceChange ?ch = ?d"
    by (simp_all add: change_defs)
  from run obtain g where ba: "by_addr (update_rec n E ctx) ctx ?ch s = (Ok g, s')"
    and r': "r' = r\<lparr>StaticBalance := 0, BufferBalance := 0, Status := STREAM_ACCOUNT_STATUS_FROZEN\<rparr>"
    by (auto simp: force_settle_def Let_def andthen_eq_Ok outcome_simps)
  show "r' = r\<lparr>StaticBalance := 0, BufferBalance := 0, Status := STREAM_ACCOUNT_STATUS_FROZEN\<rparr>"
    and "Status r' = STREAM_ACCOUNT_STATUS_FROZEN" by (simp_all add: r')
  have ga: "Addr ?ch \<noteq> ModuleAddress E ''payment''" using led ch by (simp add: ledger_ok_def)
  note bl = by_addr_ledger [OF ba led ga, where d = "?d"]
  have upd: "update_spec E ?now ?d q s q' t \<and>
        (Account q = GovernanceAddress E \<longrightarrow> streamRecords t = streamRecords s \<and> gov_record_ok E q')"
    if u: "update_rec n E ctx q ?ch s = (Ok q', t)" and q: "q = fst (GetStreamRecord ctx (Addr ?ch) s)"
    for q q' t
  proof -
    from u obtain m where u: "update_body (force_settle (update_rec m E ctx) E ctx) E ctx q ?ch s = (Ok q', t)"
      by (cases n) auto
    note g = GetStreamRecord_ok [OF led, of "Addr ?ch", folded q]
    note nd = update_body_no_debt [OF u]
    show ?thesis
      using nd g laws ga led by (simp add: ch gov_record_ok_def update_spec_def record_ok_def ledger_ok_def
        frame_simps books_def)
  qed
  note bl = bl [OF upd]
  have "worth_at ?now r' + ?d = worth_at ?now r"
    using crud by (simp add: worth_at_now r' worth_def)
  then show "update_spec E ?now 0 r s r' s'"
    using bl led crud ch by (auto simp: update_spec_def r' record_ok_def ledger_ok_def)
qed

lemma ledger_ok_now: "ledger_ok E now s \<Longrightarrow> CrudTimestamp r = now \<Longrightarrow> record_ok now r"
  by (simp add: ledger_ok_def record_ok_def)

lemma settle_step_spec:
  assumes run: "settle_step (force_settle (update_rec n E ctx) E ctx) ctx p r s = (Ok r', s')"
    and laws: "bank_laws E" and led: "ledger_ok E (BlockTime ctx) s"
    and crud: "CrudTimestamp r = BlockTime ctx" and act: "Status r \<noteq> STREAM_ACCOUNT_STATUS_FROZEN"
  shows "update_spec E (BlockTime ctx) 0 r s r' s'"
proof -
  let ?now = "BlockTime ctx"
  have fin: "update_spec E ?now 0 r s r' s'"
    if "update_spec E ?now 0 r s q t" "set_settle_time x q t = (Ok r', s')" for q t x
  proof -
    note f = set_settle_time_Ok [OF that(2)]
    have "custody E s' = custody E t" "books ?now s' = books ?now t"
      "ledger_ok E ?now s' = ledger_ok E ?now t"
      using f by (simp_all add: custody_def books_def ledger_ok_def)
    then show ?thesis
      using that(1) f frame_trans [of s t s'] by (simp add: update_spec_def record_ok_def)
  qed
  have self: "update_spec E ?now 0 r s r s"
    using led crud by (simp add: update_spec_def ledger_ok_now)
  show ?thesis
    using run fin self force_settle_spec(1) [OF _ laws led crud]
    by (auto simp: settle_step_def Let_def andthen_eq_Ok outcome_simps split: if_splits; blast)
qed

lemma update_rec_spec:
  assumes run: "update_rec n E ctx r ch s = (Ok r', s')"
    and laws: "bank_laws E" and led: "ledger_ok E (BlockTime ctx) s"
    and rok: "record_ok (BlockTime ctx) r" and a: "Account r \<noteq> ModuleAddress E ''payment''"
    and gov: "Account r = GovernanceAddress E \<Longrightarrow>
      gov_record_ok E r \<and> 0 \<le> NetflowRate r + RateChange ch"
  shows "update_spec E (BlockTime ctx)
      (if Status r = STREAM_ACCOUNT_STATUS_FROZEN then 0 else StaticBalanceChange ch) r s r' s'"
    "Account r = GovernanceAddress E \<Longrightarrow> streamRecords s' = streamRecords s \<and> gov_record_ok E r'"
proof -
  let ?now = "BlockTime ctx"
  from run obtain m where
    u: "update_body (force_settle (update_rec m E ctx) E ctx) E ctx r ch s = (Ok r', s')"
    by (cases n) auto
  show "update_spec E ?now
      (if Status r = STREAM_ACCOUNT_STATUS_FROZEN then 0 else StaticBalanceChange ch) r s r' s'"
  proof (cases "Status r = STREAM_ACCOUNT_STATUS_FROZEN")
    case True
    then have "UpdateFrozenStreamRecord ctx r ch = Inr r'" "s' = s"
      using u by (auto simp: update_body_def split: sum.splits)
    then show ?thesis using True led rok
      by (auto simp: UpdateFrozenStreamRecord_def update_spec_def worth_at_def record_ok_def Let_def
          split: if_splits)
  next
    case False
    from u obtain r1 s1 where
      tr: "auto_transfer E (GetParams s) (staged ctx (GetParams s) r ch) s = (Ok r1, s1)"
      and st: "settle_step (force_settle (update_rec m E ctx) E ctx) ctx (GetParams s) r1 s1 = (Ok r', s')"
      unfolding update_body_active [OF False refl] by (auto simp: andthen_eq_Ok split: if_splits)
    note f1 = auto_transfer_fields [OF tr]
    have crud: "CrudTimestamp r1 = ?now" using rok f1 by (simp add: record_ok_def)
    have led1: "ledger_ok E ?now s1" using led f1 by (simp add: ledger_ok_def)
    have "update_spec E ?now 0 r1 s1 r' s'"
      using settle_step_spec [OF st laws led1 crud] False f1 by simp
    moreover have "worth_at ?now r1 - custody E s1
        = worth_at ?now r + StaticBalanceChange ch - custody E s"
      using auto_transfer_custody [OF tr laws refl] a worth_staged [OF rok False, of "GetParams s" ch]
      by (simp add: worth_at_now crud)
    moreover have "books ?now s1 = books ?now s" using f1 by (simp add: books_def)
    ultimately show ?thesis
      using False f1 frame_trans [of s s1 s'] by (auto simp: update_spec_def)
  qed
  show "streamRecords s' = streamRecords s \<and> gov_record_ok E r'" if "Account r = GovernanceAddress E"
    using update_body_no_debt [OF u _ _ laws a rok] gov [OF that] by (simp add: gov_record_ok_def)
qed

lemma UpdateStreamRecordByAddr_ledger:
  assumes run: "UpdateStreamRecordByAddr E ctx ch s = (Ok r', s')"
    and laws: "bank_laws E" and led: "ledger_ok E (BlockTime ctx) s"
    and a: "Addr ch \<noteq> ModuleAddress E ''payment''"
    and gov: "Addr ch = GovernanceAddress E \<Longrightarrow>
      0 \<le> NetflowRate (fst (GetStreamRecord ctx (Addr ch) s)) + RateChange ch"
  shows "books (BlockTime ctx) s' - custody E s' = books (BlockTime ctx) s - custody E s
      + (if Status (fst (GetStreamRecord ctx (Addr ch) s)) = STREAM_ACCOUNT_STATUS_FROZEN then 0
         else StaticBalanceChange ch)"
    "ledger_ok E (BlockTime ctx) s'" "frame s s'"
    "\<forall>b. b \<noteq> Addr ch \<longrightarrow> b \<noteq> GovernanceAddress E \<longrightarrow> map_of (streamRecords s') b = map_of (streamRecords s) b"
    "map_of (streamRecords s') (Addr ch) = Some r'"
proof -
  note g = GetStreamRecord_ok [OF led, of "Addr ch"]
  let ?d = "if Status (fst (GetStreamRecord ctx (Addr ch) s)) = STREAM_ACCOUNT_STATUS_FROZEN then 0
         else StaticBalanceChange ch"
  have upd: "update_spec E (BlockTime ctx) ?d r s r' t \<and>
      (Account r = GovernanceAddress E \<longrightarrow> streamRecords t = streamRecords s \<and> gov_record_ok E r')"
    if "update_rec (CallDepth ctx) E ctx r ch s = (Ok r', t)"
      "r = fst (GetStreamRecord ctx (Addr ch) s)" for r r' t
    using update_rec_spec [OF that(1) laws led] that(2) g a gov by simp
  have run': "by_addr (update_rec (CallDepth ctx) E ctx) ctx ch s = (Ok r', s')"
    using run by (simp add: UpdateStreamRecordByAddr_def UpdateStreamRecord_def [abs_def])
  note bl = by_addr_ledger [OF run' led a upd]
  show "books (BlockTime ctx) s' - custody E s' = books (BlockTime ctx) s - custody E s + ?d"
    "ledger_ok E (BlockTime ctx) s'" "frame s s'"
    "\<forall>b. b \<noteq> Addr ch \<longrightarrow> b \<noteq> GovernanceAddress E \<longrightarrow> map_of (streamRecords s') b = map_of (streamRecords s) b"
    "map_of (streamRecords s') (Addr ch) = Some r'"
    using bl by simp_all
qed

section \<open>Rates\<close>

text \<open>
  The contract between the update of a record and its callers: whatever its outcome, an update
  touches stored records only through a forced settlement, which changes no rate; on
  success it adds the requested rate changes to the record it returns.
\<close>

definition rates :: "StreamRecord \<Rightarrow> int \<times> int \<times> nat" where
  "rates r = (NetflowRate r, FrozenNetflowRate r, OutFlowCount r)"

definition rates_at :: "'b pay_state \<Rightarrow> addr \<Rightarrow> int \<times> int \<times> nat" where
  "rates_at s a = (case map_of (streamRecords s) a of None \<Rightarrow> (0, 0, 0) | Some r \<Rightarrow> rates r)"

definition keeps_rates :: "'b pay_state \<Rightarrow> 'b pay_state \<Rightarrow> bool" where
  "keeps_rates s s' \<longleftrightarrow> frame s s' \<and>
     (kv_ok (streamRecords s) \<longrightarrow> kv_ok (streamRecords s') \<and> (\<forall>a. rates_at s' a = rates_at s a))"

definition new_rates :: "StreamRecord \<Rightarrow> StreamRecordChange \<Rightarrow> int \<times> int \<times> nat" where
  "new_rates r ch = (NetflowRate r + RateChange ch,
     FrozenNetflowRate r + (if Status r = STREAM_ACCOUNT_STATUS_FROZEN then FrozenRateChange ch else 0),
     OutFlowCount r)"

lemma keeps_rates_refl [simp]: "keeps_rates s s"
  by (simp add: keeps_rates_def)

lemma keeps_rates_trans: "keeps_rates s t \<Longrightarrow> keeps_rates t u \<Longrightarrow> keeps_rates s u"
  by (auto simp: keeps_rates_def intro: frame_trans)

lemma keeps_rates_bank: "streamRecords s' = streamRecords s \<Longrightarrow> frame s s' \<Longrightarrow> keeps_rates s s'"
  by (simp add: keeps_rates_def rates_at_def)

lemma rates_GetStreamRecord: "rates (fst (GetStreamRecord ctx a s)) = rates_at s a"
  by (simp add: GetStreamRecord_def rates_at_def rates_def NewStreamRecord_def split: option.splits)

lemma frame_set: "frame s t \<Longrightarrow> frame s (t\<lparr>streamRecords := x\<rparr>)"
  by (cases s; cases t) (simp add: frame_def)

locale stream_update =
  fixes upd :: "StreamRecord \<Rightarrow> StreamRecordChange \<Rightarrow> 'b pay_state
    \<Rightarrow> (pay_error, StreamRecord) outcome \<times> 'b pay_state"
  assumes upd_keeps: "upd r ch s = (out, s') \<Longrightarrow> keeps_rates s s'"
    and upd_rates: "upd r ch s = (Ok r', s') \<Longrightarrow> Account r' = Account r \<and> rates r' = new_rates r ch"
begin

lemma by_addr_split:
  assumes "by_addr upd ctx ch s = (out, s')"
  obtains o1 t where "upd (fst (GetStreamRecord ctx (Addr ch) s)) ch s = (o1, t)"
    "s' = t \<or> (\<exists>r'. out = Ok r')"
  using assms
  by (cases "upd (fst (GetStreamRecord ctx (Addr ch) s)) ch s"; cases "fst (upd (fst (GetStreamRecord ctx (Addr ch) s)) ch s)")
    (auto simp: by_addr_def SetStreamRecord_def split: if_splits)

lemma by_addr_rates:
  assumes "by_addr upd ctx ch s = (Ok r', s')" "kv_ok (streamRecords s)"
  shows "kv_ok (streamRecords s')"
    "rates_at s' a = (if a = Addr ch then new_rates (fst (GetStreamRecord ctx (Addr ch) s)) ch else rates_at s a)"
proof -
  let ?r = "fst (GetStreamRecord ctx (Addr ch) s)"
  from assms(1) obtain t where u: "upd ?r ch s = (Ok r', t)"
    and s': "s' = t\<lparr>streamRecords := kv_set (Account r') r' (streamRecords t)\<rparr>"
    by (auto simp: by_addr_def andthen_eq_Ok SetStreamRecord_Ok)
  have "Account ?r = Addr ch"
    by (simp add: GetStreamRecord_def NewStreamRecord_def split: option.splits)
  with u have acc: "Account r' = Addr ch" and ra: "rates r' = new_rates ?r ch"
    using upd_rates by auto
  from upd_keeps [OF u] assms(2) have k: "kv_ok (streamRecords t)" "\<forall>a. rates_at t a = rates_at s a"
    by (auto simp: keeps_rates_def)
  show "kv_ok (streamRecords s')" using k by (simp add: s' kv_ok_set)
  show "rates_at s' a = (if a = Addr ch then new_rates ?r ch else rates_at s a)"
    using k ra by (simp add: s' acc rates_at_def map_of_kv_set)
qed

lemma by_addr_frame:
  assumes run: "by_addr upd ctx ch s = (out, s')"
  shows "frame s s'"
proof -
  from run obtain o1 t where u: "upd (fst (GetStreamRecord ctx (Addr ch) s)) ch s = (o1, t)"
    and "s' = t \<or> (\<exists>r'. out = Ok r')" by (rule by_addr_split)
  then show ?thesis
    using upd_keeps [OF u] run
    by (auto simp: by_addr_def andthen_eq_Ok SetStreamRecord_Ok keeps_rates_def intro: frame_set)
qed

lemma by_addr_keeps:
  assumes run: "by_addr upd ctx ch s = (out, s')" and "RateChange ch = 0" "FrozenRateChange ch = 0"
  shows "keeps_rates s s'"
proof -
  from run obtain o1 t where u: "upd (fst (GetStreamRecord ctx (Addr ch) s)) ch s = (o1, t)"
    and "s' = t \<or> (\<exists>r'. out = Ok r')" by (rule by_addr_split)
  then consider "s' = t" | r' where "out = Ok r'" by blast
  then show ?thesis
  proof cases
    case 1
    with upd_keeps [OF u] show ?thesis by simp
  next
    case 2
    note ok = run [unfolded 2]
    have "new_rates (fst (GetStreamRecord ctx (Addr ch) s)) ch = rates_at s (Addr ch)"
      using assms rates_GetStreamRecord [of ctx "Addr ch" s] by (simp add: new_rates_def rates_def)
    then show ?thesis
      using by_addr_rates [OF ok] by_addr_frame [OF run] by (simp add: keeps_rates_def)
  qed
qed

lemma force_settle_keeps:
  assumes "force_settle upd E ctx r s = (out, s')"
  shows "keeps_rates s s'"
proof -
  let ?ch = "WithStaticBalanceChange (NewDefaultStreamRecordChangeWithAddr (GovernanceAddress E))
    (StaticBalance r + BufferBalance r)"
  obtain o1 t where u: "by_addr upd ctx ?ch s = (o1, t)" by (cases "by_addr upd ctx ?ch s")
  then have "keeps_rates s t" by (rule by_addr_keeps) (simp_all add: change_defs)
  moreover have "s' = t" using assms u by (cases o1) (auto simp: force_settle_def Let_def)
  ultimately show ?thesis by simp
qed

lemma force_settle_rates:
  "force_settle upd E ctx r s = (Ok r', s') \<Longrightarrow> Account r' = Account r \<and> rates r' = rates r"
  by (auto simp: force_settle_def Let_def andthen_eq_Ok outcome_simps rates_def)

end

lemma auto_transfer_keeps: "auto_transfer E p r s = (out, s') \<Longrightarrow> keeps_rates s s'"
  by (auto simp: auto_transfer_def NewCoins_def keeps_rates_def frame_def rates_at_def
      split: if_splits sum.splits)

lemma set_settle_time_keeps: "set_settle_time t r s = (out, s') \<Longrightarrow> keeps_rates s s'"
  by (cases out)
    (auto simp: set_settle_time_def intro!: keeps_rates_bank set_settle_time_Ok [of t r s "r\<lparr>SettleTimestamp := t\<rparr>"])

lemma settle_step_keeps:
  assumes settle: "\<And>q t out t'. settle q t = (out, t') \<Longrightarrow> keeps_rates t t'"
    and run: "settle_step settle ctx p r s = (out, s')"
  shows "keeps_rates s s'"
proof -
  obtain o1 t where st: "settle r s = (o1, t)" by (cases "settle r s")
  have "s' = s \<or> s' = t \<or> (\<exists>x. set_settle_time x r s = (out, s'))
      \<or> (\<exists>x q. o1 = Ok q \<and> set_settle_time x q t = (out, s'))"
    using run st by (cases o1) (simp_all add: settle_step_def Let_def split: if_splits; blast)+
  with settle [OF st] show ?thesis
    by (metis keeps_rates_refl keeps_rates_trans set_settle_time_keeps)
qed

lemma update_body_keeps:
  assumes settle: "\<And>q t out t'. settle q t = (out, t') \<Longrightarrow> keeps_rates t t'"
    and run: "update_body settle E ctx r ch s = (out, s')"
  shows "keeps_rates s s'"
proof (cases "Status r = STREAM_ACCOUNT_STATUS_FROZEN")
  case True
  with run show ?thesis by (auto simp: update_body_def split: sum.splits)
next
  case False
  obtain o1 t where tr: "auto_transfer E (GetParams s) (staged ctx (GetParams s) r ch) s = (o1, t)"
    by (cases "auto_transfer E (GetParams s) (staged ctx (GetParams s) r ch) s")
  then have st: "keeps_rates s t" by (rule auto_transfer_keeps)
  show ?thesis
  proof (cases o1)
    case (Ok r1)
    have "t = s' \<or> settle_step settle ctx (GetParams s) r1 t = (out, s')"
      using run tr unfolding update_body_active [OF False refl] by (simp add: Ok split: if_splits)
    moreover have "keeps_rates t s'" if "settle_step settle ctx (GetParams s) r1 t = (out, s')"
      by (rule settle_step_keeps [OF _ that]) (rule settle)
    ultimately have "keeps_rates t s'" by auto
    with st show ?thesis by (rule keeps_rates_trans)
  qed (use run tr st in \<open>simp_all add: update_body_active [OF False refl]\<close>)
qed

lemma settle_step_split:
  assumes "settle_step settle ctx p r s = (Ok r', s')"
  obtains q t x where "q = r \<and> t = s \<or> settle r s = (Ok q, t)" "set_settle_time x q t = (Ok r', s')"
  using assms by (auto simp: settle_step_def Let_def andthen_eq_Ok map_err_eq_Ok split: if_splits)

lemma update_body_rates:
  assumes settle: "\<And>q t q' t'. settle q t = (Ok q', t') \<Longrightarrow> Account q' = Account q \<and> rates q' = rates q"
    and run: "update_body settle E ctx r ch s = (Ok r', s')"
  shows "Account r' = Account r \<and> rates r' = new_rates r ch"
proof (cases "Status r = STREAM_ACCOUNT_STATUS_FROZEN")
  case True
  with run show ?thesis
    by (auto simp: update_body_def UpdateFrozenStreamRecord_def Let_def rates_def new_rates_def
        split: sum.splits if_splits)
next
  case False
  with run obtain r1 s1 where
    tr: "auto_transfer E (GetParams s) (staged ctx (GetParams s) r ch) s = (Ok r1, s1)"
    and st: "settle_step settle ctx (GetParams s) r1 s1 = (Ok r', s')"
    unfolding update_body_active [OF False refl] by (auto simp: andthen_eq_Ok split: if_splits)
  from st obtain q t x where "q = r1 \<and> t = s1 \<or> settle r1 s1 = (Ok q, t)"
    and x: "set_settle_time x q t = (Ok r', s')" by (rule settle_step_split)
  then have "Account q = Account r1 \<and> rates q = rates r1" using settle by blast
  then have "Account r' = Account r1 \<and> rates r' = rates r1"
    by (simp add: set_settle_time_Ok(1) [OF x] rates_def)
  moreover have "Account r1 = Account r \<and> rates r1 = new_rates r ch"
    using auto_transfer_fields [OF tr] False by (simp add: rates_def new_rates_def)
  ultimately show ?thesis by simp
qed

lemma update_rec_contract: "stream_update (update_rec n E ctx)"
proof (induction n)
  case 0
  show ?case by unfold_locales simp_all
next
  case (Suc n)
  show ?case
  proof
    fix r ch s out s'
    assume "update_rec (Suc n) E ctx r ch s = (out, s')"
    then have run: "update_body (force_settle (update_rec n E ctx) E ctx) E ctx r ch s = (out, s')" by simp
    show "keeps_rates s s'"
    proof (rule update_body_keeps [OF _ run])
      fix q t o1 t'
      assume "force_settle (update_rec n E ctx) E ctx q t = (o1, t')"
      then show "keeps_rates t t'" by (rule stream_update.force_settle_keeps [OF Suc])
    qed
  next
    fix r ch s r' s'
    assume "update_rec (Suc n) E ctx r ch s = (Ok r', s')"
    then have run: "update_body (force_settle (update_rec n E ctx) E ctx) E ctx r ch s = (Ok r', s')" by simp
    show "Account r' = Account r \<and> rates r' = new_rates r ch"
    proof (rule update_body_rates [OF _ run])
      fix q t q' t'
      assume "force_settle (update_rec n E ctx) E ctx q t = (Ok q', t')"
      then show "Account q' = Account q \<and> rates q' = rates q"
        by (rule stream_update.force_settle_rates [OF Suc])
    qed
  qed
qed

interpretation su: stream_update "update_rec n E ctx"
  by (rule update_rec_contract)

lemma UpdateStreamRecordByAddr_frame:
  "UpdateStreamRecordByAddr E ctx ch s = (out, s') \<Longrightarrow> frame s s'"
  unfolding UpdateStreamRecordByAddr_def UpdateStreamRecord_def [abs_def] by (rule su.by_addr_frame)

lemma UpdateStreamRecordByAddr_rates:
  assumes "UpdateStreamRecordByAddr E ctx ch s = (Ok r', s')" "kv_ok (streamRecords s)"
  shows "kv_ok (streamRecords s')"
    "rates_at s' a = (if a = Addr ch then new_rates (fst (GetStreamRecord ctx (Addr ch) s)) ch else rates_at s a)"
proof -
  have run: "by_addr (update_rec (CallDepth ctx) E ctx) ctx ch s = (Ok r', s')"
    using assms(1) by (simp add: UpdateStreamRecordByAddr_def UpdateStreamRecord_def [abs_def])
  show "kv_ok (streamRecords s')"
    "rates_at s' a = (if a = Addr ch then new_rates (fst (GetStreamRecord ctx (Addr ch) s)) ch else rates_at s a)"
    by (rule su.by_addr_rates [OF run assms(2)])+
qed

end
