(* ===== verification/FeeCharge.thy ===== *)
theory FeeCharge
  imports StreamLedger
begin

text \<open>
  Charging storage fees (\<open>src/x/payment/keeper/storage_fee_charge.go\<close>): merging the changes and
  flows of one transaction and applying them to the payer, its out flows and the receivers.

  A Go map keyed by the textual form of an address is an association list keyed by the address;
  the textual form of a 20-byte address determines it.  The model thus takes the one form that
  \<open>AccAddress.String\<close> prints, which is what the callers pass; two other spellings of one address, as
  strings, would stay apart in the Go map.  The results are sorted by that
  form, so the iteration order of the Go map does not matter.  The fee preview event of the check
  phase is not modelled.
\<close>

fun upsert :: "'k \<Rightarrow> ('v option \<Rightarrow> 'v) \<Rightarrow> ('k \<times> 'v) list \<Rightarrow> ('k \<times> 'v) list" where
  "upsert k f [] = [(k, f None)]"
| "upsert k f ((j, v) # m) = (if j = k then (j, f (Some v)) # m else (j, v) # upsert k f m)"

section \<open>Merging\<close>

definition add_change :: "StreamRecordChange \<Rightarrow> StreamRecordChange option \<Rightarrow> StreamRecordChange" where
  "add_change change cur =
     (let c = (case cur of None \<Rightarrow> NewDefaultStreamRecordChangeWithAddr (Addr change) | Some c \<Rightarrow> c)
      in c\<lparr>RateChange := RateChange c + RateChange change,
           StaticBalanceChange := StaticBalanceChange c + StaticBalanceChange change,
           LockBalanceChange := LockBalanceChange c + LockBalanceChange change\<rparr>)"

definition MergeStreamRecordChanges :: "'b payment_env \<Rightarrow> StreamRecordChange list \<Rightarrow> StreamRecordChange list" where
  "MergeStreamRecordChanges E changes =
     (if length changes \<le> 1 then changes
      else
        (let changeMap = fold (\<lambda>change. upsert (Addr change) (add_change change)) changes []
         in sort_key (\<lambda>c. AccString E (Addr c)) (map snd changeMap)))"

definition MergeOutFlows :: "'b payment_env \<Rightarrow> OutFlow list \<Rightarrow> OutFlow list" where
  "MergeOutFlows E flows =
     (if length flows \<le> 1 then flows
      else
        (let flowMap = fold (\<lambda>flow. upsert (ToAddress flow)
                         (\<lambda>rate. case rate of None \<Rightarrow> Rate flow | Some r \<Rightarrow> r + Rate flow)) flows [];
             newFlows = map (\<lambda>(a, rate). \<lparr>ToAddress = a, Rate = rate, FlowStatus = OUT_FLOW_STATUS_ACTIVE\<rparr>)
                          (filter (\<lambda>(_, rate). rate \<noteq> 0) flowMap)
         in sort_key (\<lambda>f. AccString E (ToAddress f)) newFlows))"

definition MergeUserFlows :: "'b payment_env \<Rightarrow> UserFlows list \<Rightarrow> UserFlows list" where
  "MergeUserFlows E userFlowsList =
     (if length userFlowsList \<le> 1 then userFlowsList
      else
        (let userFlowsMap = fold (\<lambda>u. upsert (From u)
                              (\<lambda>fs. (case fs of None \<Rightarrow> [] | Some fs \<Rightarrow> fs) @ Flows u)) userFlowsList []
         in sort_key (\<lambda>u. AccString E (From u))
              (map (\<lambda>(a, fs). \<lparr>From = a, Flows = MergeOutFlows E fs\<rparr>) userFlowsMap)))"


section \<open>Applying\<close>

fun apply_changes :: "'b payment_env \<Rightarrow> pay_ctx \<Rightarrow> StreamRecordChange list \<Rightarrow> 'b pay_state \<Rightarrow> 'b pay_result" where
  "apply_changes E ctx [] s = (Ok (), s)"
| "apply_changes E ctx (c # cs) s =
     andthen (map_err ErrUpdate (UpdateStreamRecordByAddr E ctx c s)) (\<lambda>_ s. apply_changes E ctx cs s)"

definition ApplyStreamRecordChanges ::
  "'b payment_env \<Rightarrow> pay_ctx \<Rightarrow> StreamRecordChange list \<Rightarrow> 'b pay_state \<Rightarrow> 'b pay_result" where
  "ApplyStreamRecordChanges E ctx changes s =
     apply_changes E ctx (MergeStreamRecordChanges E changes) s"

definition rate_changes :: "OutFlow list \<Rightarrow> StreamRecordChange list" where
  "rate_changes fs =
     map (\<lambda>f. WithRateChange (NewDefaultStreamRecordChangeWithAddr (ToAddress f)) (Rate f)) fs"

definition total_rate :: "OutFlow list \<Rightarrow> int" where
  "total_rate fs = sum_list (map Rate fs)"

definition applyActiveUserFlows ::
  "'b payment_env \<Rightarrow> pay_ctx \<Rightarrow> UserFlows \<Rightarrow> addr \<Rightarrow> StreamRecord \<Rightarrow> 'b pay_state \<Rightarrow> 'b pay_result" where
  "applyActiveUserFlows E ctx userFlows from r s =
     (let rateChanges = rate_changes (Flows userFlows);
          totalRate = total_rate (Flows userFlows);
          change = WithRateChange (NewDefaultStreamRecordChangeWithAddr from) (- totalRate)
      in andthen (map_err ErrApply (UpdateStreamRecord E ctx r change s)) (\<lambda>r s.
           let (deltaFlowCount, s) = MergeActiveOutFlows from (Flows userFlows) s;
               r = r\<lparr>OutFlowCount := wrap_uint64 (wrap_int64 (int (OutFlowCount r)) + deltaFlowCount)\<rparr>
           in andthen (SetStreamRecord r s) (\<lambda>_ s.
                map_err ErrApply (ApplyStreamRecordChanges E ctx rateChanges s))))"

definition applyFrozenUserFlows ::
  "'b payment_env \<Rightarrow> pay_ctx \<Rightarrow> UserFlows \<Rightarrow> addr \<Rightarrow> StreamRecord \<Rightarrow> 'b pay_state \<Rightarrow> 'b pay_result" where
  "applyFrozenUserFlows E ctx userFlows from r s =
     (if \<not> Forced ctx then (Err (ErrFrozen (Account r)), s)
      else
        (let isActive = (\<lambda>f. GetOutFlow (Account r) OUT_FLOW_STATUS_ACTIVE (ToAddress f) s \<noteq> None);
             activeOutFlows = filter isActive (Flows userFlows);
             frozenOutFlows = filter (\<lambda>f. \<not> isActive f) (Flows userFlows);
             activeRateChanges = rate_changes activeOutFlows;
             change = WithFrozenRateChange
                        (WithRateChange (NewDefaultStreamRecordChangeWithAddr from)
                          (- total_rate activeOutFlows))
                        (- total_rate frozenOutFlows)
         in andthen (map_err ErrApply (UpdateStreamRecord E ctx r change s)) (\<lambda>r s.
              let (deltaActive, s) = MergeActiveOutFlows from activeOutFlows s;
                  (deltaFrozen, s) = MergeFrozenOutFlows from frozenOutFlows s;
                  r = r\<lparr>OutFlowCount := wrap_uint64 (wrap_int64 (wrap_int64 (int (OutFlowCount r))
                           + deltaActive) + deltaFrozen)\<rparr>
              in andthen (SetStreamRecord r s) (\<lambda>_ s.
                   map_err ErrApply (ApplyStreamRecordChanges E ctx activeRateChanges s)))))"

fun apply_user_flows :: "'b payment_env \<Rightarrow> pay_ctx \<Rightarrow> UserFlows list \<Rightarrow> 'b pay_state \<Rightarrow> 'b pay_result" where
  "apply_user_flows E ctx [] s = (Ok (), s)"
| "apply_user_flows E ctx (u # us) s =
     (let r = fst (GetStreamRecord ctx (From u) s)
      in andthen (if Status r = STREAM_ACCOUNT_STATUS_ACTIVE
                  then applyActiveUserFlows E ctx u (From u) r s
                  else applyFrozenUserFlows E ctx u (From u) r s)
           (\<lambda>_ s. apply_user_flows E ctx us s))"

definition ApplyUserFlowsList ::
  "'b payment_env \<Rightarrow> pay_ctx \<Rightarrow> UserFlows list \<Rightarrow> 'b pay_state \<Rightarrow> 'b pay_result" where
  "ApplyUserFlowsList E ctx userFlowsList s =
     apply_user_flows E ctx (MergeUserFlows E userFlowsList) s"


section \<open>What merging keeps\<close>

lemma map_of_upsert: "map_of (upsert k f m) = (map_of m)(k \<mapsto> f (map_of m k))"
  by (induction k f m rule: upsert.induct) auto

lemma keys_upsert: "fst ` set (upsert k f m) = insert k (fst ` set m)"
  by (induction k f m rule: upsert.induct) auto

lemma distinct_upsert: "distinct (map fst m) \<Longrightarrow> distinct (map fst (upsert k f m))"
proof (induction k f m rule: upsert.induct)
  case (2 k f j v m)
  have "fst ` set (upsert k f m) = insert k (fst ` set m)" by (rule keys_upsert)
  with 2 show ?case by auto
qed simp

definition sum_at :: "('x \<Rightarrow> addr) \<Rightarrow> ('x \<Rightarrow> int) \<Rightarrow> addr \<Rightarrow> 'x list \<Rightarrow> int" where
  "sum_at key f a xs = sum_list (map f (filter (\<lambda>x. key x = a) xs))"

lemma sum_at_append [simp]: "sum_at key f a (xs @ ys) = sum_at key f a xs + sum_at key f a ys"
  by (simp add: sum_at_def)

lemma sum_at_single [simp]: "sum_at key f a [x] = (if key x = a then f x else 0)"
  by (simp add: sum_at_def)

lemma sum_at_Nil [simp]: "sum_at key f a [] = 0"
  by (simp add: sum_at_def)

lemma sum_at_absent: "a \<notin> key ` set xs \<Longrightarrow> sum_at key f a xs = 0"
  by (induction xs) (auto simp: sum_at_def)

lemma sum_at_Cons: "sum_at key f a (x # xs) = (if key x = a then f x else 0) + sum_at key f a xs"
  by (simp add: sum_at_def)

lemma sum_at_insort_key: "sum_at key f a (insort_key k x xs) = sum_at key f a (x # xs)"
  by (induction xs) (auto simp: sum_at_Cons)

lemma sum_at_sort_key [simp]: "sum_at key f a (sort_key k xs) = sum_at key f a xs"
  unfolding sort_key_def by (induction xs) (auto simp: sum_at_insort_key sum_at_Cons)

text \<open>A list whose keys are distinct has the value of the only element with a key as its sum.\<close>

lemma sum_at_distinct:
  "distinct (map key xs) \<Longrightarrow> x \<in> set xs \<Longrightarrow> sum_at key f (key x) xs = f x"
  by (induction xs) (auto simp: sum_at_def sum_at_absent [unfolded sum_at_def])

definition change_map :: "StreamRecordChange list \<Rightarrow> (addr \<times> StreamRecordChange) list" where
  "change_map changes = fold (\<lambda>change. upsert (Addr change) (add_change change)) changes []"

lemma change_map_laws:
  "map_of (change_map cs) a = (if a \<in> Addr ` set cs then
     Some \<lparr>Addr = a, RateChange = sum_at Addr RateChange a cs,
       StaticBalanceChange = sum_at Addr StaticBalanceChange a cs,
       LockBalanceChange = sum_at Addr LockBalanceChange a cs, FrozenRateChange = 0\<rparr> else None)"
  "distinct (map fst (change_map cs))" "fst ` set (change_map cs) = Addr ` set cs"
proof (induction cs rule: rev_induct)
  case (snoc c cs)
  {
    case 1
    show ?case
      using snoc(1) sum_at_absent [of a Addr cs]
      by (auto simp: change_map_def map_of_upsert add_change_def Let_def change_defs split: if_splits)
  next
    case 2
    show ?case using snoc(2) by (simp add: change_map_def distinct_upsert)
  next
    case 3
    show ?case using snoc(3) by (simp add: change_map_def keys_upsert)
  }
qed (simp_all add: change_map_def)

lemma MergeStreamRecordChanges_eq:
  assumes "1 < length cs"
  shows "MergeStreamRecordChanges E cs = sort_key (\<lambda>c. AccString E (Addr c)) (map snd (change_map cs))"
  using assms by (simp add: MergeStreamRecordChanges_def change_map_def)

lemma change_map_set:
  "(a, c) \<in> set (change_map cs) \<longleftrightarrow> a \<in> Addr ` set cs \<and> c =
     \<lparr>Addr = a, RateChange = sum_at Addr RateChange a cs,
       StaticBalanceChange = sum_at Addr StaticBalanceChange a cs,
       LockBalanceChange = sum_at Addr LockBalanceChange a cs, FrozenRateChange = 0\<rparr>"
  using change_map_laws(1) [of cs a] map_of_eq_Some_iff [OF change_map_laws(2) [of cs], of a c]
  by (auto split: if_splits)

lemma change_map_Addr: "map Addr (map snd (change_map cs)) = map fst (change_map cs)"
  by (auto simp: change_map_set)

lemma merged_changes:
  fixes E :: "'b payment_env" and cs :: "StreamRecordChange list"
  assumes "1 < length cs"
  defines "ms \<equiv> MergeStreamRecordChanges E cs"
  shows "distinct (map Addr ms)" "Addr ` set ms = Addr ` set cs"
    "sorted (map (\<lambda>c. AccString E (Addr c)) ms)"
    "c \<in> set ms \<Longrightarrow> c = \<lparr>Addr = Addr c, RateChange = sum_at Addr RateChange (Addr c) cs,
       StaticBalanceChange = sum_at Addr StaticBalanceChange (Addr c) cs,
       LockBalanceChange = sum_at Addr LockBalanceChange (Addr c) cs, FrozenRateChange = 0\<rparr>"
proof -
  have ms: "ms = sort_key (\<lambda>c. AccString E (Addr c)) (map snd (change_map cs))"
    unfolding ms_def by (rule MergeStreamRecordChanges_eq [OF assms(1)])
  have set: "set ms = snd ` set (change_map cs)" by (simp add: ms)
  have "distinct (map Addr (map snd (change_map cs)))" unfolding change_map_Addr by (rule change_map_laws(2))
  then have "inj_on Addr (set (map snd (change_map cs))) \<and> distinct (map snd (change_map cs))"
    by (simp only: distinct_map [of Addr "map snd (change_map cs)"])
  then show "distinct (map Addr ms)" by (simp only: distinct_map [of Addr] ms set_sort distinct_sort)
  show "Addr ` set ms = Addr ` set cs"
    using change_map_laws(3) [of cs] arg_cong [OF change_map_Addr [of cs], of set] by (simp add: set image_image)
  show "sorted (map (\<lambda>c. AccString E (Addr c)) ms)" by (simp add: ms)
  show "c = \<lparr>Addr = Addr c, RateChange = sum_at Addr RateChange (Addr c) cs,
       StaticBalanceChange = sum_at Addr StaticBalanceChange (Addr c) cs,
       LockBalanceChange = sum_at Addr LockBalanceChange (Addr c) cs, FrozenRateChange = 0\<rparr>" if "c \<in> set ms"
    using that by (auto simp: set change_map_set)
qed

lemma merged_sum:
  assumes f: "f \<in> {RateChange, StaticBalanceChange, LockBalanceChange}"
  shows "sum_at Addr f a (MergeStreamRecordChanges E cs) = sum_at Addr f a cs"
proof (cases "1 < length cs")
  case True
  note m = merged_changes [OF True, where E = E]
  show ?thesis
  proof (cases "a \<in> Addr ` set cs")
    case True
    then obtain c where c: "c \<in> set (MergeStreamRecordChanges E cs)" "Addr c = a"
      using m(2) by (metis imageE)
    then have "sum_at Addr f a (MergeStreamRecordChanges E cs) = f c"
      using sum_at_distinct [OF m(1) c(1), of f] by simp
    also have "\<dots> = sum_at Addr f a cs" using m(4) [OF c(1)] c(2) f by (cases c) auto
    finally show ?thesis .
  qed (use m(2) in \<open>simp add: sum_at_absent\<close>)
qed (simp add: MergeStreamRecordChanges_def)

definition flow_map :: "OutFlow list \<Rightarrow> (addr \<times> int) list" where
  "flow_map flows = fold (\<lambda>flow. upsert (ToAddress flow)
     (\<lambda>rate. case rate of None \<Rightarrow> Rate flow | Some r \<Rightarrow> r + Rate flow)) flows []"

lemma flow_map_laws:
  "map_of (flow_map fs) a = (if a \<in> ToAddress ` set fs then Some (sum_at ToAddress Rate a fs) else None)"
  "distinct (map fst (flow_map fs))"
proof (induction fs rule: rev_induct)
  case (snoc f fs)
  {
    case 1
    show ?case using snoc(1) sum_at_absent [of a ToAddress fs Rate]
      by (auto simp: flow_map_def map_of_upsert split: if_splits)
  next
    case 2
    show ?case using snoc(2) by (simp add: flow_map_def distinct_upsert)
  }
qed (simp_all add: flow_map_def)

lemma flow_map_set:
  "(a, n) \<in> set (flow_map fs) \<longleftrightarrow> a \<in> ToAddress ` set fs \<and> n = sum_at ToAddress Rate a fs"
  using flow_map_laws(1) [of fs a] map_of_eq_Some_iff [OF flow_map_laws(2) [of fs], of a n]
  by (auto split: if_splits)

lemma merged_flows:
  fixes E :: "'b payment_env" and fs :: "OutFlow list"
  assumes "1 < length fs"
  defines "ms \<equiv> MergeOutFlows E fs"
  shows "distinct (map ToAddress ms)" "sorted (map (\<lambda>f. AccString E (ToAddress f)) ms)"
    "f \<in> set ms \<longleftrightarrow> FlowStatus f = OUT_FLOW_STATUS_ACTIVE \<and> Rate f \<noteq> 0 \<and>
       Rate f = sum_at ToAddress Rate (ToAddress f) fs"
proof -
  let ?mk = "\<lambda>(a, rate). \<lparr>ToAddress = a, Rate = rate, FlowStatus = OUT_FLOW_STATUS_ACTIVE\<rparr>"
  let ?fm = "filter (\<lambda>(_, rate). rate \<noteq> 0) (flow_map fs)"
  have ms: "ms = sort_key (\<lambda>f. AccString E (ToAddress f)) (map ?mk ?fm)"
    using assms(1) unfolding ms_def by (simp add: MergeOutFlows_def flow_map_def)
  have "map ToAddress (map ?mk ?fm) = map fst ?fm" by (auto simp: case_prod_beta)
  moreover have "distinct (map fst ?fm)" by (rule distinct_map_filter) (rule flow_map_laws(2))
  ultimately have "distinct (map ToAddress (map ?mk ?fm))" by (simp only:)
  then have "distinct (map ?mk ?fm) \<and> inj_on ToAddress (set (map ?mk ?fm))"
    by (simp only: distinct_map [of ToAddress "map ?mk ?fm"])
  then show "distinct (map ToAddress ms)" by (simp only: distinct_map [of ToAddress] ms set_sort distinct_sort)
  show "sorted (map (\<lambda>f. AccString E (ToAddress f)) ms)" by (simp add: ms)
  have absent: "sum_at ToAddress Rate a fs \<noteq> 0 \<Longrightarrow> a \<in> ToAddress ` set fs" for a
    using sum_at_absent by metis
  show "f \<in> set ms \<longleftrightarrow> FlowStatus f = OUT_FLOW_STATUS_ACTIVE \<and> Rate f \<noteq> 0 \<and>
       Rate f = sum_at ToAddress Rate (ToAddress f) fs"
    using absent by (cases f) (force simp: ms flow_map_set image_iff)
qed

lemma merged_flows_sum: "sum_at ToAddress Rate a (MergeOutFlows E fs) = sum_at ToAddress Rate a fs"
proof (cases "1 < length fs")
  case True
  note m = merged_flows [OF True, where E = E]
  show ?thesis
  proof (cases "sum_at ToAddress Rate a fs = 0")
    case True
    then have "a \<notin> ToAddress ` set (MergeOutFlows E fs)" using m(3) by auto
    then show ?thesis using True by (simp add: sum_at_absent)
  next
    case False
    let ?f = "\<lparr>ToAddress = a, Rate = sum_at ToAddress Rate a fs, FlowStatus = OUT_FLOW_STATUS_ACTIVE\<rparr>"
    have "?f \<in> set (MergeOutFlows E fs)" using m(3) [of ?f] False by simp
    from sum_at_distinct [OF m(1) this, of Rate] show ?thesis by simp
  qed
qed (simp add: MergeOutFlows_def)

lemma total_rate_append [simp]: "total_rate (xs @ ys) = total_rate xs + total_rate ys"
  by (simp add: total_rate_def)

end
