(* ===== verification/PaymentMsg.thy ===== *)
theory PaymentMsg
  imports FeeCharge
begin

text \<open>
  The messages and queries of the payment module (\<open>src/x/payment/keeper/msg_server*.go\<close>,
  \<open>keeper.go\<close>, \<open>grpc_query*.go\<close>), its stateless message checks
  (\<open>types/message_*.go\<close>), genesis (\<open>genesis.go\<close>) and the migration of
  the parameters.  Addresses in messages are the raw strings of the wire; amounts are the integers
  that passed the nil check of \<open>ValidateBasic\<close>.  The SDK rolls a transaction back when its
  handler returns an error or panics, so only successful results have to keep the books.
\<close>

record MsgCreatePaymentAccount =
  CPCreator :: string

record MsgDeposit =
  DCreator :: string
  DTo :: string
  DAmount :: int

record MsgWithdraw =
  WCreator :: string
  WFrom :: string
  WAmount :: int

record MsgDisableRefund =
  ROwner :: string
  RAddr :: string

datatype msg_error = InvalidCreator | InvalidTo | InvalidFrom | InvalidAmount | InvalidPaymentAddress
  | InvalidAuthority | InvalidParams

definition ValidateBasic_CreatePaymentAccount :: "'b payment_env \<Rightarrow> MsgCreatePaymentAccount \<Rightarrow> msg_error option" where
  "ValidateBasic_CreatePaymentAccount E msg =
     (if AccFromHex E (CPCreator msg) = None then Some InvalidCreator else None)"

definition ValidateBasic_Deposit :: "'b payment_env \<Rightarrow> MsgDeposit \<Rightarrow> msg_error option" where
  "ValidateBasic_Deposit E msg =
     (if AccFromHex E (DCreator msg) = None then Some InvalidCreator
      else if AccFromHex E (DTo msg) = None then Some InvalidTo
      else if \<not> 0 < DAmount msg then Some InvalidAmount
      else None)"

definition ValidateBasic_Withdraw :: "'b payment_env \<Rightarrow> MsgWithdraw \<Rightarrow> msg_error option" where
  "ValidateBasic_Withdraw E msg =
     (if AccFromHex E (WCreator msg) = None then Some InvalidCreator
      else if WFrom msg \<noteq> [] \<and> AccFromHex E (WFrom msg) = None then Some InvalidFrom
      else if \<not> 0 < WAmount msg then Some InvalidAmount
      else None)"

definition ValidateBasic_DisableRefund :: "'b payment_env \<Rightarrow> MsgDisableRefund \<Rightarrow> msg_error option" where
  "ValidateBasic_DisableRefund E msg =
     (if AccFromHex E (ROwner msg) = None then Some InvalidCreator
      else if AccFromHex E (RAddr msg) = None then Some InvalidPaymentAddress
      else None)"

definition ValidateBasic_UpdateParams :: "'b payment_env \<Rightarrow> string \<Rightarrow> PaymentParams \<Rightarrow> msg_error option" where
  "ValidateBasic_UpdateParams E authority p =
     (if AccFromHex E authority = None then Some InvalidAuthority
      else if Validate p \<noteq> None then Some InvalidParams
      else None)"


section \<open>Handlers\<close>

definition CreatePaymentAccount :: "'b payment_env \<Rightarrow> pay_ctx \<Rightarrow> MsgCreatePaymentAccount
   \<Rightarrow> 'b pay_state \<Rightarrow> 'b pay_result" where
  "CreatePaymentAccount E ctx msg s =
     andthen (MustAccAddressFromHex E (CPCreator msg) s) (\<lambda>creator s.
       let count = GetPaymentAccountCount creator s
       in if count \<ge> PaymentAccountCountLimit (GetParams s)
          then (Err ErrReachPaymentAccountLimit, s)
          else
            (let paymentAccountAddr = DerivePaymentAccountAddress E creator count;
                 s = SetPaymentAccountCount creator (wrap_uint64 (int count + 1)) s
             in (Ok (), SetPaymentAccount \<lparr>PAddr = paymentAccountAddr, Owner = CPCreator msg,
                                           Refundable = True\<rparr> s)))"

definition send_to_module :: "'b payment_env \<Rightarrow> addr \<Rightarrow> coins \<Rightarrow> 'b pay_state \<Rightarrow> 'b pay_result" where
  "send_to_module E a coins s =
     (case SendCoinsFromAccountToModule E a ''payment'' coins (bank s) of
        Inl e \<Rightarrow> (Err (ErrBank e), s)
      | Inr b \<Rightarrow> (Ok (), s\<lparr>bank := b\<rparr>))"

text \<open>The deposit sweeps the bank balance of a payment account into its stream record.\<close>

definition sweep_payment_account :: "'b payment_env \<Rightarrow> addr \<Rightarrow> int \<Rightarrow> 'b pay_state
   \<Rightarrow> (pay_error, int) outcome \<times> 'b pay_state" where
  "sweep_payment_account E a depositAmount s =
     (if IsPaymentAccount a s then
        (let balance = GetBalance E (bank s) a (FeeDenom (GetParams s))
         in if 0 < balance then
              andthen (NewCoins E (FeeDenom (GetParams s)) balance s) (\<lambda>coins s.
                andthen (send_to_module E a coins s) (\<lambda>_ s. (Ok (depositAmount + balance), s)))
            else (Ok depositAmount, s))
      else (Ok depositAmount, s))"

definition credit_deposit :: "'b payment_env \<Rightarrow> pay_ctx \<Rightarrow> string \<Rightarrow> addr \<Rightarrow> int \<Rightarrow> 'b pay_state
   \<Rightarrow> 'b pay_result" where
  "credit_deposit E ctx msgTo a depositAmount s =
     (case GetStreamRecord ctx a s of
        (r, False) \<Rightarrow>
          if GetPaymentAccount a s = None \<and> \<not> HasAccount E (bank s) a
          then (Err ErrReceiveAccountNotExist, s)
          else if length msgTo \<noteq> 42 then (Panic, s)
          else SetStreamRecord (r\<lparr>Account := a, CrudTimestamp := BlockTime ctx,
                                 StaticBalance := depositAmount\<rparr>) s
      | (r, True) \<Rightarrow>
          (case Status r of
             STREAM_ACCOUNT_STATUS_ACTIVE \<Rightarrow>
               andthen (UpdateStreamRecord E ctx r
                         (WithStaticBalanceChange (NewDefaultStreamRecordChangeWithAddr a) depositAmount) s)
                 (\<lambda>r s. SetStreamRecord r s)
           | STREAM_ACCOUNT_STATUS_FROZEN \<Rightarrow> TryResumeStreamRecord E ctx r depositAmount s
           | STREAM_ACCOUNT_STATUS_OTHER _ \<Rightarrow> (Err ErrInvalidStreamAccountStatus, s)))"

definition Deposit :: "'b payment_env \<Rightarrow> pay_ctx \<Rightarrow> MsgDeposit \<Rightarrow> 'b pay_state \<Rightarrow> 'b pay_result" where
  "Deposit E ctx msg s =
     andthen (MustAccAddressFromHex E (DCreator msg) s) (\<lambda>creator s.
     andthen (MustAccAddressFromHex E (DTo msg) s) (\<lambda>a s.
     andthen (NewCoins E (FeeDenom (GetParams s)) (DAmount msg) s) (\<lambda>coinsToDeposit s.
     andthen (send_to_module E creator coinsToDeposit s) (\<lambda>_ s.
     andthen (sweep_payment_account E a (DAmount msg) s) (\<lambda>depositAmount s.
       credit_deposit E ctx (DTo msg) a depositAmount s)))))"

definition bankTransfer :: "'b payment_env \<Rightarrow> addr \<Rightarrow> int \<Rightarrow> 'b pay_state \<Rightarrow> 'b pay_result" where
  "bankTransfer E creator amount s =
     andthen (NewCoins E (FeeDenom (GetParams s)) amount s) (\<lambda>coins s.
       case SendCoinsFromModuleToAccount E ''payment'' creator coins (bank s) of
         Inl e \<Rightarrow> (Err (ErrBank e), s)
       | Inr b \<Rightarrow> (Ok (), s\<lparr>bank := b\<rparr>))"

definition withdraw_delayed :: "'b payment_env \<Rightarrow> pay_ctx \<Rightarrow> addr \<Rightarrow> int \<Rightarrow> 'b pay_state \<Rightarrow> 'b pay_result" where
  "withdraw_delayed E ctx creator amount s =
     (case GetDelayedWithdrawalRecord creator s of
        None \<Rightarrow> (Err ErrNoDelayedWithdrawal, s)
      | Some d \<Rightarrow>
          if Amount d \<noteq> amount then (Err ErrIncorrectWithdrawAmount, s)
          else if BlockTime ctx \<le> UnlockTimestamp d then (Err ErrNotReachTimeLockDuration, s)
          else bankTransfer E creator amount (RemoveDelayedWithdrawalRecord creator s))"

definition check_withdrawer :: "'b payment_env \<Rightarrow> addr \<Rightarrow> addr \<Rightarrow> 'b pay_state \<Rightarrow> 'b pay_result" where
  "check_withdrawer E creator from s =
     (if creator = from then (Ok (), s)
      else
        (case GetPaymentAccount from s of
           None \<Rightarrow> (Err ErrPaymentAccountNotFound, s)
         | Some p \<Rightarrow>
             andthen (MustAccAddressFromHex E (Owner p) s) (\<lambda>owner s.
               if creator \<noteq> owner then (Err ErrNotPaymentAccountOwner, s)
               else if \<not> Refundable p then (Err ErrPaymentAccountAlreadyNonRefundable, s)
               else (Ok (), s))))"

definition withdraw_stream :: "'b payment_env \<Rightarrow> pay_ctx \<Rightarrow> addr \<Rightarrow> addr \<Rightarrow> int \<Rightarrow> 'b pay_state \<Rightarrow> 'b pay_result" where
  "withdraw_stream E ctx creator from amount s =
     (case GetStreamRecord ctx from s of
        (r, False) \<Rightarrow> (Err ErrStreamRecordNotFound, s)
      | (r, True) \<Rightarrow>
          if Status r = STREAM_ACCOUNT_STATUS_FROZEN then (Err ErrInvalidStreamAccountStatus, s)
          else
            andthen (check_withdrawer E creator from s) (\<lambda>_ s.
            andthen (UpdateStreamRecord E ctx r
                       (WithStaticBalanceChange (NewDefaultStreamRecordChangeWithAddr from) (- amount)) s) (\<lambda>r s.
            andthen (SetStreamRecord r s) (\<lambda>_ s.
              if StaticBalance r < 0 then (Err ErrInsufficientBalance, s)
              else
                (case WithdrawTimeLockThreshold (GetParams s) of
                   None \<Rightarrow> (Panic, s)
                 | Some threshold \<Rightarrow>
                     if amount \<ge> threshold then
                       (if GetDelayedWithdrawalRecord creator s \<noteq> None
                        then (Err ErrExistsDelayedWithdrawal, s)
                        else (Ok (), SetDelayedWithdrawalRecord
                                \<lparr>DAddr = creator, Amount = amount, DFrom = from,
                                 UnlockTimestamp = wrap_int64 (BlockTime ctx
                                   + wrap_int64 (int (WithdrawTimeLockDuration (GetParams s))))\<rparr> s))
                     else bankTransfer E creator amount s)))))"

definition Withdraw :: "'b payment_env \<Rightarrow> pay_ctx \<Rightarrow> MsgWithdraw \<Rightarrow> 'b pay_state \<Rightarrow> 'b pay_result" where
  "Withdraw E ctx msg s =
     andthen (MustAccAddressFromHex E (WCreator msg) s) (\<lambda>creator s.
       if WFrom msg = [] then withdraw_delayed E ctx creator (WAmount msg) s
       else andthen (MustAccAddressFromHex E (WFrom msg) s) (\<lambda>from s.
              withdraw_stream E ctx creator from (WAmount msg) s))"

definition DisableRefund :: "'b payment_env \<Rightarrow> MsgDisableRefund \<Rightarrow> 'b pay_state \<Rightarrow> 'b pay_result" where
  "DisableRefund E msg s =
     andthen (MustAccAddressFromHex E (RAddr msg) s) (\<lambda>a s.
       case GetPaymentAccount a s of
         None \<Rightarrow> (Err ErrPaymentAccountNotFound, s)
       | Some p \<Rightarrow>
           if Owner p \<noteq> ROwner msg then (Err ErrNotPaymentAccountOwner, s)
           else if \<not> Refundable p then (Err ErrPaymentAccountAlreadyNonRefundable, s)
           else (Ok (), SetPaymentAccount (p\<lparr>Refundable := False\<rparr>) s))"

definition UpdateParams :: "string \<Rightarrow> pay_ctx \<Rightarrow> string \<Rightarrow> PaymentParams \<Rightarrow> 'b pay_state \<Rightarrow> 'b pay_result" where
  "UpdateParams authority ctx reqAuthority p s =
     (if authority \<noteq> reqAuthority then (Err ErrInvalidSigner, s) else SetParams ctx p s)"


section \<open>Calls of other modules and queries\<close>

definition QueryDynamicBalance :: "'b payment_env \<Rightarrow> pay_ctx \<Rightarrow> addr \<Rightarrow> 'b pay_state
   \<Rightarrow> (pay_error, int) outcome \<times> 'b pay_state" where
  "QueryDynamicBalance E ctx a s =
     (case GetStreamRecord ctx a s of
        (r, False) \<Rightarrow> (Ok 0, s)
      | (r, True) \<Rightarrow>
          andthen (map_err ErrUpdate (UpdateStreamRecord E ctx r (NewDefaultStreamRecordChangeWithAddr a) s))
            (\<lambda>r s. (Ok (StaticBalance r), s)))"

definition keeper_Withdraw :: "'b payment_env \<Rightarrow> pay_ctx \<Rightarrow> addr \<Rightarrow> addr \<Rightarrow> int \<Rightarrow> 'b pay_state \<Rightarrow> 'b pay_result" where
  "keeper_Withdraw E ctx fromAddr toAddr amount s =
     (case GetStreamRecord ctx fromAddr s of
        (r, False) \<Rightarrow> (Err ErrStreamRecordNotFound, s)
      | (r, True) \<Rightarrow>
          andthen (map_err ErrUpdate (UpdateStreamRecord E ctx r
                    (WithStaticBalanceChange (NewDefaultStreamRecordChangeWithAddr fromAddr) (- amount)) s)) (\<lambda>r s.
          andthen (SetStreamRecord r s) (\<lambda>_ s.
          andthen (NewCoins E (FeeDenom (GetParams s)) amount s) (\<lambda>coins s.
            case (if toAddr = ModuleAddress E ''distribution''
                  then SendCoinsFromModuleToModule E ''payment'' ''distribution'' coins (bank s)
                  else SendCoinsFromModuleToAccount E ''payment'' toAddr coins (bank s)) of
              Inl e \<Rightarrow> (Err (ErrBank e), s)
            | Inr b \<Rightarrow> (Ok (), s\<lparr>bank := b\<rparr>)))))"

record DynamicBalanceResponse =
  DynamicBalance :: int
  BankBalance :: int
  AvailableBalance :: int
  LockedFee :: int
  ChangeRate :: int

definition query_DynamicBalance :: "'b payment_env \<Rightarrow> pay_ctx \<Rightarrow> string \<Rightarrow> 'b pay_state
   \<Rightarrow> DynamicBalanceResponse option" where
  "query_DynamicBalance E ctx reqAccount s =
     (case AccFromHex E reqAccount of
        None \<Rightarrow> None
      | Some account \<Rightarrow>
          let r = fst (GetStreamRecord ctx account s);
              flowDelta = NetflowRate r * wrap_int64 (BlockTime ctx - CrudTimestamp r);
              bankBalance = (if HasAccount E (bank s) account
                             then GetBalance E (bank s) account (FeeDenom (GetParams s)) else 0);
              lockedFee = LockBalance r + BufferBalance r
          in Some \<lparr>DynamicBalance = StaticBalance r + flowDelta, BankBalance = bankBalance,
                   AvailableBalance = bankBalance + (if 0 < StaticBalance r then StaticBalance r else 0),
                   LockedFee = lockedFee + (if 0 < StaticBalance r then 0 else StaticBalance r),
                   ChangeRate = NetflowRate r\<rparr>)"

definition query_PaymentAccountsByOwner :: "'b payment_env \<Rightarrow> string \<Rightarrow> 'b pay_state \<Rightarrow> string list option" where
  "query_PaymentAccountsByOwner E reqOwner s =
     (case AccFromHex E reqOwner of
        None \<Rightarrow> None
      | Some owner \<Rightarrow>
          if map_of (paymentAccountCounts s) owner = None then None
          else Some (map (\<lambda>i. AccString E (DerivePaymentAccountAddress E owner i))
                       [0..<GetPaymentAccountCount owner s]))"

definition query_ParamsByTimestamp :: "pay_ctx \<Rightarrow> int \<Rightarrow> 'b pay_state \<Rightarrow> pay_error + PaymentParams" where
  "query_ParamsByTimestamp ctx reqTs s =
     (let ts = (if reqTs = 0 then wrap_int64 (BlockTime ctx + 1) else reqTs)
      in case GetVersionedParamsWithTs s ts of
           Inl e \<Rightarrow> Inl e
         | Inr vp \<Rightarrow> Inr ((GetParams s)\<lparr>Versioned := vp\<rparr>))"


section \<open>Genesis and migration\<close>

record GenesisState =
  StreamRecordList :: "StreamRecord list"
  PaymentAccountCountList :: "(addr \<times> nat) list"
  PaymentAccountList :: "PaymentAccount list"
  AutoSettleRecordList :: "(int \<times> addr) list"
  GenParams :: PaymentParams

definition DefaultGenesis :: GenesisState where
  "DefaultGenesis = \<lparr>StreamRecordList = [], PaymentAccountCountList = [], PaymentAccountList = [],
     AutoSettleRecordList = [], GenParams = DefaultParams\<rparr>"

datatype genesis_error = DuplicatedStreamRecord | DuplicatedPaymentAccountCount
  | DuplicatedPaymentAccount | DuplicatedAutoSettleRecord | GenesisParams param_error

definition Validate_Genesis :: "GenesisState \<Rightarrow> genesis_error option" where
  "Validate_Genesis gs =
     (if \<not> distinct (map Account (StreamRecordList gs)) then Some DuplicatedStreamRecord
      else if \<not> distinct (map fst (PaymentAccountCountList gs)) then Some DuplicatedPaymentAccountCount
      else if \<not> distinct (map PAddr (PaymentAccountList gs)) then Some DuplicatedPaymentAccount
      else if \<not> distinct (map (\<lambda>(t, a). (wrap_uint64 t, a)) (AutoSettleRecordList gs))
      then Some DuplicatedAutoSettleRecord
      else map_option GenesisParams (Validate (GenParams gs)))"

definition InitGenesis :: "pay_ctx \<Rightarrow> GenesisState \<Rightarrow> 'b pay_state \<Rightarrow> 'b pay_result" where
  "InitGenesis ctx gs s =
     andthen (foreach SetStreamRecord (StreamRecordList gs) s) (\<lambda>_ s.
       let s = fold (\<lambda>(a, n). SetPaymentAccountCount a n) (PaymentAccountCountList gs) s;
           s = fold SetPaymentAccount (PaymentAccountList gs) s;
           s = fold (\<lambda>(t, a). SetAutoSettleRecord t a) (AutoSettleRecordList gs) s
       in case SetParams ctx (GenParams gs) s of
            (Ok _, s) \<Rightarrow> (Ok (), s)
          | (_, s) \<Rightarrow> (Panic, s))"

definition ExportGenesis :: "'b pay_state \<Rightarrow> GenesisState" where
  "ExportGenesis s = \<lparr>StreamRecordList = GetAllStreamRecord s,
     PaymentAccountCountList = GetAllPaymentAccountCount s,
     PaymentAccountList = GetAllPaymentAccount s,
     AutoSettleRecordList = GetAllAutoSettleRecord s,
     GenParams = GetParams s\<rparr>"

text \<open>The migration reads the parameters of the first version, which have no time lock.\<close>

definition MigrateStore :: "'b pay_state \<Rightarrow> 'b pay_result" where
  "MigrateStore s =
     (let old = GetParams s;
          new = NewParams (ReserveTime (Versioned old)) (ValidatorTaxRate (Versioned old))
                  (ForcedSettleTime old) (PaymentAccountCountLimit old) (MaxAutoSettleFlowCount old)
                  (MaxAutoResumeFlowCount old) (FeeDenom old) (10 ^ 18 * 100) (24 * 60 * 60)
      in (Ok (), s\<lparr>payParams := Some new\<rparr>))"

end
