(* ===== verification/Solvency.thy ===== *)
theory Solvency
  imports PaymentMsg
begin

text \<open>
  What the operations of the payment module do to the books.  \<open>quiet\<close> steps keep the
  ledger invariant, the difference of books and custody, and what every frozen account owns; the
  end-block settlement is a sequence of them.  The message handlers move the difference by exactly
  the coins they take in or pay out.
\<close>

section \<open>A forced update never fails\<close>

lemma update_rec_forced_no_Err:
  assumes "Forced ctx"
  shows "update_rec n E ctx r ch s \<noteq> (Err e, s')"
proof (induction n arbitrary: r ch s e s')
  case (Suc n)
  have "\<not> by_addr (update_rec n E ctx) ctx c t = (Err e', t')" for c t e' t'
    using Suc.IH by (auto simp: by_addr_def andthen_eq_Err SetStreamRecord_def split: if_splits)
  then have settle: "force_settle (update_rec n E ctx) E ctx q t \<noteq> (Err e', t')" for q t e' t'
    by (auto simp: force_settle_def Let_def andthen_eq_Err map_err_eq_Err)
  have step: "settle_step (force_settle (update_rec n E ctx) E ctx) ctx p q t \<noteq> (Err e', t')" for p q t e' t'
    using settle assms
    by (auto simp: settle_step_def Let_def andthen_eq_Err map_err_eq_Err set_settle_time_def split: if_splits)
  have "auto_transfer E p q t \<noteq> (Err e', t')" for p q t e' t'
    by (auto simp: auto_transfer_def NewCoins_def andthen_eq_Err split: if_splits sum.splits)
  with step assms show ?case
    by (auto simp: update_body_def Let_def andthen_eq_Err UpdateFrozenStreamRecord_def split: if_splits sum.splits)
qed simp

lemma by_addr_forced_no_Err: "Forced ctx \<Longrightarrow> UpdateStreamRecordByAddr E ctx ch s \<noteq> (Err e, s')"
  by (auto simp: UpdateStreamRecordByAddr_def UpdateStreamRecord_def by_addr_def andthen_eq_Err
      update_rec_forced_no_Err SetStreamRecord_def split: if_splits)

section \<open>Steps that leave the books alone\<close>

definition recipients_ok :: "'b payment_env \<Rightarrow> ((addr \<times> bool \<times> addr) \<times> int) list \<Rightarrow> bool" where
  "recipients_ok E flows = list_all (\<lambda>((_, _, toAddr), _).
     toAddr \<noteq> GovernanceAddress E \<and> toAddr \<noteq> ModuleAddress E ''payment'') flows"

definition holds_frozen :: "'b pay_state \<Rightarrow> addr \<Rightarrow> int \<Rightarrow> bool" where
  "holds_frozen s a w \<longleftrightarrow>
     (\<exists>r. map_of (streamRecords s) a = Some r \<and> Status r = STREAM_ACCOUNT_STATUS_FROZEN \<and> worth r = w)"

definition quiet :: "'b payment_env \<Rightarrow> int \<Rightarrow> 'b pay_state \<Rightarrow> 'b pay_state \<Rightarrow> bool" where
  "quiet E now s s' \<longleftrightarrow>
     (ledger_ok E now s \<longrightarrow> ledger_ok E now s' \<and>
        books now s' - custody E s' = books now s - custody E s \<and>
        (\<forall>a w. holds_frozen s a w \<longrightarrow> holds_frozen s' a w)) \<and>
     (recipients_ok E (outFlows s) \<longrightarrow> recipients_ok E (outFlows s')) \<and>
     delayedWithdrawals s' = delayedWithdrawals s \<and> payParams s' = payParams s"

lemma quiet_refl [simp]: "quiet E now s s"
  by (simp add: quiet_def)

lemma quiet_trans [trans]: "quiet E now s t \<Longrightarrow> quiet E now t u \<Longrightarrow> quiet E now s u"
  by (simp add: quiet_def)

lemma gov_not_frozen: "ledger_ok E now s \<Longrightarrow> \<not> holds_frozen s (GovernanceAddress E) w"
  by (auto simp: ledger_ok_def holds_frozen_def list_all_iff gov_record_ok_def dest!: map_of_SomeD)

lemma quiet_by_addr:
  assumes run: "UpdateStreamRecordByAddr E ctx ch s = (Ok r', s')"
    and laws: "bank_laws E"
    and a: "Addr ch \<noteq> ModuleAddress E ''payment''"
    and gov: "Addr ch = GovernanceAddress E \<Longrightarrow> RateChange ch = 0"
    and ch: "StaticBalanceChange ch = 0" "LockBalanceChange ch = 0"
  shows "quiet E (BlockTime ctx) s s'"
proof -
  let ?r = "fst (GetStreamRecord ctx (Addr ch) s)" and ?now = "BlockTime ctx"
  have fr: "holds_frozen s' b w" if "holds_frozen s b w" and led: "ledger_ok E ?now s" for b w
  proof -
    have g: "Addr ch = GovernanceAddress E \<Longrightarrow> 0 \<le> NetflowRate ?r + RateChange ch"
      using gov GetStreamRecord_ok(3) [OF led, of "Addr ch"] by (simp add: gov_record_ok_def)
    note bl = UpdateStreamRecordByAddr_ledger [OF run laws led a g]
    have "b \<noteq> GovernanceAddress E" using that gov_not_frozen by blast
    show ?thesis
    proof (cases "b = Addr ch")
      case False
      with bl(4) \<open>b \<noteq> GovernanceAddress E\<close> that show ?thesis by (simp add: holds_frozen_def)
    next
      case True
      with that have fz: "Status ?r = STREAM_ACCOUNT_STATUS_FROZEN" "worth ?r = w"
        by (auto simp: holds_frozen_def GetStreamRecord_def)
      from run obtain t where "UpdateStreamRecord E ctx ?r ch s = (Ok r', t)"
        by (auto simp: UpdateStreamRecordByAddr_def by_addr_def andthen_eq_Ok)
      then obtain m where "update_rec (Suc m) E ctx ?r ch s = (Ok r', t)"
        unfolding UpdateStreamRecord_def by (cases "CallDepth ctx") auto
      then have "UpdateFrozenStreamRecord ctx ?r ch = Inr r'"
        using fz(1) by (auto simp: update_body_def split: sum.splits)
      then have "Status r' = STREAM_ACCOUNT_STATUS_FROZEN" "worth r' = w"
        using fz ch by (auto simp: UpdateFrozenStreamRecord_def apply_lock_change_def Let_def split: if_splits)
      with bl(5) True show ?thesis by (simp add: holds_frozen_def)
    qed
  qed
  have "ledger_ok E ?now s' \<and> books ?now s' - custody E s' = books ?now s - custody E s" if led: "ledger_ok E ?now s"
  proof -
    have g: "Addr ch = GovernanceAddress E \<Longrightarrow> 0 \<le> NetflowRate ?r + RateChange ch"
      using gov GetStreamRecord_ok(3) [OF led, of "Addr ch"] by (simp add: gov_record_ok_def)
    note bl = UpdateStreamRecordByAddr_ledger [OF run laws led a g]
    then show ?thesis using ch by simp
  qed
  moreover have "frame s s'" using run by (rule UpdateStreamRecordByAddr_frame)
  ultimately show ?thesis using fr by (auto simp: quiet_def frame_simps)
qed

lemma recipients_ok_iter: "recipients_ok E flows \<Longrightarrow> recipients_ok E (iter_from a b flows)"
  by (auto simp: recipients_ok_def iter_from_def list_all_iff dest: set_dropWhileD)

lemma quiet_DeleteOutFlow: "quiet E now s (DeleteOutFlow k s)"
  by (auto simp: quiet_def DeleteOutFlow_def books_def custody_def holds_frozen_def ledger_ok_def
      GetParams_def recipients_ok_def list_all_iff kv_del_def)

lemma quiet_SetOutFlow:
  assumes "ToAddress f \<noteq> GovernanceAddress E" "ToAddress f \<noteq> ModuleAddress E ''payment''"
  shows "quiet E now s (SetOutFlow a f s)"
  using assms set_kv_set_subset [of "(a, flow_byte (FlowStatus f), ToAddress f)" "Rate f" "outFlows s"]
  by (auto simp: quiet_def SetOutFlow_def books_def custody_def holds_frozen_def ledger_ok_def
      GetParams_def recipients_ok_def list_all_iff)

lemma quiet_fold_SetOutFlow:
  assumes "\<forall>f \<in> set fs. ToAddress f \<noteq> GovernanceAddress E \<and> ToAddress f \<noteq> ModuleAddress E ''payment''"
  shows "quiet E now s (fold (SetOutFlow a) fs s)"
  using assms
proof (induction fs arbitrary: s)
  case (Cons f fs)
  then have "quiet E now s (SetOutFlow a f s)" by (simp add: quiet_SetOutFlow)
  also have "quiet E now (SetOutFlow a f s) (fold (SetOutFlow a) (f # fs) s)" using Cons by simp
  finally show ?case .
qed simp

definition good_flows :: "'b payment_env \<Rightarrow> OutFlow list \<Rightarrow> bool" where
  "good_flows E fs = list_all (\<lambda>f. ToAddress f \<noteq> GovernanceAddress E \<and> ToAddress f \<noteq> ModuleAddress E ''payment'') fs"

lemma settle_flows_quiet:
  assumes "settle_flows E ctx limit a flows count tot upd s = (Ok (c, tr, fs, e), s')"
    "bank_laws E" "recipients_ok E flows" "good_flows E upd"
  shows "quiet E (BlockTime ctx) s s' \<and> good_flows E fs"
  using assms
proof (induction E ctx limit a flows count tot upd s rule: settle_flows.induct)
  case (2 E ctx limit a x st toAddr rate flows count tot upd s)
  let ?ch = "WithRateChange (NewDefaultStreamRecordChangeWithAddr toAddr) (- rate)"
  have to: "toAddr \<noteq> GovernanceAddress E" "toAddr \<noteq> ModuleAddress E ''payment''" "recipients_ok E flows"
    using 2(4) by (auto simp: recipients_ok_def)
  show ?case
  proof (cases "count \<ge> limit \<or> x \<noteq> a \<or> flow_status st = OUT_FLOW_STATUS_FROZEN")
    case True
    with 2 show ?thesis by (auto split: if_splits)
  next
    case False
    obtain out t where u: "UpdateStreamRecordByAddr E ctx ?ch s = (out, t)" by (cases "UpdateStreamRecordByAddr E ctx ?ch s")
    with False 2(2) obtain r where r: "out = Ok r" by (cases out) (auto split: if_splits)
    have "quiet E (BlockTime ctx) s t"
      by (rule quiet_by_addr [OF u [unfolded r] 2(3)]) (use to in \<open>simp_all add: change_defs\<close>)
    also have "quiet E (BlockTime ctx) t (DeleteOutFlow (x, st, toAddr) t)" by (rule quiet_DeleteOutFlow)
    finally have q: "quiet E (BlockTime ctx) s (DeleteOutFlow (x, st, toAddr) t)" .
    have "quiet E (BlockTime ctx) (DeleteOutFlow (x, st, toAddr) t) s' \<and> good_flows E fs"
      by (rule 2(1)) (use False u r 2 to in \<open>auto simp: good_flows_def\<close>)
    with q show ?thesis using quiet_trans by blast
  qed
qed simp

lemma quiet_set_frozen:
  assumes hold: "holds_frozen s (Account r) (worth r)" and fz: "Status r = STREAM_ACCOUNT_STATUS_FROZEN"
    and run: "SetStreamRecord r s = (Ok u, s')" and rok: "record_ok now r"
  shows "quiet E now s s'"
proof -
  have s': "s' = s\<lparr>streamRecords := kv_set (Account r) r (streamRecords s)\<rparr>" and chk: "CheckStreamRecord r"
    using run by (auto simp: SetStreamRecord_Ok)
  have led: "ledger_ok E now s' \<and> books now s' = books now s \<and>
      (\<forall>a w. holds_frozen s a w \<longrightarrow> holds_frozen s' a w)" if "ledger_ok E now s"
  proof (intro conjI allI impI)
    have kv: "kv_ok (streamRecords s)" using that by (simp add: ledger_ok_def)
    have "Account r \<noteq> ModuleAddress E ''payment''"
      using hold that by (auto simp: holds_frozen_def ledger_ok_def list_all_iff dest!: map_of_SomeD)
    moreover have "Account r \<noteq> GovernanceAddress E" using hold gov_not_frozen [OF that] by metis
    ultimately show "ledger_ok E now s'" unfolding s' using that rok chk by (intro ledger_ok_set) auto
    show "books now s' = books now s"
      using books_set [OF that, of r] hold fz by (auto simp: s' holds_frozen_def worth_at_def)
    show "holds_frozen s' a w" if "holds_frozen s a w" for a w
      using that hold fz kv by (auto simp: s' holds_frozen_def kv.get_put)
  qed
  then show ?thesis by (simp add: quiet_def s' custody_def)
qed

lemma settle_account_quiet:
  assumes run: "settle_account E ctx limit t a r count s = (Ok c, s')"
    and laws: "bank_laws E" and led: "ledger_ok E (BlockTime ctx) s" and rec: "recipients_ok E (outFlows s)"
    and r: "GetStreamRecord ctx a s = (r, True)" "Status r = STREAM_ACCOUNT_STATUS_FROZEN"
  shows "quiet E (BlockTime ctx) s s'"
proof -
  let ?now = "BlockTime ctx"
  from run obtain c1 tr fs e s1 where
    fl: "settle_flows E ctx limit a (iter_from a False (outFlows s)) count 0 [] s = (Ok (c1, tr, fs, e), s1)"
    by (auto simp: settle_account_def andthen_eq_Ok)
  define s2 where "s2 = fold (SetOutFlow a) fs s1"
  define s3 where "s3 = (if e then RemoveAutoSettleRecord t a s2 else s2)"
  define q where "q = r\<lparr>NetflowRate := NetflowRate r + tr, FrozenNetflowRate := FrozenNetflowRate r + (- tr)\<rparr>"
  have fin: "SetStreamRecord q s3 = (Ok (), s')"
    using run fl unfolding settle_account_def s2_def s3_def q_def
    by (auto simp: Let_def andthen_eq_Ok split: if_splits)
  have "quiet E ?now s s1 \<and> good_flows E fs"
    by (rule settle_flows_quiet [OF fl laws]) (simp_all add: recipients_ok_iter rec good_flows_def)
  moreover from this have "quiet E ?now s1 s2"
    unfolding s2_def by (intro quiet_fold_SetOutFlow) (auto simp: good_flows_def list_all_iff)
  moreover have "quiet E ?now s2 s3"
    by (simp add: s3_def RemoveAutoSettleRecord_def quiet_def ledger_ok_def books_def custody_def holds_frozen_def)
  ultimately have q3: "quiet E ?now s s3" using quiet_trans by blast
  have q: "Account q = a" "worth q = worth r" "Status q = STREAM_ACCOUNT_STATUS_FROZEN" "record_ok ?now q"
    using r GetStreamRecord_ok(1,2) [OF led, of a] by (auto simp: q_def record_ok_def)
  have "holds_frozen s a (worth r)"
    using r by (auto simp: GetStreamRecord_def holds_frozen_def split: option.splits)
  then have "holds_frozen s3 (Account q) (worth q)" using q3 led by (simp add: quiet_def q)
  then have "quiet E ?now s3 s'" using fin q by (intro quiet_set_frozen) auto
  with q3 show ?thesis by (rule quiet_trans)
qed

lemma update_then_set:
  assumes "GetStreamRecord ctx a s = (r, True)" "UpdateStreamRecord E ctx r (NewDefaultStreamRecordChangeWithAddr a) s = (Ok r', t)"
    "SetStreamRecord r' t = (Ok u, s')"
  shows "UpdateStreamRecordByAddr E ctx (NewDefaultStreamRecordChangeWithAddr a) s = (Ok r', s')"
  using assms by (simp add: UpdateStreamRecordByAddr_def by_addr_def change_defs)

lemma stored_status:
  assumes "ledger_ok E now s" "GetStreamRecord ctx a s = (r, True)" "Status r \<noteq> STREAM_ACCOUNT_STATUS_ACTIVE"
  shows "Status r = STREAM_ACCOUNT_STATUS_FROZEN"
  using assms
  by (auto simp: GetStreamRecord_def ledger_ok_def list_all_iff CheckStreamRecord_def
      split: option.splits dest!: map_of_SomeD)

lemma UpdateStreamRecord_Account:
  "UpdateStreamRecord E ctx r ch s = (Ok r', s') \<Longrightarrow> Account r' = Account r"
  unfolding UpdateStreamRecord_def using su.upd_rates by blast

lemma settle_active_record:
  assumes laws: "bank_laws E" and led: "ledger_ok E (BlockTime ctx) s"
    and g: "GetStreamRecord ctx a s = (r, True)"
    and u: "UpdateStreamRecord E ctx r (NewDefaultStreamRecordChangeWithAddr a) s = (Ok r', t)"
    and set: "SetStreamRecord r' t = (Ok x, s')"
  shows "quiet E (BlockTime ctx) s s'" "GetStreamRecord ctx a s' = (r', True)"
proof -
  have "a \<noteq> ModuleAddress E ''payment''"
    using g led by (auto simp: GetStreamRecord_def ledger_ok_def list_all_iff split: option.splits dest!: map_of_SomeD)
  then show "quiet E (BlockTime ctx) s s'"
    by (intro quiet_by_addr [OF update_then_set [OF g u set] laws]) (simp_all add: change_defs)
  have "Account r' = a"
    using UpdateStreamRecord_Account [OF u] g by (auto simp: GetStreamRecord_def split: option.splits)
  then show "GetStreamRecord ctx a s' = (r', True)"
    using set by (auto simp: SetStreamRecord_Ok GetStreamRecord_def map_of_kv_set)
qed

lemma auto_settle_loop_quiet:
  assumes "auto_settle_loop E ctx limit records count s = (Ok (), s')"
    "bank_laws E" "ledger_ok E (BlockTime ctx) s" "recipients_ok E (outFlows s)" "Forced ctx"
  shows "quiet E (BlockTime ctx) s s'"
  using assms
proof (induction records arbitrary: count s)
  case (Cons rec rest)
  let ?now = "BlockTime ctx"
  obtain t a x where rec: "rec = ((t, a), x)" by (cases rec) auto
  let ?t = "wrap_int64 (int t)" and ?ch = "NewDefaultStreamRecordChangeWithAddr a"
  have tail: "quiet E ?now s s'" if "auto_settle_loop E ctx limit rest c s1 = (Ok (), s')" "quiet E ?now s s1" for c s1
    using Cons.IH [OF that(1)] Cons.prems that(2) quiet_trans by (auto simp: quiet_def)
  have settle: "quiet E ?now s s'"
    if "andthen (settle_account E ctx limit ?t a r c s1) (\<lambda>c s. auto_settle_loop E ctx limit rest c s) = (Ok (), s')"
      "GetStreamRecord ctx a s1 = (r, True)" "Status r \<noteq> STREAM_ACCOUNT_STATUS_ACTIVE" "quiet E ?now s s1" for r c s1
  proof -
    from that(1) obtain c2 s2 where sa: "settle_account E ctx limit ?t a r c s1 = (Ok c2, s2)"
      and lp: "auto_settle_loop E ctx limit rest c2 s2 = (Ok (), s')" by (auto simp: andthen_eq_Ok)
    have "ledger_ok E ?now s1" "recipients_ok E (outFlows s1)"
      using that(4) Cons.prems by (auto simp: quiet_def)
    with settle_account_quiet [OF sa Cons.prems(2)] that(2,3) have "quiet E ?now s1 s2"
      using stored_status by blast
    with that(4) tail [OF lp] quiet_trans show ?thesis by blast
  qed
  obtain r found where g: "GetStreamRecord ctx a s = (r, found)" by (cases "GetStreamRecord ctx a s")
  note run = Cons.prems(1) [unfolded rec auto_settle_loop.simps g]
  show ?case
  proof (cases "count \<ge> limit \<or> ?t > ?now")
    case True
    then have "s' = s" using run by (auto split: if_splits)
    then show ?thesis by simp
  next
    case go: False
    show ?thesis
    proof (cases "found \<and> Status r = STREAM_ACCOUNT_STATUS_ACTIVE")
      case False
      have "auto_settle_loop E ctx limit rest count s = (Ok (), s') \<or>
          found \<and> andthen (settle_account E ctx limit ?t a r count s)
            (\<lambda>c s. auto_settle_loop E ctx limit rest c s) = (Ok (), s')"
        using run go False by (cases found) (simp_all split: if_splits)
      then show ?thesis using tail settle [of r count s] g False by auto
    next
      case True
      obtain out s1 where u: "UpdateStreamRecord E ctx r ?ch s = (out, s1)" by (cases "UpdateStreamRecord E ctx r ?ch s")
      show ?thesis
      proof (cases out)
        case (Err e)
        with u Cons.prems(5) show ?thesis by (simp add: UpdateStreamRecord_def update_rec_forced_no_Err)
      next
        case Panic
        with u run go True show ?thesis by simp
      next
        case (Ok r1)
        with u run go True obtain s2 where set: "SetStreamRecord r1 s1 = (Ok (), s2)"
          and k: "(if Status r1 = STREAM_ACCOUNT_STATUS_ACTIVE then auto_settle_loop E ctx limit rest (count + 1) s2
            else if count + 1 \<ge> limit then (Ok (), s2)
            else if ExistsAutoResumeRecord ?t a s2 then auto_settle_loop E ctx limit rest (count + 1) s2
            else andthen (settle_account E ctx limit ?t a r1 (count + 1) s2)
              (\<lambda>c s. auto_settle_loop E ctx limit rest c s)) = (Ok (), s')"
          by (auto simp: andthen_eq_Ok)
        have q: "quiet E ?now s s2" "GetStreamRecord ctx a s2 = (r1, True)"
          using settle_active_record [OF Cons.prems(2,3) _ _ set] g u Ok True by auto
        show ?thesis
          using k q tail [of "count + 1" s2] settle [of r1 "count + 1" s2] by (auto split: if_splits)
      qed
    qed
  qed
qed simp

lemma AutoSettle_quiet:
  assumes "AutoSettle E ctx s = (Ok (), s')" "bank_laws E" "ledger_ok E (BlockTime ctx) s"
    "recipients_ok E (outFlows s)" "Forced ctx"
  shows "quiet E (BlockTime ctx) s s'"
  using auto_settle_loop_quiet assms unfolding AutoSettle_def by blast


section \<open>Storing an updated record\<close>

definition pending :: "'b pay_state \<Rightarrow> int" where
  "pending s = kv_sum (\<lambda>_ d. Amount d) (delayedWithdrawals s)"

definition liabilities :: "int \<Rightarrow> 'b pay_state \<Rightarrow> int" where
  "liabilities now s = books now s + pending s"

lemma ledger_ok_cong:
  "streamRecords t = streamRecords s \<Longrightarrow> ledger_ok E now t = ledger_ok E now s"
  "streamRecords t = streamRecords s \<Longrightarrow> books now t = books now s"
  by (simp_all add: ledger_ok_def books_def)

text \<open>
  A record that was read, updated and changed in its flow count only is written back to a state
  that differs from the updated one outside the stream records.
\<close>

lemma store_updated:
  assumes led: "ledger_ok E (BlockTime ctx) s" and laws: "bank_laws E"
    and a: "a \<noteq> ModuleAddress E ''payment''"
    and gov: "a = GovernanceAddress E \<Longrightarrow> 0 \<le> NetflowRate (fst (GetStreamRecord ctx a s)) + RateChange ch"
    and u: "UpdateStreamRecord E ctx (fst (GetStreamRecord ctx a s)) ch s = (Ok r', t)"
    and t2: "streamRecords t2 = streamRecords t" "bank t2 = bank t" "payParams t2 = payParams t"
    and set: "SetStreamRecord (r'\<lparr>OutFlowCount := n\<rparr>) t2 = (Ok x, s')"
  shows "books (BlockTime ctx) s' - custody E s' = books (BlockTime ctx) s - custody E s
      + (if Status (fst (GetStreamRecord ctx a s)) = STREAM_ACCOUNT_STATUS_FROZEN then 0
         else StaticBalanceChange ch)"
    "ledger_ok E (BlockTime ctx) s'" "frame t2 s'"
    "\<forall>b. b \<noteq> a \<longrightarrow> b \<noteq> GovernanceAddress E \<longrightarrow> map_of (streamRecords s') b = map_of (streamRecords s) b"
proof -
  let ?r = "fst (GetStreamRecord ctx a s)" and ?now = "BlockTime ctx" and ?q = "r'\<lparr>OutFlowCount := n\<rparr>"
  note g = GetStreamRecord_ok [OF led, of a]
  have gr: "Account ?r = GovernanceAddress E \<Longrightarrow> gov_record_ok E ?r \<and> 0 \<le> NetflowRate ?r + RateChange ch"
    using gov g by simp
  have rr: "update_rec (CallDepth ctx) E ctx ?r ch s = (Ok r', t)" using u by (simp add: UpdateStreamRecord_def)
  have am: "Account ?r \<noteq> ModuleAddress E ''payment''" using g a by simp
  have sp: "update_spec E ?now (if Status ?r = STREAM_ACCOUNT_STATUS_FROZEN then 0 else StaticBalanceChange ch) ?r s r' t"
    by (rule update_rec_spec(1) [OF rr laws led g(1) am]) (rule gr)
  note sp = sp [unfolded update_spec_def]
  have go: "streamRecords t = streamRecords s \<and> gov_record_ok E r'" if "a = GovernanceAddress E"
    by (rule update_rec_spec(2) [OF rr laws led g(1) am]) (use gr that g(2) in auto)
  have s': "s' = t2\<lparr>streamRecords := kv_set a ?q (streamRecords t2)\<rparr>" and chk: "CheckStreamRecord ?q"
    using set sp g(2) by (auto simp: SetStreamRecord_Ok)
  have ledt: "ledger_ok E ?now t2" and bt: "books ?now t2 = books ?now t"
    using sp t2 by (simp_all add: ledger_ok_cong [of t2 t])
  have cus: "custody E s' = custody E t" using t2 by (simp add: s' custody_def GetParams_def)
  have same: "map_of (streamRecords t2) a = map_of (streamRecords s) a"
    using sp go t2 g(2) by (cases "a = GovernanceAddress E") auto
  show "books ?now s' - custody E s' = books ?now s - custody E s
      + (if Status ?r = STREAM_ACCOUNT_STATUS_FROZEN then 0 else StaticBalanceChange ch)"
    using sp books_set [OF ledt, of ?q] g(2,4) same bt unfolding cus by (simp add: s')
  have "ledger_ok E ?now (t2\<lparr>streamRecords := kv_set (Account ?q) ?q (streamRecords t2)\<rparr>)"
    by (rule ledger_ok_set) (use ledt sp a go g chk in \<open>auto simp: record_ok_def gov_record_ok_def\<close>)
  then show "ledger_ok E ?now s'" using sp g(2) by (simp add: s')
  show "frame t2 s'" by (simp add: s' frame_set)
  show "\<forall>b. b \<noteq> a \<longrightarrow> b \<noteq> GovernanceAddress E \<longrightarrow> map_of (streamRecords s') b = map_of (streamRecords s) b"
    using sp t2 by (simp add: s' map_of_kv_set)
qed

section \<open>Fee charging\<close>

definition plain_account :: "'b payment_env \<Rightarrow> addr \<Rightarrow> bool" where
  "plain_account E a \<longleftrightarrow> a \<noteq> GovernanceAddress E \<and> a \<noteq> ModuleAddress E ''payment''"

definition plain_flows :: "'b payment_env \<Rightarrow> UserFlows \<Rightarrow> bool" where
  "plain_flows E u \<longleftrightarrow> plain_account E (From u) \<and> list_all (\<lambda>f. plain_account E (ToAddress f)) (Flows u)"

definition balanced :: "'b payment_env \<Rightarrow> int \<Rightarrow> 'b pay_state \<Rightarrow> 'b pay_state \<Rightarrow> bool" where
  "balanced E now s s' \<longleftrightarrow> ledger_ok E now s' \<and>
     books now s' - custody E s' = books now s - custody E s \<and>
     delayedWithdrawals s' = delayedWithdrawals s \<and> payParams s' = payParams s"

lemma balanced_trans [trans]: "balanced E now s t \<Longrightarrow> balanced E now t u \<Longrightarrow> balanced E now s u"
  by (simp add: balanced_def)

lemma quiet_balanced: "quiet E now s s' \<Longrightarrow> ledger_ok E now s \<Longrightarrow> balanced E now s s'"
  by (simp add: quiet_def balanced_def)

lemma apply_changes_quiet:
  assumes "apply_changes E ctx cs s = (Ok (), s')" "bank_laws E"
    "\<And>c. c \<in> set cs \<Longrightarrow> plain_account E (Addr c) \<and> StaticBalanceChange c = 0 \<and> LockBalanceChange c = 0"
  shows "quiet E (BlockTime ctx) s s'"
  using assms
proof (induction cs arbitrary: s)
  case (Cons c cs)
  from Cons.prems(1) obtain r t where u: "UpdateStreamRecordByAddr E ctx c s = (Ok r, t)"
    and rest: "apply_changes E ctx cs t = (Ok (), s')" by (auto simp: andthen_eq_Ok map_err_eq_Ok)
  have "quiet E (BlockTime ctx) s t"
    by (rule quiet_by_addr [OF u Cons.prems(2)]) (use Cons.prems(3) [of c] in \<open>auto simp: plain_account_def\<close>)
  also have "quiet E (BlockTime ctx) t s'" by (rule Cons.IH [OF rest Cons.prems(2)]) (use Cons.prems(3) in auto)
  finally show ?case .
qed simp

lemma rate_changes_sum [simp]:
  "sum_at Addr StaticBalanceChange a (rate_changes fs) = 0"
  "sum_at Addr LockBalanceChange a (rate_changes fs) = 0"
  "sum_at Addr RateChange a (rate_changes fs) = sum_at ToAddress Rate a fs"
  by (induction fs) (auto simp: rate_changes_def sum_at_Cons change_defs)

lemma merged_rate_change:
  assumes "c \<in> set (MergeStreamRecordChanges E (rate_changes fs))"
  shows "Addr c \<in> ToAddress ` set fs" "StaticBalanceChange c = 0" "LockBalanceChange c = 0"
    "FrozenRateChange c = 0"
proof -
  let ?cs = "rate_changes fs"
  have A: "Addr ` set ?cs = ToAddress ` set fs" by (force simp: rate_changes_def change_defs)
  have "Addr c \<in> ToAddress ` set fs \<and> StaticBalanceChange c = 0 \<and> LockBalanceChange c = 0 \<and> FrozenRateChange c = 0"
  proof (cases "1 < length ?cs")
    case True
    note m = merged_changes [OF True, where E = E]
    from m(2) assms A have "Addr c \<in> ToAddress ` set fs" by blast
    moreover have "StaticBalanceChange c = 0 \<and> LockBalanceChange c = 0 \<and> FrozenRateChange c = 0"
      using m(4) [OF assms] by (cases c) simp
    ultimately show ?thesis by simp
  next
    case False
    then have "c \<in> set ?cs" using assms by (simp add: MergeStreamRecordChanges_def split: if_splits)
    then show ?thesis by (auto simp: rate_changes_def change_defs)
  qed
  then show "Addr c \<in> ToAddress ` set fs" "StaticBalanceChange c = 0" "LockBalanceChange c = 0"
    "FrozenRateChange c = 0" by auto
qed

lemma apply_rate_changes_quiet:
  assumes "ApplyStreamRecordChanges E ctx (rate_changes fs) s = (Ok (), s')" "bank_laws E"
    "list_all (\<lambda>f. plain_account E (ToAddress f)) fs"
  shows "quiet E (BlockTime ctx) s s'"
proof (rule apply_changes_quiet [OF _ assms(2)])
  show "apply_changes E ctx (MergeStreamRecordChanges E (rate_changes fs)) s = (Ok (), s')"
    using assms(1) by (simp add: ApplyStreamRecordChanges_def)
  fix c
  assume "c \<in> set (MergeStreamRecordChanges E (rate_changes fs))"
  from merged_rate_change [OF this] assms(3)
  show "plain_account E (Addr c) \<and> StaticBalanceChange c = 0 \<and> LockBalanceChange c = 0"
    by (auto simp: list_all_iff)
qed

lemma mergeOutFlows_loop_only:
  "streamRecords (snd (mergeOutFlows_loop a st fs d s)) = streamRecords s \<and>
   bank (snd (mergeOutFlows_loop a st fs d s)) = bank s \<and>
   payParams (snd (mergeOutFlows_loop a st fs d s)) = payParams s \<and>
   delayedWithdrawals (snd (mergeOutFlows_loop a st fs d s)) = delayedWithdrawals s"
  by (induction a st fs d s rule: mergeOutFlows_loop.induct)
    (simp_all add: Let_def SetOutFlow_def DeleteOutFlow_def split: option.splits)

lemmas mergeOutFlows_only = mergeOutFlows_loop_only [where d = 0, folded mergeOutFlows_def]

lemma UpdateStreamRecord_frame: "UpdateStreamRecord E ctx r ch s = (out, t) \<Longrightarrow> frame s t"
  unfolding UpdateStreamRecord_def by (drule su.upd_keeps) (simp add: keeps_rates_def)

lemma store_flows_balanced:
  assumes led: "ledger_ok E (BlockTime ctx) s" and laws: "bank_laws E" and pl: "plain_account E a"
    and up: "UpdateStreamRecord E ctx (fst (GetStreamRecord ctx a s)) ch s = (Ok r, t)"
    and t2: "streamRecords t2 = streamRecords t \<and> bank t2 = bank t \<and> payParams t2 = payParams t \<and>
      delayedWithdrawals t2 = delayedWithdrawals t \<and> StaticBalanceChange ch = 0"
    and set: "SetStreamRecord (r\<lparr>OutFlowCount := n\<rparr>) t2 = (Ok (), s1)"
  shows "balanced E (BlockTime ctx) s s1"
proof -
  note st = store_updated [OF led laws _ _ up _ _ _ set]
  have f: "frame s t" using up by (rule UpdateStreamRecord_frame)
  have f2: "frame t2 s1" using st(3) pl t2 by (simp add: plain_account_def)
  show ?thesis
    using st(1,2) pl t2 frame_simps [OF f] frame_simps [OF f2] by (simp add: balanced_def plain_account_def)
qed

lemma applyActiveUserFlows_balanced:
  assumes run: "applyActiveUserFlows E ctx u (From u) (fst (GetStreamRecord ctx (From u) s)) s = (Ok (), s')"
    and laws: "bank_laws E" and led: "ledger_ok E (BlockTime ctx) s" and pl: "plain_flows E u"
  shows "balanced E (BlockTime ctx) s s'"
proof -
  let ?now = "BlockTime ctx" and ?r = "fst (GetStreamRecord ctx (From u) s)"
  let ?ch = "WithRateChange (NewDefaultStreamRecordChangeWithAddr (From u)) (- total_rate (Flows u))"
  from run obtain r t n s1 where
    up: "UpdateStreamRecord E ctx ?r ?ch s = (Ok r, t)" and
    set: "SetStreamRecord (r\<lparr>OutFlowCount := n\<rparr>) (snd (MergeActiveOutFlows (From u) (Flows u) t)) = (Ok (), s1)" and
    ap: "ApplyStreamRecordChanges E ctx (rate_changes (Flows u)) s1 = (Ok (), s')"
    by (auto simp: applyActiveUserFlows_def Let_def andthen_eq_Ok map_err_eq_Ok case_prod_beta)
  have "balanced E ?now s s1"
    by (rule store_flows_balanced [OF led laws _ up _ set])
      (use pl in \<open>simp_all add: plain_flows_def change_defs MergeActiveOutFlows_def mergeOutFlows_only\<close>)
  also have "balanced E ?now s1 s'"
  proof (rule quiet_balanced)
    show "quiet E ?now s1 s'"
      by (rule apply_rate_changes_quiet [OF ap laws]) (use pl in \<open>simp add: plain_flows_def\<close>)
    show "ledger_ok E ?now s1" using calculation by (simp add: balanced_def)
  qed
  finally show ?thesis .
qed

lemma applyFrozenUserFlows_split:
  assumes run: "applyFrozenUserFlows E ctx u a r s = (Ok (), s')"
  obtains as fs q t n s1 where
    "set as \<subseteq> set (Flows u)" "set fs \<subseteq> set (Flows u)"
    "UpdateStreamRecord E ctx r (WithFrozenRateChange (WithRateChange
        (NewDefaultStreamRecordChangeWithAddr a) (- total_rate as)) (- total_rate fs)) s = (Ok q, t)"
    "SetStreamRecord (q\<lparr>OutFlowCount := n\<rparr>)
        (snd (MergeFrozenOutFlows a fs (snd (MergeActiveOutFlows a as t)))) = (Ok (), s1)"
    "ApplyStreamRecordChanges E ctx (rate_changes as) s1 = (Ok (), s')"
proof -
  define as where "as = filter (\<lambda>f. GetOutFlow (Account r) OUT_FLOW_STATUS_ACTIVE (ToAddress f) s \<noteq> None) (Flows u)"
  define fs where "fs = filter (\<lambda>f. \<not> GetOutFlow (Account r) OUT_FLOW_STATUS_ACTIVE (ToAddress f) s \<noteq> None) (Flows u)"
  have "Forced ctx" using run by (auto simp: applyFrozenUserFlows_def split: if_splits)
  then have "andthen (map_err ErrApply (UpdateStreamRecord E ctx r
       (WithFrozenRateChange (WithRateChange (NewDefaultStreamRecordChangeWithAddr a)
           (- total_rate as)) (- total_rate fs)) s)) (\<lambda>r s.
              let (deltaActive, s) = MergeActiveOutFlows a as s;
                  (deltaFrozen, s) = MergeFrozenOutFlows a fs s;
                  r = r\<lparr>OutFlowCount := wrap_uint64 (wrap_int64 (wrap_int64 (int (OutFlowCount r))
                           + deltaActive) + deltaFrozen)\<rparr>
              in andthen (SetStreamRecord r s) (\<lambda>_ s.
                   map_err ErrApply (ApplyStreamRecordChanges E ctx (rate_changes as) s))) = (Ok (), s')"
    using run unfolding applyFrozenUserFlows_def as_def fs_def by (simp only: Let_def not_True_eq_False if_False)
  moreover have "set as \<subseteq> set (Flows u)" "set fs \<subseteq> set (Flows u)" by (auto simp: as_def fs_def)
  ultimately show thesis
    using that by (auto simp: Let_def andthen_eq_Ok map_err_eq_Ok case_prod_beta)
qed

lemma applyFrozenUserFlows_balanced:
  assumes run: "applyFrozenUserFlows E ctx u (From u) (fst (GetStreamRecord ctx (From u) s)) s = (Ok (), s')"
    and laws: "bank_laws E" and led: "ledger_ok E (BlockTime ctx) s" and pl: "plain_flows E u"
  shows "balanced E (BlockTime ctx) s s'"
proof -
  let ?now = "BlockTime ctx"
  from run obtain as fs r t n s1 where sub: "set as \<subseteq> set (Flows u)" and
    up: "UpdateStreamRecord E ctx (fst (GetStreamRecord ctx (From u) s)) (WithFrozenRateChange (WithRateChange
        (NewDefaultStreamRecordChangeWithAddr (From u)) (- total_rate as)) (- total_rate fs)) s = (Ok r, t)" and
    set: "SetStreamRecord (r\<lparr>OutFlowCount := n\<rparr>)
        (snd (MergeFrozenOutFlows (From u) fs (snd (MergeActiveOutFlows (From u) as t)))) = (Ok (), s1)" and
    ap: "ApplyStreamRecordChanges E ctx (rate_changes as) s1 = (Ok (), s')"
    by (rule applyFrozenUserFlows_split)
  have "balanced E ?now s s1"
    by (rule store_flows_balanced [OF led laws _ up _ set])
      (use pl in \<open>simp_all add: plain_flows_def change_defs MergeActiveOutFlows_def MergeFrozenOutFlows_def mergeOutFlows_only\<close>)
  also have "balanced E ?now s1 s'"
  proof (rule quiet_balanced)
    show "quiet E ?now s1 s'"
      by (rule apply_rate_changes_quiet [OF ap laws]) (use pl sub in \<open>auto simp: plain_flows_def list_all_iff\<close>)
    show "ledger_ok E ?now s1" using calculation by (simp add: balanced_def)
  qed
  finally show ?thesis .
qed

lemma apply_user_flows_balanced:
  assumes "apply_user_flows E ctx us s = (Ok (), s')" "bank_laws E" "ledger_ok E (BlockTime ctx) s"
    "list_all (plain_flows E) us"
  shows "balanced E (BlockTime ctx) s s'"
  using assms
proof (induction us arbitrary: s)
  case (Cons u us)
  let ?r = "fst (GetStreamRecord ctx (From u) s)"
  from Cons.prems(1) obtain t where
    st: "(if Status ?r = STREAM_ACCOUNT_STATUS_ACTIVE then applyActiveUserFlows E ctx u (From u) ?r s
          else applyFrozenUserFlows E ctx u (From u) ?r s) = (Ok (), t)"
    and rest: "apply_user_flows E ctx us t = (Ok (), s')"
    by (auto simp: Let_def andthen_eq_Ok)
  have b: "balanced E (BlockTime ctx) s t"
    using st applyActiveUserFlows_balanced [OF _ Cons.prems(2,3)]
      applyFrozenUserFlows_balanced [OF _ Cons.prems(2,3)] Cons.prems(4)
    by (auto split: if_splits)
  also have "balanced E (BlockTime ctx) t s'"
    by (rule Cons.IH [OF rest Cons.prems(2)]) (use b Cons.prems(4) in \<open>auto simp: balanced_def\<close>)
  finally show ?case .
qed (simp add: balanced_def)

lemma user_map_plain:
  assumes "list_all (plain_flows E) us"
  shows "\<forall>(a, fs) \<in> set (fold (\<lambda>u. upsert (From u)
      (\<lambda>fs. (case fs of None \<Rightarrow> [] | Some fs \<Rightarrow> fs) @ Flows u)) us []).
    plain_account E a \<and> list_all (\<lambda>f. plain_account E (ToAddress f)) fs"
  using assms
proof (induction us rule: rev_induct)
  case (snoc u us)
  have ups: "\<forall>(a, fs) \<in> set (upsert (From u) (\<lambda>fs. (case fs of None \<Rightarrow> [] | Some fs \<Rightarrow> fs) @ Flows u) m).
      plain_account E a \<and> list_all (\<lambda>f. plain_account E (ToAddress f)) fs"
    if "\<forall>(a, fs) \<in> set m. plain_account E a \<and> list_all (\<lambda>f. plain_account E (ToAddress f)) fs"
      "plain_flows E u" for m
    using that
    by (induction "From u" "\<lambda>fs. (case fs of None \<Rightarrow> [] | Some fs \<Rightarrow> fs) @ Flows u" m rule: upsert.induct)
      (auto simp: plain_flows_def)
  then show ?case using snoc by simp
qed simp

lemma MergeOutFlows_ToAddress: "ToAddress ` set (MergeOutFlows E fs) \<subseteq> ToAddress ` set fs"
proof (cases "1 < length fs")
  case True
  have "a \<in> ToAddress ` set fs" if "sum_at ToAddress Rate a fs \<noteq> 0" for a
    using that sum_at_absent by metis
  then show ?thesis using merged_flows(3) [OF True, where E = E] by auto
qed (simp add: MergeOutFlows_def)

lemma MergeUserFlows_plain:
  assumes "list_all (plain_flows E) us"
  shows "list_all (plain_flows E) (MergeUserFlows E us)"
proof (cases "1 < length us")
  case True
  then show ?thesis
    using user_map_plain [OF assms] MergeOutFlows_ToAddress [where E = E]
    by (fastforce simp: MergeUserFlows_def Let_def list_all_iff plain_flows_def)
qed (use assms in \<open>simp add: MergeUserFlows_def\<close>)

lemma ApplyUserFlowsList_balanced:
  assumes "ApplyUserFlowsList E ctx us s = (Ok (), s')" "bank_laws E" "ledger_ok E (BlockTime ctx) s"
    "list_all (plain_flows E) us"
  shows "balanced E (BlockTime ctx) s s'"
  using assms(1) unfolding ApplyUserFlowsList_def
  by (rule apply_user_flows_balanced [OF _ assms(2,3) MergeUserFlows_plain [OF assms(4)]])


section \<open>Deposits and withdrawals\<close>

lemma set_over_frozen:
  assumes hold: "holds_frozen s (Account r) w" and led: "ledger_ok E now s"
    and run: "SetStreamRecord r s = (Ok u, s')" and rok: "record_ok now r" and w: "worth_at now r = w + d"
  shows "ledger_ok E now s'" "books now s' = books now s + d" "custody E s' = custody E s" "frame s s'"
proof -
  have s': "s' = s\<lparr>streamRecords := kv_set (Account r) r (streamRecords s)\<rparr>" and chk: "CheckStreamRecord r"
    using run by (auto simp: SetStreamRecord_Ok)
  have "Account r \<noteq> ModuleAddress E ''payment''"
    using hold led by (auto simp: holds_frozen_def ledger_ok_def list_all_iff dest!: map_of_SomeD)
  moreover have "Account r \<noteq> GovernanceAddress E" using hold gov_not_frozen [OF led] by metis
  ultimately show "ledger_ok E now s'" unfolding s' using led rok chk by (intro ledger_ok_set) auto
  show "books now s' = books now s + d"
    using books_set [OF led, of r] hold w by (auto simp: s' holds_frozen_def worth_at_def [of now])
  show "custody E s' = custody E s" "frame s s'" by (simp_all add: s' custody_def frame_set)
qed

lemma try_resume_flows_quiet:
  assumes "try_resume_flows E ctx a flows upd s = (Ok fs, s')"
    "bank_laws E" "recipients_ok E flows" "good_flows E upd"
  shows "quiet E (BlockTime ctx) s s' \<and> good_flows E fs"
  using assms
proof (induction E ctx a flows upd s rule: try_resume_flows.induct)
  case (2 E ctx a x st toAddr rate flows upd s)
  let ?ch = "WithRateChange (NewDefaultStreamRecordChangeWithAddr toAddr) rate"
  have to: "toAddr \<noteq> GovernanceAddress E" "toAddr \<noteq> ModuleAddress E ''payment''" "recipients_ok E flows"
    using 2(4) by (auto simp: recipients_ok_def)
  show ?case
  proof (cases "x = a")
    case False
    with 2 show ?thesis by simp
  next
    case True
    with 2(2) obtain r t where u: "UpdateStreamRecordByAddr E ctx ?ch s = (Ok r, t)"
      and rest: "try_resume_flows E ctx a flows
        (upd @ [\<lparr>ToAddress = toAddr, Rate = rate, FlowStatus = OUT_FLOW_STATUS_ACTIVE\<rparr>])
        (DeleteOutFlow (x, st, toAddr) t) = (Ok fs, s')"
      by (auto simp: andthen_eq_Ok map_err_eq_Ok)
    have "quiet E (BlockTime ctx) s t"
      by (rule quiet_by_addr [OF u 2(3)]) (use to in \<open>simp_all add: change_defs\<close>)
    also have "quiet E (BlockTime ctx) t (DeleteOutFlow (x, st, toAddr) t)" by (rule quiet_DeleteOutFlow)
    finally have q: "quiet E (BlockTime ctx) s (DeleteOutFlow (x, st, toAddr) t)" .
    have "quiet E (BlockTime ctx) (DeleteOutFlow (x, st, toAddr) t) s' \<and> good_flows E fs"
      by (rule 2(1)) (use True u rest 2 to in \<open>auto simp: good_flows_def\<close>)
    with q show ?thesis using quiet_trans by blast
  qed
qed simp

definition credited :: "'b payment_env \<Rightarrow> int \<Rightarrow> int \<Rightarrow> 'b pay_state \<Rightarrow> 'b pay_state \<Rightarrow> bool" where
  "credited E now d s s' \<longleftrightarrow> ledger_ok E now s' \<and>
     books now s' - custody E s' = books now s - custody E s + d \<and>
     delayedWithdrawals s' = delayedWithdrawals s \<and> payParams s' = payParams s"

lemma credited_quiet:
  "quiet E now s t \<Longrightarrow> ledger_ok E now s \<Longrightarrow> credited E now d t u \<Longrightarrow> credited E now d s u"
  by (simp add: quiet_def credited_def)

lemma credited_over_frozen:
  assumes "holds_frozen s (Account r) w" "ledger_ok E now s" "SetStreamRecord r s = (Ok u, s')"
    "record_ok now r" "worth_at now r = w + d"
  shows "credited E now d s s'"
  using set_over_frozen [OF assms] frame_simps [of s s'] by (simp add: credited_def)

lemma credited_queue:
  "credited E now d s t \<Longrightarrow> credited E now d s (t\<lparr>autoSettleRecords := x\<rparr>)"
  "credited E now d s t \<Longrightarrow> credited E now d s (t\<lparr>autoResumeRecords := x\<rparr>)"
  by (simp_all add: credited_def ledger_ok_def books_def custody_def)

lemma resume_now_credited:
  assumes run: "andthen (try_resume_flows E ctx a (iter_from a True (outFlows s)) [] s) (\<lambda>fs s.
        andthen (SetStreamRecord q (fold (SetOutFlow a) fs s)) (\<lambda>_ s. (Ok (), UpdateAutoSettleRecord a x y s)))
      = (Ok (), s')"
    and laws: "bank_laws E" and led: "ledger_ok E (BlockTime ctx) s" and rec: "recipients_ok E (outFlows s)"
    and hold: "holds_frozen s a w"
    and q: "Account q = a" "CrudTimestamp q = BlockTime ctx" "worth q = w + d"
  shows "credited E (BlockTime ctx) d s s'"
proof -
  let ?now = "BlockTime ctx"
  from run obtain fs s1 s2 where
    fl: "try_resume_flows E ctx a (iter_from a True (outFlows s)) [] s = (Ok fs, s1)" and
    st: "SetStreamRecord q (fold (SetOutFlow a) fs s1) = (Ok (), s2)" and
    s': "s' = UpdateAutoSettleRecord a x y s2" by (auto simp: andthen_eq_Ok)
  have q1: "quiet E ?now s s1 \<and> good_flows E fs"
    by (rule try_resume_flows_quiet [OF fl laws]) (simp_all add: recipients_ok_iter rec good_flows_def)
  have "quiet E ?now s1 (fold (SetOutFlow a) fs s1)"
    using q1 by (intro quiet_fold_SetOutFlow) (auto simp: good_flows_def list_all_iff)
  with q1 have quiet: "quiet E ?now s (fold (SetOutFlow a) fs s1)" using quiet_trans by blast
  have "credited E ?now d (fold (SetOutFlow a) fs s1) s2"
    by (rule credited_over_frozen [where w = w, OF _ _ st])
      (use quiet hold led q in \<open>auto simp: quiet_def worth_at_now ledger_ok_now\<close>)
  then show ?thesis unfolding s' using credited_quiet [OF quiet led]
    by (auto simp: UpdateAutoSettleRecord_def RemoveAutoSettleRecord_def SetAutoSettleRecord_def Let_def credited_queue)
qed

lemma TryResume_credited:
  assumes run: "TryResumeStreamRecord E ctx r d s = (Ok (), s')"
    and laws: "bank_laws E" and led: "ledger_ok E (BlockTime ctx) s" and rec: "recipients_ok E (outFlows s)"
    and g: "GetStreamRecord ctx a s = (r, True)" and buf: "BufferBalance r = 0"
  shows "credited E (BlockTime ctx) d s s'"
proof -
  let ?now = "BlockTime ctx" and ?tot = "NetflowRate r + FrozenNetflowRate r" and ?p = "GetParams s"
  let ?exp = "- ?tot * int (ReserveTime (Versioned ?p))"
  have fz: "Status r = STREAM_ACCOUNT_STATUS_FROZEN"
    using run by (auto simp: TryResumeStreamRecord_def split: if_splits)
  have acc: "Account r = a" and rok: "record_ok ?now r"
    using g GetStreamRecord_ok(1,2) [OF led, of a] by auto
  have hold: "holds_frozen s a (worth r)"
    using g fz by (auto simp: GetStreamRecord_def holds_frozen_def split: option.splits)
  have now: "CrudTimestamp q = ?now \<Longrightarrow> record_ok ?now q" for q using led by (rule ledger_ok_now)
  have set: "credited E ?now d t u"
    if "SetStreamRecord q t = (Ok (), u)" "quiet E ?now s t" "Account q = a" "record_ok ?now q"
      "worth_at ?now q = worth r + d" for q t u
    by (rule credited_over_frozen [where w = "worth r", OF _ _ that(1,4,5)])
      (use that hold led in \<open>auto simp: quiet_def\<close>)
  have nz: "\<not> ExistsAutoResumeRecord 0 (Account r) s"
    using run fz by (auto simp: TryResumeStreamRecord_def split: if_splits)
  consider (zero) "?tot = 0" | (low) "?tot \<noteq> 0" "StaticBalance r + d < ?exp"
    | (resume) "?tot \<noteq> 0" "\<not> StaticBalance r + d < ?exp" by linarith
  then show ?thesis
  proof cases
    case zero
    then have "SetStreamRecord (r\<lparr>StaticBalance := StaticBalance r + d, Status := STREAM_ACCOUNT_STATUS_ACTIVE,
        CrudTimestamp := ?now, SettleTimestamp := 0\<rparr>) s = (Ok (), s')"
      using run fz nz by (simp add: TryResumeStreamRecord_def Let_def)
    then show ?thesis by (rule set) (simp_all add: acc now worth_at_now worth_def)
  next
    case low
    then have "SetStreamRecord (r\<lparr>StaticBalance := StaticBalance r + d\<rparr>) s = (Ok (), s')"
      using run fz nz by (simp add: TryResumeStreamRecord_def Let_def)
    then show ?thesis
      by (rule set) (use rok fz in \<open>simp_all add: acc record_ok_def worth_at_def worth_def\<close>)
  next
    case resume
    let ?t = "wrap_int64 (wrap_int64 (?now + quo (StaticBalance r + d) \<bar>?tot\<bar>)
        - wrap_int64 (int (ForcedSettleTime ?p)))"
    let ?q = "r\<lparr>SettleTimestamp := ?t, BufferBalance := ?exp, StaticBalance := StaticBalance r + d - ?exp,
        CrudTimestamp := ?now\<rparr>"
    have run': "(if OutFlowCount r \<le> MaxAutoResumeFlowCount ?p then
        andthen (try_resume_flows E ctx a (iter_from a True (outFlows s)) [] s) (\<lambda>fs s.
          andthen (SetStreamRecord (?q\<lparr>Status := STREAM_ACCOUNT_STATUS_ACTIVE, NetflowRate := ?tot,
              FrozenNetflowRate := 0\<rparr>) (fold (SetOutFlow a) fs s))
            (\<lambda>_ s. (Ok (), UpdateAutoSettleRecord a (SettleTimestamp r) ?t s)))
        else andthen (SetStreamRecord ?q s) (\<lambda>_ s. (Ok (), SetAutoResumeRecord ?now a s))) = (Ok (), s')"
      using run fz nz resume acc by (simp add: TryResumeStreamRecord_def Let_def split: if_splits)
    show ?thesis
    proof (cases "OutFlowCount r \<le> MaxAutoResumeFlowCount ?p")
      case True
      with run' show ?thesis
        by (intro resume_now_credited [OF _ laws led rec hold]) (auto simp: acc worth_def buf)
    next
      case False
      with run' obtain s1 where st: "SetStreamRecord ?q s = (Ok (), s1)" and s': "s' = SetAutoResumeRecord ?now a s1"
        by (auto simp: andthen_eq_Ok)
      have "credited E ?now d s s1"
        by (rule set [OF st]) (simp_all add: acc now worth_at_now worth_def buf)
      then show ?thesis by (simp add: s' SetAutoResumeRecord_def credited_queue)
    qed
  qed
qed

text \<open>
  \<open>frozen_buffers_ok\<close>: a frozen account that is not being resumed has no buffer balance, the
  forced settlement having moved it to the governance account.
\<close>

definition frozen_buffers_ok :: "'b pay_state \<Rightarrow> bool" where
  "frozen_buffers_ok s = list_all (\<lambda>(a, r). Status r = STREAM_ACCOUNT_STATUS_FROZEN \<longrightarrow>
     \<not> ExistsAutoResumeRecord 0 a s \<longrightarrow> BufferBalance r = 0) (streamRecords s)"

lemma static_change_credited:
  assumes laws: "bank_laws E" and led: "ledger_ok E (BlockTime ctx) s" and a: "a \<noteq> ModuleAddress E ''payment''"
    and g: "GetStreamRecord ctx a s = (r, b)" and act: "Status r \<noteq> STREAM_ACCOUNT_STATUS_FROZEN"
    and u: "UpdateStreamRecord E ctx r (WithStaticBalanceChange (NewDefaultStreamRecordChangeWithAddr a) d) s = (Ok r', t)"
    and set: "SetStreamRecord r' t = (Ok x, s')"
  shows "credited E (BlockTime ctx) d s s'"
proof -
  let ?ch = "WithStaticBalanceChange (NewDefaultStreamRecordChangeWithAddr a) d"
  have ch: "Addr ?ch = a" "RateChange ?ch = 0" "StaticBalanceChange ?ch = d" by (simp_all add: change_defs)
  have run: "UpdateStreamRecordByAddr E ctx ?ch s = (Ok r', s')"
    using g u set by (simp add: UpdateStreamRecordByAddr_def by_addr_def ch)
  note bl = UpdateStreamRecordByAddr_ledger [OF run laws led, unfolded ch]
  have gov: "a = GovernanceAddress E \<Longrightarrow> 0 \<le> NetflowRate (fst (GetStreamRecord ctx a s)) + 0"
    using GetStreamRecord_ok(3) [OF led, of a] by (simp add: gov_record_ok_def)
  show ?thesis
    using bl(1,2) [OF a gov] frame_simps [OF bl(3) [OF a gov]] g act by (simp add: credited_def)
qed

lemma credit_deposit_credited:
  assumes run: "credit_deposit E ctx msgTo a d s = (Ok (), s')"
    and laws: "bank_laws E" and led: "ledger_ok E (BlockTime ctx) s" and rec: "recipients_ok E (outFlows s)"
    and buf: "frozen_buffers_ok s" and a: "a \<noteq> ModuleAddress E ''payment''"
  shows "credited E (BlockTime ctx) d s s'"
proof -
  let ?now = "BlockTime ctx"
  obtain r found where g: "GetStreamRecord ctx a s = (r, found)" by (cases "GetStreamRecord ctx a s")
  note gr = GetStreamRecord_ok [OF led, of a, unfolded g fst_conv]
  show ?thesis
  proof (cases found)
    case False
    have none: "map_of (streamRecords s) a = None" using g False by (auto simp: GetStreamRecord_def split: option.splits)
    define q where "q = r\<lparr>Account := a, CrudTimestamp := ?now, StaticBalance := d\<rparr>"
    have r: "r = NewStreamRecord a ?now" using g none by (simp add: GetStreamRecord_def)
    have "SetStreamRecord q s = (Ok (), s')"
      using run g False by (auto simp: credit_deposit_def q_def split: if_splits)
    then have s': "s' = s\<lparr>streamRecords := kv_set (Account q) q (streamRecords s)\<rparr>" and chk: "CheckStreamRecord q"
      by (auto simp: SetStreamRecord_Ok)
    have "ledger_ok E ?now s'" unfolding s'
      by (rule ledger_ok_set [OF led]) (use led a chk in \<open>auto simp: q_def r NewStreamRecord_def gov_record_ok_def intro: ledger_ok_now\<close>)
    moreover have "books ?now s' = books ?now s + d"
      using books_set [OF led, of q] none by (simp add: s' q_def r NewStreamRecord_def worth_at_def worth_def)
    ultimately show ?thesis by (simp add: credited_def s' custody_def)
  next
    case True
    then have g: "GetStreamRecord ctx a s = (r, True)" using g by simp
    have m: "\<exists>r0. (a, r0) \<in> set (streamRecords s) \<and> r = r0\<lparr>Account := a\<rparr>"
      using g by (auto simp: GetStreamRecord_def split: option.splits dest!: map_of_SomeD)
    show ?thesis
    proof (cases "Status r")
      case STREAM_ACCOUNT_STATUS_ACTIVE
      with run g obtain r' t where
        "UpdateStreamRecord E ctx r (WithStaticBalanceChange (NewDefaultStreamRecordChangeWithAddr a) d) s = (Ok r', t)"
        "SetStreamRecord r' t = (Ok (), s')" by (auto simp: credit_deposit_def andthen_eq_Ok)
      then show ?thesis
        using STREAM_ACCOUNT_STATUS_ACTIVE by (intro static_change_credited [OF laws led a g]) auto
    next
      case STREAM_ACCOUNT_STATUS_FROZEN
      with run g have tr: "TryResumeStreamRecord E ctx r d s = (Ok (), s')" by (simp add: credit_deposit_def)
      then have "\<not> ExistsAutoResumeRecord 0 a s"
        using m by (auto simp: TryResumeStreamRecord_def split: if_splits)
      then have "BufferBalance r = 0"
        using buf m STREAM_ACCOUNT_STATUS_FROZEN by (auto simp: frozen_buffers_ok_def list_all_iff)
      then show ?thesis by (rule TryResume_credited [OF tr laws led rec g])
    qed (use run g in \<open>simp add: credit_deposit_def\<close>)
  qed
qed

lemma send_to_module_Ok:
  assumes "send_to_module E a cs s = (Ok (), s')" "bank_laws E" "a \<noteq> ModuleAddress E ''payment''"
  shows "s' = s\<lparr>bank := bank s'\<rparr>" "custody E s' = custody E s + coins_amount cs (FeeDenom (GetParams s))"
  using assms bank_laws_in [OF assms(2) _ assms(3)]
  by (auto simp: send_to_module_def custody_def split: sum.splits)

lemma sweep_Ok:
  assumes "sweep_payment_account E a d s = (Ok d', s')" "bank_laws E" "a \<noteq> ModuleAddress E ''payment''"
  shows "s' = s\<lparr>bank := bank s'\<rparr>" "custody E s' = custody E s + (d' - d)" "d \<le> d'"
proof -
  let ?b = "GetBalance E (bank s) a (FeeDenom (GetParams s))"
  have "d' = d \<and> s' = s \<or> 0 < ?b \<and> d' = d + ?b \<and>
      send_to_module E a [(FeeDenom (GetParams s), ?b)] s = (Ok (), s')"
    using assms(1)
    by (auto simp: sweep_payment_account_def NewCoins_def andthen_eq_Ok Let_def split: if_splits)
  then show "s' = s\<lparr>bank := bank s'\<rparr>" "custody E s' = custody E s + (d' - d)" "d \<le> d'"
    using send_to_module_Ok [OF _ assms(2,3)] by auto
qed

definition sound_at :: "'b payment_env \<Rightarrow> int \<Rightarrow> 'b pay_state \<Rightarrow> bool" where
  "sound_at E now s \<longleftrightarrow> ledger_ok E now s \<and> recipients_ok E (outFlows s) \<and> frozen_buffers_ok s"

lemma Deposit_balanced:
  assumes run: "Deposit E ctx msg s = (Ok (), s')" and laws: "bank_laws E" and snd: "sound_at E (BlockTime ctx) s"
    and cr: "AccFromHex E (DCreator msg) \<noteq> Some (ModuleAddress E ''payment'')"
    and to: "AccFromHex E (DTo msg) \<noteq> Some (ModuleAddress E ''payment'')"
  shows "liabilities (BlockTime ctx) s' - custody E s' = liabilities (BlockTime ctx) s - custody E s"
    "ledger_ok E (BlockTime ctx) s'"
proof -
  let ?now = "BlockTime ctx"
  from run obtain c a s1 d s2 where
    ac: "AccFromHex E (DCreator msg) = Some c" "AccFromHex E (DTo msg) = Some a" "0 \<le> DAmount msg" and
    s1: "send_to_module E c (if DAmount msg = 0 then [] else [(FeeDenom (GetParams s), DAmount msg)]) s = (Ok (), s1)" and
    s2: "sweep_payment_account E a (DAmount msg) s1 = (Ok d, s2)" and
    cd: "credit_deposit E ctx (DTo msg) a d s2 = (Ok (), s')"
    by (auto simp: Deposit_def MustAccAddressFromHex_def NewCoins_def andthen_eq_Ok split: option.splits if_splits)
  have ne: "c \<noteq> ModuleAddress E ''payment''" "a \<noteq> ModuleAddress E ''payment''" using cr to ac by auto
  note f1 = send_to_module_Ok [OF s1 laws ne(1)] and f2 = sweep_Ok [OF s2 laws ne(2)]
  obtain b where s2: "s2 = s\<lparr>bank := b\<rparr>" using f1(1) f2(1) by (cases s; cases s1; cases s2) auto
  have cus: "custody E s2 = custody E s + d" using f1(2) f2(2) by (auto split: if_splits)
  have "credited E ?now d s2 s'"
    by (rule credit_deposit_credited [OF cd laws])
      (use snd ne in \<open>auto simp: s2 sound_at_def ledger_ok_def frozen_buffers_ok_def ExistsAutoResumeRecord_def\<close>)
  then show "liabilities ?now s' - custody E s' = liabilities ?now s - custody E s" "ledger_ok E ?now s'"
    using cus by (auto simp: credited_def liabilities_def pending_def s2 books_def)
qed

lemma bankTransfer_Ok:
  assumes "bankTransfer E c n s = (Ok (), s')" "bank_laws E" "c \<noteq> ModuleAddress E ''payment''"
  shows "s' = s\<lparr>bank := bank s'\<rparr>" "custody E s' = custody E s - n"
proof -
  let ?cs = "if n = 0 then [] else [(FeeDenom (GetParams s), n)]"
  have ok: "SendCoinsFromModuleToAccount E ''payment'' c ?cs (bank s) = Inr (bank s') \<and> s' = s\<lparr>bank := bank s'\<rparr>"
    using assms(1) by (auto simp: bankTransfer_def NewCoins_def andthen_eq_Ok split: if_splits sum.splits)
  then have "GetParams s' = GetParams s" by (metis GetParams_bank(1))
  then show "custody E s' = custody E s - n"
    using bank_laws_out [OF assms(2) conjunct1 [OF ok] assms(3), of "FeeDenom (GetParams s)"]
    by (simp add: custody_def split: if_splits)
  show "s' = s\<lparr>bank := bank s'\<rparr>" using ok by blast
qed

lemma pending_simps:
  assumes "kv_ok (delayedWithdrawals s)"
  shows "pending (RemoveDelayedWithdrawalRecord a s)
      = pending s - (case GetDelayedWithdrawalRecord a s of None \<Rightarrow> 0 | Some d \<Rightarrow> Amount d)"
    "pending (SetDelayedWithdrawalRecord d s)
      = pending s - (case GetDelayedWithdrawalRecord (DAddr d) s of None \<Rightarrow> 0 | Some e \<Rightarrow> Amount e) + Amount d"
  using kv.sum_del [OF assms, of "\<lambda>_. Amount" a] kv.sum_put [OF assms, of "\<lambda>_. Amount" "DAddr d" d]
  by (auto simp: pending_def RemoveDelayedWithdrawalRecord_def SetDelayedWithdrawalRecord_def
      GetDelayedWithdrawalRecord_def split: option.splits)

lemma withdraw_delayed_balanced:
  assumes run: "withdraw_delayed E ctx c n s = (Ok (), s')" and laws: "bank_laws E"
    and led: "ledger_ok E (BlockTime ctx) s" and kv: "kv_ok (delayedWithdrawals s)"
    and c: "c \<noteq> ModuleAddress E ''payment''"
  shows "liabilities (BlockTime ctx) s' - custody E s' = liabilities (BlockTime ctx) s - custody E s
    \<and> ledger_ok E (BlockTime ctx) s'"
proof -
  let ?t = "RemoveDelayedWithdrawalRecord c s"
  from run obtain d where d: "GetDelayedWithdrawalRecord c s = Some d" "Amount d = n"
    and bt: "bankTransfer E c n ?t = (Ok (), s')"
    by (auto simp: withdraw_delayed_def split: option.splits if_splits)
  note f = bankTransfer_Ok [OF bt laws c]
  obtain b where s': "s' = ?t\<lparr>bank := b\<rparr>" using f(1) by auto
  have "custody E ?t = custody E s" by (simp add: RemoveDelayedWithdrawalRecord_def custody_def GetParams_def)
  moreover have "books (BlockTime ctx) s' = books (BlockTime ctx) s" "ledger_ok E (BlockTime ctx) s'"
    using led by (simp_all add: s' RemoveDelayedWithdrawalRecord_def books_def ledger_ok_def)
  moreover have "pending s' = pending s - n" using pending_simps(1) [OF kv, of c] d by (simp add: s' pending_def)
  ultimately show ?thesis using f(2) by (simp add: liabilities_def)
qed

lemma check_withdrawer_state: "check_withdrawer E c a s = (Ok u, s') \<Longrightarrow> s' = s"
  by (auto simp: check_withdrawer_def MustAccAddressFromHex_def andthen_eq_Ok split: option.splits if_splits)

lemma withdraw_stream_balanced:
  assumes run: "withdraw_stream E ctx c a n s = (Ok (), s')" and laws: "bank_laws E"
    and led: "ledger_ok E (BlockTime ctx) s" and kv: "kv_ok (delayedWithdrawals s)"
    and c: "c \<noteq> ModuleAddress E ''payment''"
  shows "liabilities (BlockTime ctx) s' - custody E s' = liabilities (BlockTime ctx) s - custody E s
    \<and> ledger_ok E (BlockTime ctx) s'"
proof -
  let ?now = "BlockTime ctx"
  from run obtain r r' t s1 where g: "GetStreamRecord ctx a s = (r, True)"
    and act: "Status r \<noteq> STREAM_ACCOUNT_STATUS_FROZEN"
    and u: "UpdateStreamRecord E ctx r (WithStaticBalanceChange (NewDefaultStreamRecordChangeWithAddr a) (- n)) s = (Ok r', t)"
    and set: "SetStreamRecord r' t = (Ok (), s1)"
    and fin: "bankTransfer E c n s1 = (Ok (), s') \<or> (\<exists>e. GetDelayedWithdrawalRecord c s1 = None \<and>
        s' = SetDelayedWithdrawalRecord \<lparr>DAddr = c, Amount = n, DFrom = a, UnlockTimestamp = e\<rparr> s1)"
    by (auto simp: withdraw_stream_def andthen_eq_Ok dest!: check_withdrawer_state split: prod.splits bool.splits if_splits option.splits)
  have "a \<noteq> ModuleAddress E ''payment''"
    using g led by (auto simp: GetStreamRecord_def ledger_ok_def list_all_iff split: option.splits dest!: map_of_SomeD)
  then have cr: "credited E ?now (- n) s s1" by (rule static_change_credited [OF laws led _ g act u set])
  from fin show ?thesis
  proof
    assume bt: "bankTransfer E c n s1 = (Ok (), s')"
    note f = bankTransfer_Ok [OF bt laws c]
    obtain b where s': "s' = s1\<lparr>bank := b\<rparr>" using f(1) by auto
    have "books ?now s' = books ?now s1" "ledger_ok E ?now s' = ledger_ok E ?now s1" "pending s' = pending s1"
      by (simp_all add: s' books_def ledger_ok_def pending_def)
    then show ?thesis using cr f(2) by (simp add: credited_def liabilities_def pending_def)
  next
    assume "\<exists>e. GetDelayedWithdrawalRecord c s1 = None \<and>
        s' = SetDelayedWithdrawalRecord \<lparr>DAddr = c, Amount = n, DFrom = a, UnlockTimestamp = e\<rparr> s1"
    then obtain e where none: "GetDelayedWithdrawalRecord c s1 = None"
      and s': "s' = SetDelayedWithdrawalRecord \<lparr>DAddr = c, Amount = n, DFrom = a, UnlockTimestamp = e\<rparr> s1" by blast
    have "kv_ok (delayedWithdrawals s1)" using kv cr by (simp add: credited_def)
    then have "pending s' = pending s1 + n" using none by (simp add: s' pending_simps(2))
    moreover have "books ?now s' = books ?now s1" "ledger_ok E ?now s' = ledger_ok E ?now s1" "custody E s' = custody E s1"
      by (simp_all add: s' SetDelayedWithdrawalRecord_def books_def ledger_ok_def custody_def GetParams_def)
    ultimately show ?thesis using cr by (simp add: credited_def liabilities_def pending_def)
  qed
qed

lemma Withdraw_balanced:
  assumes run: "Withdraw E ctx msg s = (Ok (), s')" and laws: "bank_laws E"
    and led: "ledger_ok E (BlockTime ctx) s" and kv: "kv_ok (delayedWithdrawals s)"
    and cr: "AccFromHex E (WCreator msg) \<noteq> Some (ModuleAddress E ''payment'')"
  shows "liabilities (BlockTime ctx) s' - custody E s' = liabilities (BlockTime ctx) s - custody E s
    \<and> ledger_ok E (BlockTime ctx) s'"
proof -
  from run obtain c where "AccFromHex E (WCreator msg) = Some c"
    and k: "withdraw_delayed E ctx c (WAmount msg) s = (Ok (), s') \<or>
      (\<exists>a. withdraw_stream E ctx c a (WAmount msg) s = (Ok (), s'))"
    by (auto simp: Withdraw_def MustAccAddressFromHex_def andthen_eq_Ok split: option.splits if_splits)
  then have c: "c \<noteq> ModuleAddress E ''payment''" using cr by auto
  from k show ?thesis
    using withdraw_delayed_balanced [OF _ laws led kv c] withdraw_stream_balanced [OF _ laws led kv c] by blast
qed

end
