(* ===== verification/FlowLedger.thy ===== *)
theory FlowLedger
  imports Solvency
begin

text \<open>
  The flow ledger.  \<open>flows_ok\<close> says that the rates of every stream record are those of the
  stored flows: its net rate is what flows in minus what flows out over active flows, its frozen
  rate is what its frozen flows would pay.  Fee charging keeps the ledger, and with it the books
  move with time only through frozen accounts.
\<close>

definition flow_sum :: "(addr \<times> bool \<times> addr \<Rightarrow> int) \<Rightarrow> 'b pay_state \<Rightarrow> int" where
  "flow_sum g s = kv_sum (\<lambda>k rate. g k * rate) (outFlows s)"

definition in_active :: "addr \<Rightarrow> addr \<times> bool \<times> addr \<Rightarrow> int" where
  "in_active a = (\<lambda>(_, st, toAddr). if \<not> st \<and> toAddr = a then 1 else 0)"

definition out_active :: "addr \<Rightarrow> addr \<times> bool \<times> addr \<Rightarrow> int" where
  "out_active a = (\<lambda>(x, st, _). if \<not> st \<and> x = a then 1 else 0)"

definition out_frozen :: "addr \<Rightarrow> addr \<times> bool \<times> addr \<Rightarrow> int" where
  "out_frozen a = (\<lambda>(x, st, _). if st \<and> x = a then 1 else 0)"

definition net_at :: "'b pay_state \<Rightarrow> addr \<Rightarrow> int" where
  "net_at s a = fst (rates_at s a)"

definition frozen_at :: "'b pay_state \<Rightarrow> addr \<Rightarrow> int" where
  "frozen_at s a = fst (snd (rates_at s a))"

definition flows_ok :: "'b pay_state \<Rightarrow> bool" where
  "flows_ok s \<longleftrightarrow> kv_ok (outFlows s) \<and>
     (\<forall>a. net_at s a = flow_sum (in_active a) s - flow_sum (out_active a) s \<and>
          frozen_at s a = - flow_sum (out_frozen a) s)"

lemma rates_read:
  "NetflowRate (fst (GetStreamRecord ctx a s)) = fst (rates_at s a)"
  "FrozenNetflowRate (fst (GetStreamRecord ctx a s)) = fst (snd (rates_at s a))"
  "OutFlowCount (fst (GetStreamRecord ctx a s)) = snd (snd (rates_at s a))"
  by (simp_all add: rates_GetStreamRecord [of ctx, symmetric] rates_def)

lemma flow_sum_put:
  assumes "kv_ok (outFlows s)"
  shows "flow_sum g (SetOutFlow a f s) = flow_sum g s
    + g (a, flow_byte (FlowStatus f), ToAddress f)
      * (Rate f - (case map_of (outFlows s) (a, flow_byte (FlowStatus f), ToAddress f) of None \<Rightarrow> 0 | Some v \<Rightarrow> v))"
  using kv.sum_put [OF assms, of "\<lambda>k rate. g k * rate" "(a, flow_byte (FlowStatus f), ToAddress f)" "Rate f"]
  by (simp add: flow_sum_def SetOutFlow_def algebra_simps split: option.splits)

lemma flow_sum_del:
  assumes "kv_ok (outFlows s)"
  shows "flow_sum g (DeleteOutFlow k s)
    = flow_sum g s - g k * (case map_of (outFlows s) k of None \<Rightarrow> 0 | Some v \<Rightarrow> v)"
  using kv.sum_del [OF assms, of "\<lambda>k rate. g k * rate" k]
  by (simp add: flow_sum_def DeleteOutFlow_def split: option.splits)

lemma kv_ok_outFlows [simp]:
  "kv_ok (outFlows s) \<Longrightarrow> kv_ok (outFlows (SetOutFlow a f s))"
  "kv_ok (outFlows s) \<Longrightarrow> kv_ok (outFlows (DeleteOutFlow k s))"
  by (simp_all add: SetOutFlow_def DeleteOutFlow_def kv_ok_set kv_ok_del)

lemma mergeOutFlows_loop_sum:
  assumes "kv_ok (outFlows s)" "mergeOutFlows_loop a st fs d s = (d', s')"
  shows "kv_ok (outFlows s') \<and>
    flow_sum g s' = flow_sum g s + sum_list (map (\<lambda>f. g (a, flow_byte st, ToAddress f) * Rate f) fs)"
  using assms
proof (induction fs arbitrary: d s)
  case (Cons f fs)
  let ?k = "(a, flow_byte st, ToAddress f)"
  have step: "\<exists>d1 s1. mergeOutFlows_loop a st fs d1 s1 = (d', s') \<and> kv_ok (outFlows s1) \<and>
      flow_sum g s1 = flow_sum g s + g ?k * Rate f"
  proof (cases "map_of (outFlows s) ?k")
    case None
    then show ?thesis
      using Cons.prems flow_sum_put [OF Cons.prems(1), of g a "f\<lparr>FlowStatus := st\<rparr>"]
      by (intro exI [of _ "d + 1"] exI [of _ "SetOutFlow a (f\<lparr>FlowStatus := st\<rparr>) s"]) (simp add: Let_def)
  next
    case (Some v)
    let ?f = "f\<lparr>FlowStatus := st, Rate := v + Rate f\<rparr>"
    show ?thesis
    proof (cases "v + Rate f = 0")
      case True
      then have v: "v = - Rate f" by simp
      show ?thesis
        using Cons.prems Some True flow_sum_del [OF Cons.prems(1), of g ?k]
        by (intro exI [of _ "d - 1"] exI [of _ "DeleteOutFlow ?k s"]) (simp add: Let_def v)
    next
      case False
      then show ?thesis
        using Cons.prems Some flow_sum_put [OF Cons.prems(1), of g a ?f]
        by (intro exI [of _ d] exI [of _ "SetOutFlow a ?f s"]) (simp add: Let_def)
    qed
  qed
  then obtain d1 s1 where "mergeOutFlows_loop a st fs d1 s1 = (d', s')" "kv_ok (outFlows s1)"
    "flow_sum g s1 = flow_sum g s + g ?k * Rate f" by blast
  with Cons.IH [of s1 d1] show ?case by simp
qed simp

lemma mergeOutFlows_sum:
  assumes "kv_ok (outFlows s)"
  shows "kv_ok (outFlows (snd (mergeOutFlows a st fs s)))"
    "flow_sum g (snd (mergeOutFlows a st fs s))
      = flow_sum g s + sum_list (map (\<lambda>f. g (a, flow_byte st, ToAddress f) * Rate f) fs)"
proof -
  have "mergeOutFlows_loop a st fs 0 s = (fst (mergeOutFlows a st fs s), snd (mergeOutFlows a st fs s))"
    by (simp add: mergeOutFlows_def)
  from mergeOutFlows_loop_sum [OF assms this, of g]
  show "kv_ok (outFlows (snd (mergeOutFlows a st fs s)))"
    "flow_sum g (snd (mergeOutFlows a st fs s))
      = flow_sum g s + sum_list (map (\<lambda>f. g (a, flow_byte st, ToAddress f) * Rate f) fs)" by auto
qed

lemma apply_changes_rates:
  assumes "apply_changes E ctx cs s = (Ok (), s')" "kv_ok (streamRecords s)"
    "\<And>c. c \<in> set cs \<Longrightarrow> FrozenRateChange c = 0"
  shows "kv_ok (streamRecords s') \<and> outFlows s' = outFlows s \<and>
    net_at s' a = net_at s a + sum_at Addr RateChange a cs \<and> frozen_at s' a = frozen_at s a"
  using assms
proof (induction cs arbitrary: s)
  case (Cons c cs)
  from Cons.prems(1) obtain r t where u: "UpdateStreamRecordByAddr E ctx c s = (Ok r, t)"
    and rest: "apply_changes E ctx cs t = (Ok (), s')" by (auto simp: andthen_eq_Ok map_err_eq_Ok)
  note ra = UpdateStreamRecordByAddr_rates [OF u Cons.prems(2)]
  have "net_at t a = net_at s a + (if Addr c = a then RateChange c else 0)" "frozen_at t a = frozen_at s a"
    using ra(2) [of a] Cons.prems(3) [of c]
    by (auto simp: net_at_def frozen_at_def new_rates_def rates_read split: if_splits)
  moreover have "outFlows t = outFlows s"
    using UpdateStreamRecordByAddr_frame [OF u] by (simp add: frame_simps)
  ultimately show ?case using Cons.IH [OF rest ra(1)] Cons.prems(3) by (simp add: sum_at_Cons)
qed (simp)

lemma apply_rate_changes_rates:
  assumes "ApplyStreamRecordChanges E ctx (rate_changes fs) s = (Ok (), s')" "kv_ok (streamRecords s)"
  shows "kv_ok (streamRecords s') \<and> outFlows s' = outFlows s \<and>
    net_at s' a = net_at s a + sum_at ToAddress Rate a fs \<and> frozen_at s' a = frozen_at s a"
proof -
  have "apply_changes E ctx (MergeStreamRecordChanges E (rate_changes fs)) s = (Ok (), s')"
    using assms(1) by (simp add: ApplyStreamRecordChanges_def)
  from apply_changes_rates [where a = a, OF this assms(2) merged_rate_change(4)] show ?thesis
    using merged_sum [of RateChange a E "rate_changes fs"] by simp
qed

lemma sum_in_active:
  "sum_list (map (\<lambda>f. in_active b (a, False, ToAddress f) * Rate f) fs) = sum_at ToAddress Rate b fs"
  "sum_list (map (\<lambda>f. in_active b (a, True, ToAddress f) * Rate f) fs) = 0"
  by (induction fs) (auto simp: in_active_def sum_at_def)

lemma sum_out_active:
  "sum_list (map (\<lambda>f. out_active b (a, False, ToAddress f) * Rate f) fs) = (if a = b then total_rate fs else 0)"
  "sum_list (map (\<lambda>f. out_active b (a, True, ToAddress f) * Rate f) fs) = 0"
  by (induction fs) (auto simp: out_active_def total_rate_def)

lemma sum_out_frozen:
  "sum_list (map (\<lambda>f. out_frozen b (a, True, ToAddress f) * Rate f) fs) = (if a = b then total_rate fs else 0)"
  "sum_list (map (\<lambda>f. out_frozen b (a, False, ToAddress f) * Rate f) fs) = 0"
  by (induction fs) (auto simp: out_frozen_def total_rate_def)

lemmas flow_sums = sum_in_active sum_out_active sum_out_frozen

text \<open>The rates after a payer's record was updated, its flows merged and the record stored.\<close>

lemma store_rates:
  assumes up: "UpdateStreamRecord E ctx (fst (GetStreamRecord ctx a s)) ch s = (Ok r, t)"
    and kv: "kv_ok (streamRecords s)"
    and t2: "streamRecords t2 = streamRecords t"
    and set: "SetStreamRecord (r\<lparr>OutFlowCount := n\<rparr>) t2 = (Ok (), s1)"
  shows "kv_ok (streamRecords s1)" "outFlows s1 = outFlows t2" "outFlows t = outFlows s"
    "net_at s1 b = net_at s b + (if b = a then RateChange ch else 0)"
    "frozen_at s1 b = frozen_at s b + (if b = a \<and> Status (fst (GetStreamRecord ctx a s)) = STREAM_ACCOUNT_STATUS_FROZEN
       then FrozenRateChange ch else 0)"
proof -
  let ?r = "fst (GetStreamRecord ctx a s)"
  have up': "update_rec (CallDepth ctx) E ctx ?r ch s = (Ok r, t)" using up by (simp add: UpdateStreamRecord_def)
  have k: "frame s t" "kv_ok (streamRecords t)" "\<forall>b. rates_at t b = rates_at s b"
    using su.upd_keeps [OF up'] kv by (auto simp: keeps_rates_def)
  have "Account ?r = a" by (simp add: GetStreamRecord_def NewStreamRecord_def split: option.splits)
  then have r: "Account r = a" "rates r = new_rates ?r ch" using su.upd_rates [OF up'] by auto
  have s1: "s1 = t2\<lparr>streamRecords := kv_set a (r\<lparr>OutFlowCount := n\<rparr>) (streamRecords t)\<rparr>"
    using set r t2 by (auto simp: SetStreamRecord_Ok)
  show "kv_ok (streamRecords s1)" "outFlows s1 = outFlows t2" "outFlows t = outFlows s"
    using k by (simp_all add: s1 kv_ok_set frame_simps)
  have "rates_at s1 b = (if b = a then rates (r\<lparr>OutFlowCount := n\<rparr>) else rates_at t b)"
    by (simp add: s1 rates_at_def map_of_kv_set)
  then show "net_at s1 b = net_at s b + (if b = a then RateChange ch else 0)"
    "frozen_at s1 b = frozen_at s b + (if b = a \<and> Status ?r = STREAM_ACCOUNT_STATUS_FROZEN then FrozenRateChange ch else 0)"
    using r k by (auto simp: net_at_def frozen_at_def rates_def new_rates_def rates_read)
qed

lemma applyActiveUserFlows_flows:
  assumes run: "applyActiveUserFlows E ctx u (From u) (fst (GetStreamRecord ctx (From u) s)) s = (Ok (), s')"
    and kv: "kv_ok (streamRecords s)" and fl: "flows_ok s"
  shows "flows_ok s' \<and> kv_ok (streamRecords s')"
proof -
  let ?r = "fst (GetStreamRecord ctx (From u) s)"
  let ?ch = "WithRateChange (NewDefaultStreamRecordChangeWithAddr (From u)) (- total_rate (Flows u))"
  from run obtain r t n s1 where
    up: "UpdateStreamRecord E ctx ?r ?ch s = (Ok r, t)" and
    set: "SetStreamRecord (r\<lparr>OutFlowCount := n\<rparr>) (snd (MergeActiveOutFlows (From u) (Flows u) t)) = (Ok (), s1)" and
    ap: "ApplyStreamRecordChanges E ctx (rate_changes (Flows u)) s1 = (Ok (), s')"
    by (auto simp: applyActiveUserFlows_def Let_def andthen_eq_Ok map_err_eq_Ok case_prod_beta)
  have only: "streamRecords (snd (MergeActiveOutFlows (From u) (Flows u) t)) = streamRecords t"
    by (simp add: MergeActiveOutFlows_def mergeOutFlows_only)
  note st = store_rates [OF up kv only set]
  note ar = apply_rate_changes_rates [OF ap st(1)]
  have kvo: "kv_ok (outFlows t)" using fl st(3) by (simp add: flows_ok_def)
  note ms = mergeOutFlows_sum [OF kvo, where a = "From u" and st = OUT_FLOW_STATUS_ACTIVE and fs = "Flows u"]
  have ofl: "outFlows s' = outFlows (snd (mergeOutFlows (From u) OUT_FLOW_STATUS_ACTIVE (Flows u) t))"
    using ar st(2) by (simp add: MergeActiveOutFlows_def)
  have fs: "flow_sum g s' = flow_sum g s + sum_list (map (\<lambda>f. g (From u, False, ToAddress f) * Rate f) (Flows u))" for g
    using ms(2) [where g = g] st(3) by (simp add: flow_sum_def ofl flow_byte_def)
  show ?thesis
    using fl ms(1) ar st(4,5) by (auto simp: flows_ok_def fs flow_sums ofl change_defs)
qed

lemma applyFrozenUserFlows_flows:
  assumes run: "applyFrozenUserFlows E ctx u (From u) (fst (GetStreamRecord ctx (From u) s)) s = (Ok (), s')"
    and kv: "kv_ok (streamRecords s)" and fl: "flows_ok s"
    and fz: "Status (fst (GetStreamRecord ctx (From u) s)) = STREAM_ACCOUNT_STATUS_FROZEN"
  shows "flows_ok s' \<and> kv_ok (streamRecords s')"
proof -
  from run obtain as fs r t n s1 where
    up: "UpdateStreamRecord E ctx (fst (GetStreamRecord ctx (From u) s)) (WithFrozenRateChange (WithRateChange
        (NewDefaultStreamRecordChangeWithAddr (From u)) (- total_rate as)) (- total_rate fs)) s = (Ok r, t)" and
    set: "SetStreamRecord (r\<lparr>OutFlowCount := n\<rparr>)
        (snd (MergeFrozenOutFlows (From u) fs (snd (MergeActiveOutFlows (From u) as t)))) = (Ok (), s1)" and
    ap: "ApplyStreamRecordChanges E ctx (rate_changes as) s1 = (Ok (), s')"
    by (rule applyFrozenUserFlows_split)
  let ?t1 = "snd (mergeOutFlows (From u) OUT_FLOW_STATUS_ACTIVE as t)"
  have only: "streamRecords (snd (MergeFrozenOutFlows (From u) fs (snd (MergeActiveOutFlows (From u) as t)))) = streamRecords t"
    by (simp add: MergeActiveOutFlows_def MergeFrozenOutFlows_def mergeOutFlows_only)
  note st = store_rates [OF up kv only set]
  note ar = apply_rate_changes_rates [OF ap st(1)]
  have kvo: "kv_ok (outFlows t)" using fl st(3) by (simp add: flows_ok_def)
  note m1 = mergeOutFlows_sum [OF kvo, where a = "From u" and st = OUT_FLOW_STATUS_ACTIVE and fs = as]
  note m2 = mergeOutFlows_sum [OF m1(1), where a = "From u" and st = OUT_FLOW_STATUS_FROZEN and fs = fs]
  have ofl: "outFlows s' = outFlows (snd (mergeOutFlows (From u) OUT_FLOW_STATUS_FROZEN fs ?t1))"
    using ar st(2) by (simp add: MergeActiveOutFlows_def MergeFrozenOutFlows_def)
  have fs: "flow_sum g s' = flow_sum g s + sum_list (map (\<lambda>f. g (From u, False, ToAddress f) * Rate f) as)
      + sum_list (map (\<lambda>f. g (From u, True, ToAddress f) * Rate f) fs)" for g
    using m1(2) [where g = g] m2(2) [where g = g] st(3) by (simp add: flow_sum_def ofl flow_byte_def)
  show ?thesis
    using fl m2(1) ar st(4,5) fz by (auto simp: flows_ok_def fs flow_sums ofl change_defs)
qed

lemma apply_user_flows_flows:
  assumes "apply_user_flows E ctx us s = (Ok (), s')" "bank_laws E" "ledger_ok E (BlockTime ctx) s"
    "list_all (plain_flows E) us" "flows_ok s"
  shows "flows_ok s'"
  using assms
proof (induction us arbitrary: s)
  case (Cons u us)
  let ?r = "fst (GetStreamRecord ctx (From u) s)"
  from Cons.prems(1) obtain t where
    st: "(if Status ?r = STREAM_ACCOUNT_STATUS_ACTIVE then applyActiveUserFlows E ctx u (From u) ?r s
          else applyFrozenUserFlows E ctx u (From u) ?r s) = (Ok (), t)"
    and rest: "apply_user_flows E ctx us t = (Ok (), s')"
    by (auto simp: Let_def andthen_eq_Ok)
  have kv: "kv_ok (streamRecords s)" using Cons.prems(3) by (simp add: ledger_ok_def)
  have pl: "plain_flows E u" using Cons.prems(4) by simp
  have "Status ?r = STREAM_ACCOUNT_STATUS_FROZEN" if "Status ?r \<noteq> STREAM_ACCOUNT_STATUS_ACTIVE"
    using that stored_status [OF Cons.prems(3)]
    by (cases "GetStreamRecord ctx (From u) s"; cases "snd (GetStreamRecord ctx (From u) s)")
      (auto simp: GetStreamRecord_def NewStreamRecord_def split: option.splits)
  then have "flows_ok t"
    using st applyActiveUserFlows_flows [OF _ kv Cons.prems(5)] applyFrozenUserFlows_flows [OF _ kv Cons.prems(5)]
    by (auto split: if_splits)
  moreover have "balanced E (BlockTime ctx) s t"
    using st applyActiveUserFlows_balanced [OF _ Cons.prems(2,3) pl]
      applyFrozenUserFlows_balanced [OF _ Cons.prems(2,3) pl] by (auto split: if_splits)
  ultimately show ?case
    using Cons.IH [OF rest Cons.prems(2)] Cons.prems(4) by (simp add: balanced_def)
qed simp

lemma ApplyUserFlowsList_flows:
  assumes "ApplyUserFlowsList E ctx us s = (Ok (), s')" "bank_laws E" "ledger_ok E (BlockTime ctx) s"
    "list_all (plain_flows E) us" "flows_ok s"
  shows "flows_ok s'"
  using assms(1) unfolding ApplyUserFlowsList_def
  by (rule apply_user_flows_flows [OF _ assms(2,3) MergeUserFlows_plain [OF assms(4)] assms(5)])

section \<open>The passage of time\<close>

definition active_rate :: "'b pay_state \<Rightarrow> int" where
  "active_rate s = kv_sum (\<lambda>_ r. if Status r = STREAM_ACCOUNT_STATUS_FROZEN then 0 else NetflowRate r) (streamRecords s)"

definition frozen_rate :: "'b pay_state \<Rightarrow> int" where
  "frozen_rate s = kv_sum (\<lambda>_ r. if Status r = STREAM_ACCOUNT_STATUS_FROZEN then NetflowRate r else 0) (streamRecords s)"

lemma kv_sum_mult: "kv_sum (\<lambda>k v. c * f k v) xs = c * kv_sum f xs"
  by (induction xs) (auto simp: kv_sum_def algebra_simps)

lemma books_time: "books t' s = books t s + (t' - t) * active_rate s"
proof -
  have "worth_at t' r = worth_at t r
      + (t' - t) * (if Status r = STREAM_ACCOUNT_STATUS_FROZEN then 0 else NetflowRate r)" for r
    by (simp add: worth_at_def algebra_simps)
  then show ?thesis by (simp add: books_def active_rate_def kv_sum_add kv_sum_mult)
qed

lemma endpoint_sums:
  assumes "finite A" "fst ` fst ` set xs \<subseteq> A" "snd ` snd ` fst ` set xs \<subseteq> A"
  shows "(\<Sum>a \<in> A. kv_sum (\<lambda>k r. in_active a k * r) xs) = (\<Sum>a \<in> A. kv_sum (\<lambda>k r. out_active a k * r) xs)"
  using assms
proof (induction xs)
  case (Cons x xs)
  obtain p st q v where x: "x = ((p, st, q), v)" by (cases x) auto
  have one: "(\<Sum>a \<in> A. (if \<not> st \<and> c = a then 1 else 0) * v) = (if st then 0 else v)" if "c \<in> A" for c
    using Cons.prems(1) that by (simp add: sum.delta' if_distrib [where f = "\<lambda>i. i * v"] cong: if_cong)
  have "(\<Sum>a \<in> A. in_active a (p, st, q) * v) = (\<Sum>a \<in> A. out_active a (p, st, q) * v)"
    using Cons.prems one [of p] one [of q] by (auto simp: x in_active_def out_active_def)
  then show ?case using Cons by (simp add: x sum.distrib)
qed simp

lemma netflow_balance:
  assumes kv: "kv_ok (streamRecords s)" and fl: "flows_ok s"
  shows "active_rate s + frozen_rate s = 0"
proof -
  let ?m = "map_of (streamRecords s)"
  let ?A = "dom ?m \<union> fst ` fst ` set (outFlows s) \<union> snd ` snd ` fst ` set (outFlows s)"
  have fin: "finite ?A" by (simp add: finite_dom_map_of)
  have "active_rate s + frozen_rate s = kv_sum (\<lambda>_ r. NetflowRate r) (streamRecords s)"
    unfolding active_rate_def frozen_rate_def kv_sum_add [symmetric] by (rule kv_sum_cong) simp
  also have "\<dots> = (\<Sum>a \<in> dom ?m. net_at s a)"
    using kv.sum_iter [OF kv, of "\<lambda>_ r. NetflowRate r"]
    by (auto simp: net_at_def rates_at_def rates_def intro!: sum.cong)
  also have "\<dots> = (\<Sum>a \<in> ?A. net_at s a)"
    by (rule sum.mono_neutral_left) (use fin in \<open>auto simp: net_at_def rates_at_def split: option.splits\<close>)
  also have "\<dots> = (\<Sum>a \<in> ?A. flow_sum (in_active a) s) - (\<Sum>a \<in> ?A. flow_sum (out_active a) s)"
    using fl by (simp add: flows_ok_def sum_subtractf)
  also have "\<dots> = 0"
    using endpoint_sums [OF fin, of "outFlows s"] by (auto simp: flow_sum_def)
  finally show ?thesis .
qed

end
