(* ===== verification/PaymentFacts.thy ===== *)
theory PaymentFacts
  imports FlowLedger
begin

text \<open>
  Further facts on the operations of the payment module: the call depth an update needs, what an
  update outside the end block guarantees, the withdrawal time lock, the versioned parameters, and
  reloading an exported genesis.
\<close>

section \<open>Call depth\<close>

lemma update_body_settle_irrelevant:
  assumes act: "Status r \<noteq> STREAM_ACCOUNT_STATUS_FROZEN" and debt: "0 \<le> NetflowRate r + RateChange ch"
  shows "update_body f E ctx r ch s = update_body g E ctx r ch s"
proof -
  have "settle_step f ctx p q t = settle_step g ctx p q t"
    if "auto_transfer E p (staged ctx p r ch) s = (Ok q, t)" for p q t
    using auto_transfer_fields(3) [OF that] debt by (simp add: settle_step_def)
  then show ?thesis unfolding update_body_active [OF act refl] by (intro andthen_cong) auto
qed

lemma force_settle_depth:
  assumes "ledger_ok E now s" "now = BlockTime ctx"
  shows "force_settle (update_rec (Suc m) E ctx) E ctx r s = force_settle (update_rec (Suc 0) E ctx) E ctx r s"
proof -
  let ?g = "fst (GetStreamRecord ctx (GovernanceAddress E) s)"
  have "gov_record_ok E ?g" using GetStreamRecord_ok(3) [of E ctx s "GovernanceAddress E"] assms by simp
  then have "update_rec (Suc m) E ctx ?g ch s = update_rec (Suc 0) E ctx ?g ch s" if "RateChange ch = 0" for ch
    using that by (auto simp: gov_record_ok_def intro!: update_body_settle_irrelevant)
  then show ?thesis by (simp add: force_settle_def by_addr_def change_defs Let_def del: update_rec.simps)
qed

lemma update_depth:
  assumes led: "ledger_ok E (BlockTime ctx) s"
  shows "update_rec (Suc (Suc m)) E ctx r ch s = update_rec 2 E ctx r ch s"
proof (cases "Status r = STREAM_ACCOUNT_STATUS_FROZEN")
  case True
  then show ?thesis by (simp add: update_body_def numeral_2_eq_2)
next
  case False
  have "settle_step (force_settle (update_rec (Suc m) E ctx) E ctx) ctx p q t
      = settle_step (force_settle (update_rec (Suc 0) E ctx) E ctx) ctx p q t"
    if "auto_transfer E p (staged ctx p r ch) s = (Ok q, t)" for p q t
  proof -
    have "ledger_ok E (BlockTime ctx) t"
      using led auto_transfer_fields(11) [OF that] by (simp add: ledger_ok_def)
    then show ?thesis unfolding settle_step_def by (simp only: force_settle_depth [OF _ refl, of E ctx t m])
  qed
  then show ?thesis
    unfolding numeral_2_eq_2 update_rec.simps(2) [of "Suc _"] update_body_active [OF False refl]
    by (intro andthen_cong) auto
qed

section \<open>An update that was not forced\<close>

lemma unforced_update:
  assumes run: "UpdateStreamRecord E ctx r ch s = (Ok r', s')" and nf: "\<not> Forced ctx"
  shows "Status r \<noteq> STREAM_ACCOUNT_STATUS_FROZEN" "Status r' = Status r"
    "NetflowRate r' < 0 \<Longrightarrow> BufferBalance r' = \<bar>NetflowRate r'\<bar> * int (ReserveTime (Versioned (GetParams s))) \<and>
       int (ForcedSettleTime (GetParams s)) < quo (StaticBalance r' + BufferBalance r') \<bar>NetflowRate r'\<bar>"
    "0 \<le> NetflowRate r' \<Longrightarrow> BufferBalance r' = 0 \<and> SettleTimestamp r' = 0"
    "StaticBalanceChange ch < 0 \<or> RateChange ch < 0 \<Longrightarrow> 0 \<le> StaticBalance r'"
proof -
  from run obtain m where
    u: "update_body (force_settle (update_rec m E ctx) E ctx) E ctx r ch s = (Ok r', s')"
    unfolding UpdateStreamRecord_def by (cases "CallDepth ctx") auto
  show act: "Status r \<noteq> STREAM_ACCOUNT_STATUS_FROZEN"
    using u nf by (auto simp: update_body_def UpdateFrozenStreamRecord_def)
  let ?p = "GetParams s"
  from u obtain r1 s1 where tr: "auto_transfer E ?p (staged ctx ?p r ch) s = (Ok r1, s1)"
    and neg: "StaticBalanceChange ch < 0 \<or> RateChange ch < 0 \<Longrightarrow> 0 \<le> StaticBalance r1"
    and st: "settle_step (force_settle (update_rec m E ctx) E ctx) ctx ?p r1 s1 = (Ok r', s')"
    unfolding update_body_active [OF act refl] using nf by (auto simp: andthen_eq_Ok not_less split: if_splits)
  note f = auto_transfer_fields [OF tr]
  obtain x where x: "set_settle_time x r1 s1 = (Ok r', s')" "0 \<le> NetflowRate r1 \<Longrightarrow> x = 0"
    "NetflowRate r1 < 0 \<Longrightarrow> int (ForcedSettleTime ?p) < quo (StaticBalance r1 + BufferBalance r1) \<bar>NetflowRate r1\<bar>"
    using st nf by (auto simp: settle_step_def Let_def andthen_eq_Ok split: if_splits)
  have r': "r' = r1\<lparr>SettleTimestamp := x\<rparr>" by (rule set_settle_time_Ok(1) [OF x(1)])
  show "Status r' = Status r"
    "NetflowRate r' < 0 \<Longrightarrow> BufferBalance r' = \<bar>NetflowRate r'\<bar> * int (ReserveTime (Versioned ?p)) \<and>
       int (ForcedSettleTime ?p) < quo (StaticBalance r' + BufferBalance r') \<bar>NetflowRate r'\<bar>"
    "0 \<le> NetflowRate r' \<Longrightarrow> BufferBalance r' = 0 \<and> SettleTimestamp r' = 0"
    "StaticBalanceChange ch < 0 \<or> RateChange ch < 0 \<Longrightarrow> 0 \<le> StaticBalance r'"
    using f x neg by (auto simp: r')
qed

section \<open>Delayed withdrawals\<close>

text \<open>A transfer of \<open>n\<close> coins of denomination \<open>d\<close> from \<open>x\<close> to \<open>y\<close>: every balance of every account.\<close>

definition transfers :: "'b payment_env \<Rightarrow> 'b \<Rightarrow> 'b \<Rightarrow> addr \<Rightarrow> addr \<Rightarrow> string \<Rightarrow> int \<Rightarrow> bool" where
  "transfers E b b' x y d n \<longleftrightarrow>
     (\<forall>z e. GetBalance E b' z e = GetBalance E b z e
        - (if z = x \<and> e = d then n else 0) + (if z = y \<and> e = d then n else 0))"

lemma transfers_none: "transfers E b b x y d 0"
  by (simp add: transfers_def)

lemma bankTransfer_pays:
  assumes "bankTransfer E c n s = (Ok (), s')" "bank_laws E"
  shows "transfers E (bank s) (bank s') (ModuleAddress E ''payment'') c (FeeDenom (GetParams s)) n"
    and "s' = s\<lparr>bank := bank s'\<rparr>"
proof -
  let ?cs = "if n = 0 then [] else [(FeeDenom (GetParams s), n)]"
  have sent: "SendCoinsFromModuleToAccount E ''payment'' c ?cs (bank s) = Inr (bank s')" and s': "s' = s\<lparr>bank := bank s'\<rparr>"
    using assms(1) by (auto simp: bankTransfer_def NewCoins_def andthen_eq_Ok split: if_splits sum.splits)
  show "s' = s\<lparr>bank := bank s'\<rparr>" by (rule s')
  have amount: "coins_amount ?cs e = (if e = FeeDenom (GetParams s) then n else 0)" for e by simp
  show "transfers E (bank s) (bank s') (ModuleAddress E ''payment'') c (FeeDenom (GetParams s)) n"
    using assms(2) [unfolded bank_laws_def, THEN conjunct2, THEN conjunct1, rule_format, OF sent]
    unfolding transfers_def amount by simp
qed

lemma auto_transfer_bank:
  assumes "auto_transfer E p r s = (Ok r', s')" "bank_laws E"
  shows "\<exists>n \<ge> 0. transfers E (bank s) (bank s') (Account r) (ModuleAddress E ''payment'') (FeeDenom p) n \<and>
    worth r' = worth r + n"
proof (cases "r' = r \<and> s' = s")
  case True
  then show ?thesis by (intro exI [of _ 0]) (simp add: transfers_none)
next
  case False
  then have neg: "StaticBalance r < 0" and r': "r' = r\<lparr>StaticBalance := 0\<rparr>"
    and sent: "SendCoinsFromAccountToModule E (Account r) ''payment'' [(FeeDenom p, \<bar>StaticBalance r\<bar>)] (bank s) = Inr (bank s')"
    using assms(1) by (auto simp: auto_transfer_def andthen_eq_Ok NewCoins_def split: if_splits sum.splits)
  have "transfers E (bank s) (bank s') (Account r) (ModuleAddress E ''payment'') (FeeDenom p) \<bar>StaticBalance r\<bar>"
    using assms(2) [unfolded bank_laws_def, THEN conjunct1, rule_format, OF sent] by (auto simp: transfers_def)
  with neg r' show ?thesis by (intro exI [of _ "\<bar>StaticBalance r\<bar>"]) (simp add: worth_def)
qed

text \<open>What an update outside the end block does: the bank tops the account up, and nothing else is paid.\<close>

lemma unforced_update_bank:
  assumes run: "UpdateStreamRecord E ctx r ch s = (Ok r', s')" and nf: "\<not> Forced ctx" and laws: "bank_laws E"
    and rok: "record_ok (BlockTime ctx) r"
  shows "\<exists>n \<ge> 0. transfers E (bank s) (bank s') (Account r) (ModuleAddress E ''payment'') (FeeDenom (GetParams s)) n \<and>
      worth_at (BlockTime ctx) r' = worth_at (BlockTime ctx) r + StaticBalanceChange ch + n"
    and "streamRecords s' = streamRecords s" "Account r' = Account r"
proof -
  from run obtain m where
    u: "update_body (force_settle (update_rec m E ctx) E ctx) E ctx r ch s = (Ok r', s')"
    unfolding UpdateStreamRecord_def by (cases "CallDepth ctx") auto
  have act: "Status r \<noteq> STREAM_ACCOUNT_STATUS_FROZEN"
    using u nf by (auto simp: update_body_def UpdateFrozenStreamRecord_def)
  let ?p = "GetParams s"
  from u obtain r1 s1 where tr: "auto_transfer E ?p (staged ctx ?p r ch) s = (Ok r1, s1)"
    and st: "settle_step (force_settle (update_rec m E ctx) E ctx) ctx ?p r1 s1 = (Ok r', s')"
    unfolding update_body_active [OF act refl] by (auto simp: andthen_eq_Ok split: if_splits)
  obtain x where x: "set_settle_time x r1 s1 = (Ok r', s')"
    using st nf by (auto simp: settle_step_def Let_def andthen_eq_Ok split: if_splits)
  note f = auto_transfer_fields [OF tr] and g = set_settle_time_Ok [OF x]
  show "streamRecords s' = streamRecords s" "Account r' = Account r" using f g by (simp_all add: g(1))
  obtain n where n: "0 \<le> n" "worth r1 = worth (staged ctx ?p r ch) + n"
    "transfers E (bank s) (bank s1) (Account r) (ModuleAddress E ''payment'') (FeeDenom ?p) n"
    using auto_transfer_bank [OF tr laws] by auto
  have "CrudTimestamp r' = BlockTime ctx" using rok f by (simp add: g(1) record_ok_def)
  then have "worth_at (BlockTime ctx) r' = worth r1" by (simp add: worth_at_now(1)) (simp add: g(1))
  with n g(4) worth_staged [OF rok act, of ?p ch]
  show "\<exists>n \<ge> 0. transfers E (bank s) (bank s') (Account r) (ModuleAddress E ''payment'') (FeeDenom ?p) n \<and>
      worth_at (BlockTime ctx) r' = worth_at (BlockTime ctx) r + StaticBalanceChange ch + n" by auto
qed

lemma withdraw_delayed_Ok:
  assumes "withdraw_delayed E ctx c n s = (Ok (), s')" "bank_laws E"
  shows "\<exists>d. GetDelayedWithdrawalRecord c s = Some d \<and> Amount d = n \<and> UnlockTimestamp d < BlockTime ctx"
    and "transfers E (bank s) (bank s') (ModuleAddress E ''payment'') c (FeeDenom (GetParams s)) n"
    and "s' = s\<lparr>delayedWithdrawals := kv_del c (delayedWithdrawals s), bank := bank s'\<rparr>"
proof -
  from assms(1) obtain d where d: "GetDelayedWithdrawalRecord c s = Some d" "Amount d = n" "UnlockTimestamp d < BlockTime ctx"
    and paid: "bankTransfer E c n (RemoveDelayedWithdrawalRecord c s) = (Ok (), s')"
    by (auto simp: withdraw_delayed_def not_le split: option.splits if_splits)
  from d show "\<exists>d. GetDelayedWithdrawalRecord c s = Some d \<and> Amount d = n \<and> UnlockTimestamp d < BlockTime ctx" by blast
  have "GetParams (RemoveDelayedWithdrawalRecord c s) = GetParams s" "bank (RemoveDelayedWithdrawalRecord c s) = bank s"
    by (simp_all add: RemoveDelayedWithdrawalRecord_def GetParams_def)
  with bankTransfer_pays [OF paid assms(2)]
  show "transfers E (bank s) (bank s') (ModuleAddress E ''payment'') c (FeeDenom (GetParams s)) n"
    "s' = s\<lparr>delayedWithdrawals := kv_del c (delayedWithdrawals s), bank := bank s'\<rparr>"
    by (simp_all add: RemoveDelayedWithdrawalRecord_def)
qed

lemma withdraw_stream_Ok:
  assumes "withdraw_stream E ctx c a n s = (Ok (), s')" "\<not> Forced ctx" "bank_laws E" "ledger_ok E (BlockTime ctx) s"
  obtains th t k where "WithdrawTimeLockThreshold (GetParams s) = Some th" "0 \<le> k"
    "transfers E (bank s) (bank t) a (ModuleAddress E ''payment'') (FeeDenom (GetParams s)) k"
    "worth_at (BlockTime ctx) (fst (GetStreamRecord ctx a t)) = worth_at (BlockTime ctx) (fst (GetStreamRecord ctx a s)) - n + k"
    "\<And>x. x \<noteq> a \<Longrightarrow> map_of (streamRecords t) x = map_of (streamRecords s) x"
    "GetParams t = GetParams s" "delayedWithdrawals t = delayedWithdrawals s"
    "if th \<le> n then GetDelayedWithdrawalRecord c s = None \<and>
        s' = SetDelayedWithdrawalRecord \<lparr>DAddr = c, Amount = n, DFrom = a, UnlockTimestamp = wrap_int64 (BlockTime ctx
          + wrap_int64 (int (WithdrawTimeLockDuration (GetParams s))))\<rparr> t
     else bankTransfer E c n t = (Ok (), s')"
proof -
  let ?r = "fst (GetStreamRecord ctx a s)" and ?ch = "WithStaticBalanceChange (NewDefaultStreamRecordChangeWithAddr a) (- n)"
  from assms(1) obtain r' u t where
    upd: "UpdateStreamRecord E ctx ?r ?ch s = (Ok r', u)" and set: "SetStreamRecord r' u = (Ok (), t)"
    and fin: "(case WithdrawTimeLockThreshold (GetParams t) of None \<Rightarrow> (Panic, t)
        | Some threshold \<Rightarrow> if n \<ge> threshold then
            (if GetDelayedWithdrawalRecord c t \<noteq> None then (Err ErrExistsDelayedWithdrawal, t)
             else (Ok (), SetDelayedWithdrawalRecord \<lparr>DAddr = c, Amount = n, DFrom = a,
                UnlockTimestamp = wrap_int64 (BlockTime ctx + wrap_int64 (int (WithdrawTimeLockDuration (GetParams t))))\<rparr> t))
          else bankTransfer E c n t) = (Ok (), s')"
    by (auto simp: withdraw_stream_def andthen_eq_Ok dest!: check_withdrawer_state split: prod.splits bool.splits if_splits)
  note g = GetStreamRecord_ok [OF assms(4), of a]
  note b = unforced_update_bank [OF upd assms(2,3) g(1)]
  have t: "t = u\<lparr>streamRecords := kv_set a r' (streamRecords u)\<rparr>"
    using set b(3) g(2) by (simp add: SetStreamRecord_Ok)
  have f: "frame s u" using upd by (rule UpdateStreamRecord_frame)
  have p: "GetParams t = GetParams s" "delayedWithdrawals t = delayedWithdrawals s" "bank t = bank u"
    using frame_simps [OF f] by (simp_all add: t)
  obtain k where k: "0 \<le> k" "worth_at (BlockTime ctx) r' = worth_at (BlockTime ctx) ?r - n + k"
    "transfers E (bank s) (bank t) a (ModuleAddress E ''payment'') (FeeDenom (GetParams s)) k"
    using b(1) g(2) p(3) by (auto simp: change_defs)
  have m: "map_of (streamRecords t) a = Some r'" "\<And>x. x \<noteq> a \<Longrightarrow> map_of (streamRecords t) x = map_of (streamRecords s) x"
    using b(2) by (simp_all add: t map_of_kv_set)
  obtain th where th: "WithdrawTimeLockThreshold (GetParams s) = Some th"
    using fin p by (auto split: option.splits)
  show thesis
  proof (rule that [OF th k(1,3) _ m(2) p(1,2)])
    show "worth_at (BlockTime ctx) (fst (GetStreamRecord ctx a t)) = worth_at (BlockTime ctx) ?r - n + k"
      using k(2) m(1) by (simp add: GetStreamRecord_def)
    show "if th \<le> n then GetDelayedWithdrawalRecord c s = None \<and>
        s' = SetDelayedWithdrawalRecord \<lparr>DAddr = c, Amount = n, DFrom = a, UnlockTimestamp = wrap_int64 (BlockTime ctx
          + wrap_int64 (int (WithdrawTimeLockDuration (GetParams s))))\<rparr> t
     else bankTransfer E c n t = (Ok (), s')"
      using fin th p by (auto simp: GetDelayedWithdrawalRecord_def split: if_splits)
  qed
qed

section \<open>Versioned parameters and genesis\<close>

lemma kv_ok_filter: "kv_ok xs \<Longrightarrow> kv_ok (filter P xs)"
  by (induction xs) (auto simp: kv_ok_def)

lemma GetVersionedParams_last:
  assumes kv: "kv_ok (versionedParams s)" and get: "GetVersionedParamsWithTs s ts = Inr vp"
  shows "\<exists>k. map_of (versionedParams s) k = Some vp \<and> k < wrap_uint64 ts \<and>
    (\<forall>j \<in> dom (map_of (versionedParams s)). j < wrap_uint64 ts \<longrightarrow> j \<le> k)"
proof -
  let ?f = "filter (\<lambda>(k, _). k < wrap_uint64 ts) (versionedParams s)"
  from get obtain k rest where "rev ?f = (k, vp) # rest"
    by (auto simp: GetVersionedParamsWithTs_def split: list.splits)
  then have f: "?f = rev rest @ [(k, vp)]" by (simp add: rev_swap)
  then have k: "(k, vp) \<in> set ?f" by (simp only: set_append) simp
  have "kv_ok (rev rest @ [(k, vp)])" using kv_ok_filter [OF kv] unfolding f [symmetric] .
  then have "\<forall>(j, w) \<in> set (rev rest @ [(k, vp)]). j \<le> k" by (auto simp: kv_ok_def sorted_wrt_append)
  then have le: "\<forall>(j, w) \<in> set ?f. j \<le> k" by (simp only: f)
  have "map_of (versionedParams s) k = Some vp \<and> k < wrap_uint64 ts"
    using k kv_ok_map_of [OF kv] by auto
  moreover have "j \<le> k" if "j \<in> dom (map_of (versionedParams s))" "j < wrap_uint64 ts" for j
  proof -
    from that obtain w where "(j, w) \<in> set ?f" by (auto dest: map_of_SomeD)
    with le show ?thesis by fastforce
  qed
  ultimately show ?thesis by blast
qed

lemma kv_set_last: "(\<forall>(j, w) \<in> set xs. j < k) \<Longrightarrow> kv_set k v xs = xs @ [(k, v)]"
  by (induction k v xs rule: kv_set.induct) auto

lemma fold_kv_set: "kv_ok (acc @ xs) \<Longrightarrow> fold (\<lambda>(k, v). kv_set k v) xs acc = acc @ xs"
proof (induction xs arbitrary: acc)
  case (Cons x xs)
  obtain k v where x: "x = (k, v)" by (cases x)
  have "kv_set k v acc = acc @ [(k, v)]"
    using Cons.prems by (intro kv_set_last) (auto simp: x kv_ok_def sorted_wrt_append)
  then show ?case using Cons by (simp add: x)
qed simp

lemma foreach_SetStreamRecord:
  "list_all CheckStreamRecord rs \<Longrightarrow> foreach SetStreamRecord rs s
     = (Ok (), s\<lparr>streamRecords := fold (\<lambda>r. kv_set (Account r) r) rs (streamRecords s)\<rparr>)"
  by (induction rs arbitrary: s) (auto simp: SetStreamRecord_def)

definition stores_ok :: "'b pay_state \<Rightarrow> bool" where
  "stores_ok s \<longleftrightarrow> kv_ok (streamRecords s) \<and> kv_ok (paymentAccounts s) \<and>
     kv_ok (paymentAccountCounts s) \<and> kv_ok (autoSettleRecords s) \<and>
     list_all (\<lambda>(a, r). Account r = a \<and> CheckStreamRecord r) (streamRecords s) \<and>
     list_all (\<lambda>(a, p). PAddr p = a) (paymentAccounts s) \<and>
     list_all (\<lambda>((t, _), _). t < 2 ^ 64) (autoSettleRecords s)"

definition empty_state :: "'b \<Rightarrow> 'b pay_state" where
  "empty_state b = \<lparr>streamRecords = [], autoSettleRecords = [], autoResumeRecords = [], outFlows = [],
     paymentAccounts = [], paymentAccountCounts = [], payParams = None, versionedParams = [],
     delayedWithdrawals = [], bank = b\<rparr>"

lemma fold_store:
  "fold (\<lambda>(a, n). SetPaymentAccountCount a n) xs s
     = s\<lparr>paymentAccountCounts := fold (\<lambda>(k, v). kv_set k v) xs (paymentAccountCounts s)\<rparr>"
  "fold SetPaymentAccount ps s = s\<lparr>paymentAccounts := fold (\<lambda>p. kv_set (PAddr p) p) ps (paymentAccounts s)\<rparr>"
  "fold (\<lambda>(t, a). SetAutoSettleRecord t a) ts s
     = s\<lparr>autoSettleRecords := fold (\<lambda>(t, a). kv_set (wrap_uint64 t, a) ()) ts (autoSettleRecords s)\<rparr>"
  by (induction xs arbitrary: s, simp_all add: case_prod_beta SetPaymentAccountCount_def)
     (induction ps arbitrary: s, simp_all add: SetPaymentAccount_def,
      induction ts arbitrary: s, simp_all add: case_prod_beta SetAutoSettleRecord_def)

lemma reload_records:
  assumes "kv_ok xs" "list_all (\<lambda>(a, r). Account r = a \<and> P r) xs"
  shows "fold (\<lambda>r. kv_set (Account r) r) (map (\<lambda>(a, r). r\<lparr>Account := a\<rparr>) xs) [] = xs"
proof -
  have "fold (\<lambda>r. kv_set (Account r) r) (map (\<lambda>(a, r). r\<lparr>Account := a\<rparr>) xs) []
      = fold (\<lambda>(k, v). kv_set k v) xs []"
    using assms(2) unfolding fold_map by (intro fold_cong) (auto simp: list_all_iff)
  then show ?thesis using fold_kv_set [of "[]" xs] assms(1) by simp
qed

lemma reload_accounts:
  assumes "kv_ok xs" "list_all (\<lambda>(a, p). PAddr p = a) xs"
  shows "fold (\<lambda>p. kv_set (PAddr p) p) (map (\<lambda>(a, p). p\<lparr>PAddr := a\<rparr>) xs) [] = xs"
proof -
  have "fold (\<lambda>p. kv_set (PAddr p) p) (map (\<lambda>(a, p). p\<lparr>PAddr := a\<rparr>) xs) []
      = fold (\<lambda>(k, v). kv_set k v) xs []"
    using assms(2) unfolding fold_map by (intro fold_cong) (auto simp: list_all_iff)
  then show ?thesis using fold_kv_set [of "[]" xs] assms(1) by simp
qed

lemma wrap_uint64_int64:
  assumes "t < 2 ^ 64"
  shows "wrap_uint64 (wrap_int64 (int t)) = t"
proof -
  have "((int t + 2 ^ 63) mod 2 ^ 64 - 2 ^ 63) mod 2 ^ 64 = (int t + 2 ^ 63 - 2 ^ 63) mod (2 ^ 64 :: int)"
    by (rule mod_diff_left_eq)
  with assms show ?thesis by (simp add: wrap_uint64_def wrap_int64_def)
qed

lemma reload_queue:
  assumes "kv_ok xs" "list_all (\<lambda>((t, _), _). t < 2 ^ 64) xs"
  shows "fold (\<lambda>(t, a). kv_set (wrap_uint64 t, a) ()) (map (\<lambda>((t, a), _). (wrap_int64 (int t), a)) xs) [] = xs"
proof -
  have "fold (\<lambda>(t, a). kv_set (wrap_uint64 t, a) ()) (map (\<lambda>((t, a), _). (wrap_int64 (int t), a)) xs) []
      = fold (\<lambda>(k, v). kv_set k v) xs []"
    using assms(2) unfolding fold_map by (intro fold_cong) (auto simp: list_all_iff wrap_uint64_int64)
  then show ?thesis using fold_kv_set [of "[]" xs] assms(1) by simp
qed

lemma genesis_reload:
  assumes ok: "stores_ok s" and p: "Validate (GetParams s) = None"
  shows "InitGenesis ctx (ExportGenesis s) (empty_state b) = (Ok (),
    (empty_state b)\<lparr>streamRecords := streamRecords s, paymentAccountCounts := paymentAccountCounts s,
      paymentAccounts := paymentAccounts s, autoSettleRecords := autoSettleRecords s,
      payParams := Some (GetParams s),
      versionedParams := [(wrap_uint64 (BlockTime ctx), Versioned (GetParams s))]\<rparr>)"
proof -
  have "list_all CheckStreamRecord (map (\<lambda>(a, r). r\<lparr>Account := a\<rparr>) (streamRecords s))"
    using ok by (auto simp: stores_ok_def list_all_iff CheckStreamRecord_def)
  moreover have "fold (\<lambda>(k, v). kv_set k v) (paymentAccountCounts s) [] = paymentAccountCounts s"
    using fold_kv_set [of "[]" "paymentAccountCounts s"] ok by (simp add: stores_ok_def)
  ultimately show ?thesis
    using ok p reload_records [of "streamRecords s" CheckStreamRecord] reload_accounts [of "paymentAccounts s"]
      reload_queue [of "autoSettleRecords s"]
    by (simp add: InitGenesis_def ExportGenesis_def foreach_SetStreamRecord fold_store SetParams_def
        SetVersionedParamsWithTS_def stores_ok_def empty_state_def GetAllStreamRecord_def
        GetAllPaymentAccount_def GetAllPaymentAccountCount_def GetAllAutoSettleRecord_def)
qed

end
