(* ===== verification/PaymentSample.thy ===== *)
theory PaymentSample
  imports PaymentFacts
begin

text \<open>
  A sample chain on which the properties of the payment module are evaluated.
  A bank with one balance per address and denomination, short textual addresses, and three stream
  accounts: account 5 pays 3 per second to account 6, and the governance account 9.
\<close>

definition move :: "addr \<Rightarrow> addr \<Rightarrow> coins \<Rightarrow> (addr \<times> string \<Rightarrow> int) \<Rightarrow> string + (addr \<times> string \<Rightarrow> int)" where
  "move a m cs b =
     (if list_all (\<lambda>(d, n). n \<le> b (a, d)) cs
      then Inr (\<lambda>(x, d). b (x, d) - (if x = a then coins_amount cs d else 0)
                 + (if x = m then coins_amount cs d else 0))
      else Inl ''insufficient funds'')"

definition sample_module :: "string \<Rightarrow> addr" where
  "sample_module m = (if m = ''payment'' then 1 else if m = ''distribution'' then 2 else 3)"

definition sample_env :: "(addr \<times> string \<Rightarrow> int) payment_env" where
  "sample_env = \<lparr>HasAccount = (\<lambda>_ a. a = 7), GetBalance = (\<lambda>b a d. b (a, d)),
     SendCoinsFromAccountToModule = (\<lambda>a m. move a (sample_module m)),
     SendCoinsFromModuleToAccount = (\<lambda>m a. move (sample_module m) a),
     SendCoinsFromModuleToModule = (\<lambda>m n. move (sample_module m) (sample_module n)),
     ModuleAddress = sample_module, ValidDenom = (\<lambda>d. d \<noteq> []), GovernanceAddress = 9,
     AddressDerive = (\<lambda>a bs. a + of_nat (sum_list bs) + 100),
     AccString = (\<lambda>a. replicate (unat a) CHR ''a''),
     AccFromHex = (\<lambda>s. if s = [] then None else Some (of_nat (length s)))\<rparr>"

definition sample_params :: PaymentParams where
  "sample_params = NewParams 10 (Some 0) 2 5 5 5 ''m'' 50 100"

definition sample_record :: "addr \<Rightarrow> int \<Rightarrow> int \<Rightarrow> int \<Rightarrow> nat \<Rightarrow> StreamRecord" where
  "sample_record a rate static buffer n =
     (NewStreamRecord a 100)\<lparr>NetflowRate := rate, StaticBalance := static, BufferBalance := buffer, OutFlowCount := n\<rparr>"

definition sample_state :: "(addr \<times> string \<Rightarrow> int) pay_state" where
  "sample_state = \<lparr>
     streamRecords = [(5, sample_record 5 (- 3) 0 30 1), (6, sample_record 6 3 0 0 0), (9, sample_record 9 0 4 0 0)],
     autoSettleRecords = [], autoResumeRecords = [],
     outFlows = [((5, False, 6), 3)], paymentAccounts = [], paymentAccountCounts = [],
     payParams = Some sample_params, versionedParams = [], delayedWithdrawals = [],
     bank = (\<lambda>(a, d). if d = ''m'' then (if a = 1 then 34 else 40) else 0)\<rparr>"

definition sample_ctx :: "int \<Rightarrow> bool \<Rightarrow> pay_ctx" where
  "sample_ctx t forced = \<lparr>BlockTime = t, Forced = forced, CallDepth = 2\<rparr>"

lemma sample_bank_laws: "bank_laws sample_env"
  unfolding bank_laws_def sample_env_def move_def by (auto split: if_splits)

lemma sample_ledger: "ledger_ok sample_env 109 sample_state"
  by code_simp

lemma sample_recipients: "recipients_ok sample_env (outFlows sample_state)"
  by code_simp

lemma sample_settle:
  "fst (UpdateStreamRecordByAddr sample_env (sample_ctx 109 True) (NewDefaultStreamRecordChangeWithAddr 5) sample_state)
    = Ok ((sample_record 5 (- 3) 0 0 1)\<lparr>CrudTimestamp := 109, Status := STREAM_ACCOUNT_STATUS_FROZEN, SettleTimestamp := 108\<rparr>)"
  by code_simp

definition sample_flows :: "UserFlows list" where
  "sample_flows = [\<lparr>From = 5, Flows = [\<lparr>ToAddress = 6, Rate = - 2, FlowStatus = OUT_FLOW_STATUS_ACTIVE\<rparr>]\<rparr>,
     \<lparr>From = 7, Flows = [\<lparr>ToAddress = 6, Rate = 2, FlowStatus = OUT_FLOW_STATUS_ACTIVE\<rparr>]\<rparr>,
     \<lparr>From = 5, Flows = [\<lparr>ToAddress = 8, Rate = 1, FlowStatus = OUT_FLOW_STATUS_ACTIVE\<rparr>]\<rparr>]"

lemma sample_flows_run: "fst (ApplyUserFlowsList sample_env (sample_ctx 102 False) sample_flows sample_state) = Ok ()"
  by code_simp

lemma sample_flows_plain: "list_all (plain_flows sample_env) sample_flows"
  by code_simp

lemma sample_ledger_102: "ledger_ok sample_env 102 sample_state"
  by code_simp

definition sample_due :: "(addr \<times> string \<Rightarrow> int) pay_state" where
  "sample_due = sample_state\<lparr>autoSettleRecords := [((108, 5), ())]\<rparr>"

lemma sample_due_run:
  "fst (AutoSettle sample_env (sample_ctx 109 True) sample_due) = Ok ()"
  "outFlows (snd (AutoSettle sample_env (sample_ctx 109 True) sample_due)) = [((5, True, 6), 3)]"
  "autoSettleRecords (snd (AutoSettle sample_env (sample_ctx 109 True) sample_due)) = []"
  by code_simp+

lemma sample_due_ok: "ledger_ok sample_env 109 sample_due" "recipients_ok sample_env (outFlows sample_due)"
  by code_simp+

definition sample_deposit :: MsgDeposit where
  "sample_deposit = \<lparr>DCreator = ''aaaaaaa'', DTo = ''aaaaaa'', DAmount = 10\<rparr>"

lemma sample_deposit_run: "fst (Deposit sample_env (sample_ctx 102 False) sample_deposit sample_state) = Ok ()"
  by code_simp

lemma sample_sound: "sound_at sample_env 102 sample_state"
  by code_simp

definition sample_withdraw :: MsgWithdraw where
  "sample_withdraw = \<lparr>WCreator = ''aaaaaa'', WFrom = ''aaaaaa'', WAmount = 5\<rparr>"

lemma sample_withdraw_run: "fst (Withdraw sample_env (sample_ctx 102 False) sample_withdraw sample_state) = Ok ()"
  by code_simp

lemma sample_flows_ok: "flows_ok sample_state"
  by (auto simp: flows_ok_def sample_state_def kv_ok_def net_at_def frozen_at_def rates_at_def rates_def
      flow_sum_def in_active_def out_active_def out_frozen_def sample_record_def NewStreamRecord_def)

lemma sample_unforced_run:
  "fst (UpdateStreamRecord sample_env (sample_ctx 102 False) (sample_record 5 (- 3) 8 30 1)
     (NewDefaultStreamRecordChangeWithAddr 5) sample_state)
   = Ok ((sample_record 5 (- 3) 2 30 1)\<lparr>CrudTimestamp := 102, SettleTimestamp := 110\<rparr>)"
  by code_simp

definition sample_rich :: "(addr \<times> string \<Rightarrow> int) pay_state" where
  "sample_rich = sample_state\<lparr>streamRecords := [(6, sample_record 6 3 100 0 0)]\<rparr>"

definition sample_large_withdraw :: MsgWithdraw where
  "sample_large_withdraw = \<lparr>WCreator = ''aaaaaa'', WFrom = ''aaaaaa'', WAmount = 60\<rparr>"

lemma sample_large_run:
  "fst (Withdraw sample_env (sample_ctx 102 False) sample_large_withdraw sample_rich) = Ok ()"
  by code_simp

definition sample_versions :: "(addr \<times> string \<Rightarrow> int) pay_state" where
  "sample_versions = sample_state\<lparr>versionedParams :=
     [(10, \<lparr>ReserveTime = 1, ValidatorTaxRate = None\<rparr>), (20, \<lparr>ReserveTime = 2, ValidatorTaxRate = None\<rparr>)]\<rparr>"

end
