(* ===== verification/PaymentProps.thy ===== *)
theory PaymentProps
  imports PaymentSample
begin

text \<open>
  The properties of the payment module, each with the evaluation of it on the sample chain.
\<close>

text \<open>
  C1: An update of a stream record by address changes the difference between the books and the
  module's bank balance by exactly the static balance change it was asked for (by nothing on a
  frozen record), through accrual, lock, buffer, bank top-up and forced settlement.
\<close>

theorem update_conserves:
  assumes "UpdateStreamRecordByAddr E ctx ch s = (Ok r', s')"
    and "bank_laws E" and "ledger_ok E (BlockTime ctx) s"
    and "Addr ch \<noteq> ModuleAddress E ''payment''"
    and "Addr ch = GovernanceAddress E \<Longrightarrow>
      0 \<le> NetflowRate (fst (GetStreamRecord ctx (Addr ch) s)) + RateChange ch"
  shows "books (BlockTime ctx) s' - custody E s' = books (BlockTime ctx) s - custody E s
      + (if Status (fst (GetStreamRecord ctx (Addr ch) s)) = STREAM_ACCOUNT_STATUS_FROZEN then 0
         else StaticBalanceChange ch) \<and>
    ledger_ok E (BlockTime ctx) s'"
  using UpdateStreamRecordByAddr_ledger(1,2) [OF assms] by blast

theorem update_conserves_witness:
  "let s' = snd (UpdateStreamRecordByAddr sample_env (sample_ctx 109 True)
              (NewDefaultStreamRecordChangeWithAddr 5) sample_state)
   in books 109 s' - custody sample_env s' = books 109 sample_state - custody sample_env sample_state \<and>
      ledger_ok sample_env 109 s'"
proof -
  let ?run = "UpdateStreamRecordByAddr sample_env (sample_ctx 109 True)
              (NewDefaultStreamRecordChangeWithAddr 5) sample_state"
  have run: "?run = (Ok ((sample_record 5 (- 3) 0 0 1)\<lparr>CrudTimestamp := 109,
      Status := STREAM_ACCOUNT_STATUS_FROZEN, SettleTimestamp := 108\<rparr>), snd ?run)"
    using sample_settle by (simp add: prod_eq_iff)
  from update_conserves [OF run sample_bank_laws] sample_ledger show ?thesis
    by (simp add: sample_ctx_def change_defs sample_env_def sample_module_def Let_def)
qed

text \<open>
  C32: Charging a list of user flows leaves the difference of books and bank balance as it was, for
  payers and receivers that are neither the governance account nor the module's own account.
\<close>

theorem fee_charge_conserves:
  assumes "ApplyUserFlowsList E ctx us s = (Ok (), s')" and "bank_laws E"
    and "ledger_ok E (BlockTime ctx) s" and "list_all (plain_flows E) us"
  shows "books (BlockTime ctx) s' - custody E s' = books (BlockTime ctx) s - custody E s \<and>
    ledger_ok E (BlockTime ctx) s' \<and> delayedWithdrawals s' = delayedWithdrawals s"
  using ApplyUserFlowsList_balanced [OF assms] by (simp add: balanced_def)

theorem fee_charge_conserves_witness:
  "let s' = snd (ApplyUserFlowsList sample_env (sample_ctx 102 False) sample_flows sample_state)
   in books 102 s' - custody sample_env s' = books 102 sample_state - custody sample_env sample_state"
proof -
  let ?run = "ApplyUserFlowsList sample_env (sample_ctx 102 False) sample_flows sample_state"
  have run: "?run = (Ok (), snd ?run)" using sample_flows_run by (simp add: prod_eq_iff)
  from fee_charge_conserves [OF run sample_bank_laws _ sample_flows_plain] sample_ledger_102 show ?thesis
    by (simp add: sample_ctx_def Let_def)
qed

text \<open>
  C11: The end-block settlement keeps the ledger invariant and the difference of books and bank
  balance, over all accounts it settles and freezes in a block.
\<close>

theorem auto_settle_conserves:
  assumes "AutoSettle E ctx s = (Ok (), s')" and "bank_laws E" and "ledger_ok E (BlockTime ctx) s"
    and "recipients_ok E (outFlows s)" and "Forced ctx"
  shows "books (BlockTime ctx) s' - custody E s' = books (BlockTime ctx) s - custody E s \<and>
    ledger_ok E (BlockTime ctx) s' \<and> recipients_ok E (outFlows s')"
  using AutoSettle_quiet [OF assms] assms(3,4) by (simp add: quiet_def)

theorem auto_settle_conserves_witness:
  "let s' = snd (AutoSettle sample_env (sample_ctx 109 True) sample_due)
   in books 109 s' - custody sample_env s' = books 109 sample_due - custody sample_env sample_due \<and>
      outFlows s' = [((5, True, 6), 3)] \<and> autoSettleRecords s' = []"
proof -
  let ?run = "AutoSettle sample_env (sample_ctx 109 True) sample_due"
  have run: "?run = (Ok (), snd ?run)" using sample_due_run(1) by (simp add: prod_eq_iff)
  from auto_settle_conserves [OF run sample_bank_laws _ sample_due_ok(2)] sample_due_ok(1) sample_due_run(2,3)
  show ?thesis by (simp add: sample_ctx_def Let_def)
qed

text \<open>
  C30: A deposit leaves the difference between the liabilities (books and pending withdrawals) and the
  bank balance as it was: the coins taken in, including the swept balance of a payment account, are
  all credited, whether the account is new, active, or frozen and resumed.
\<close>

theorem deposit_conserves:
  assumes "Deposit E ctx msg s = (Ok (), s')" and "bank_laws E" and "sound_at E (BlockTime ctx) s"
    and "AccFromHex E (DCreator msg) \<noteq> Some (ModuleAddress E ''payment'')"
    and "AccFromHex E (DTo msg) \<noteq> Some (ModuleAddress E ''payment'')"
  shows "liabilities (BlockTime ctx) s' - custody E s' = liabilities (BlockTime ctx) s - custody E s \<and>
    ledger_ok E (BlockTime ctx) s'"
  using Deposit_balanced [OF assms] by blast

theorem deposit_conserves_witness:
  "let s' = snd (Deposit sample_env (sample_ctx 102 False) sample_deposit sample_state)
   in liabilities 102 s' - custody sample_env s' = liabilities 102 sample_state - custody sample_env sample_state"
proof -
  let ?run = "Deposit sample_env (sample_ctx 102 False) sample_deposit sample_state"
  have run: "?run = (Ok (), snd ?run)" using sample_deposit_run by (simp add: prod_eq_iff)
  from deposit_conserves [OF run sample_bank_laws] sample_sound show ?thesis
    by (simp add: sample_ctx_def Let_def sample_deposit_def sample_env_def sample_module_def)
qed

text \<open>
  C31: A withdrawal leaves the difference between liabilities and bank balance as it was, whether it
  is paid at once, put under the time lock, or paid after the time lock.
\<close>

theorem withdraw_conserves:
  assumes "Withdraw E ctx msg s = (Ok (), s')" and "bank_laws E" and "ledger_ok E (BlockTime ctx) s"
    and "kv_ok (delayedWithdrawals s)"
    and "AccFromHex E (WCreator msg) \<noteq> Some (ModuleAddress E ''payment'')"
  shows "liabilities (BlockTime ctx) s' - custody E s' = liabilities (BlockTime ctx) s - custody E s \<and>
    ledger_ok E (BlockTime ctx) s'"
  using Withdraw_balanced [OF assms] .

theorem withdraw_conserves_witness:
  "let s' = snd (Withdraw sample_env (sample_ctx 102 False) sample_withdraw sample_state)
   in liabilities 102 s' - custody sample_env s' = liabilities 102 sample_state - custody sample_env sample_state"
proof -
  let ?run = "Withdraw sample_env (sample_ctx 102 False) sample_withdraw sample_state"
  have run: "?run = (Ok (), snd ?run)" using sample_withdraw_run by (simp add: prod_eq_iff)
  from withdraw_conserves [OF run sample_bank_laws] sample_ledger_102 show ?thesis
    by (simp add: sample_ctx_def Let_def sample_withdraw_def sample_env_def sample_module_def sample_state_def)
qed

text \<open>
  C33: Charging user flows keeps the flow ledger: afterwards, too, every account's net rate is the sum
  of its active incoming flows minus the sum of its active outgoing flows, and its frozen rate is the
  negated sum of its frozen outgoing flows.
\<close>

theorem fee_charge_keeps_flows:
  assumes "ApplyUserFlowsList E ctx us s = (Ok (), s')" and "bank_laws E"
    and "ledger_ok E (BlockTime ctx) s" and "list_all (plain_flows E) us" and "flows_ok s"
  shows "flows_ok s'"
  using ApplyUserFlowsList_flows [OF assms] .

theorem fee_charge_keeps_flows_witness:
  "flows_ok (snd (ApplyUserFlowsList sample_env (sample_ctx 102 False) sample_flows sample_state))"
proof -
  let ?run = "ApplyUserFlowsList sample_env (sample_ctx 102 False) sample_flows sample_state"
  have run: "?run = (Ok (), snd ?run)" using sample_flows_run by (simp add: prod_eq_iff)
  from fee_charge_keeps_flows [OF run sample_bank_laws _ sample_flows_plain sample_flows_ok] sample_ledger_102
  show ?thesis by (simp add: sample_ctx_def)
qed

text \<open>
  C17: Charging fees creates no money at any later time.  After a successful charge of user flows (payers
  and receivers neither the governance nor the module account, flow ledger and ledger invariant holding
  before) the books read at any later time \<open>t'\<close> differ from the bank balance by what they differed before
  the charge, less the elapsed time at the rates of frozen accounts, which are not accrued; with no
  frozen account the difference never changes again.
\<close>

theorem books_over_time:
  assumes "ApplyUserFlowsList E ctx us s = (Ok (), s')" and "bank_laws E"
    and "ledger_ok E (BlockTime ctx) s" and "list_all (plain_flows E) us" and "flows_ok s"
  shows "books t' s' - custody E s' =
    books (BlockTime ctx) s - custody E s - (t' - BlockTime ctx) * frozen_rate s'"
proof -
  have b: "books (BlockTime ctx) s' - custody E s' = books (BlockTime ctx) s - custody E s" "ledger_ok E (BlockTime ctx) s'"
    using ApplyUserFlowsList_balanced [OF assms(1-4)] by (simp_all add: balanced_def)
  then have "kv_ok (streamRecords s')" by (simp add: ledger_ok_def)
  from netflow_balance [OF this ApplyUserFlowsList_flows [OF assms]] have "active_rate s' = - frozen_rate s'" by simp
  with b(1) show ?thesis using books_time [of t' s' "BlockTime ctx"] by simp
qed

theorem books_over_time_witness:
  "let s' = snd (ApplyUserFlowsList sample_env (sample_ctx 102 False) sample_flows sample_state)
   in books 1000 s' - custody sample_env s' = books 102 sample_state - custody sample_env sample_state"
proof -
  let ?run = "ApplyUserFlowsList sample_env (sample_ctx 102 False) sample_flows sample_state"
  have run: "?run = (Ok (), snd ?run)" using sample_flows_run by (simp add: prod_eq_iff)
  have "frozen_rate (snd ?run) = 0" by code_simp
  with books_over_time [OF run sample_bank_laws _ sample_flows_plain sample_flows_ok, of 1000] sample_ledger_102
  show ?thesis by (simp add: sample_ctx_def Let_def)
qed

text \<open>
  C16: A successful update outside the end block leaves the account solvent: it was and stays active;
  with a negative rate its buffer is the reserve time times the rate and its funds last longer than
  the forced settlement time; otherwise its buffer and settlement time are zero; and an update that
  pays leaves no negative static balance.
\<close>

theorem unforced_update_solvent:
  assumes "UpdateStreamRecord E ctx r ch s = (Ok r', s')" and "\<not> Forced ctx"
  shows "Status r \<noteq> STREAM_ACCOUNT_STATUS_FROZEN \<and> Status r' = Status r \<and>
    (if NetflowRate r' < 0
     then BufferBalance r' = \<bar>NetflowRate r'\<bar> * int (ReserveTime (Versioned (GetParams s))) \<and>
       int (ForcedSettleTime (GetParams s)) < quo (StaticBalance r' + BufferBalance r') \<bar>NetflowRate r'\<bar>
     else BufferBalance r' = 0 \<and> SettleTimestamp r' = 0) \<and>
    (StaticBalanceChange ch < 0 \<or> RateChange ch < 0 \<longrightarrow> 0 \<le> StaticBalance r')"
  using unforced_update [OF assms] by auto

theorem unforced_update_solvent_witness:
  "int (ForcedSettleTime (GetParams sample_state)) < quo (2 + 30) 3"
proof -
  let ?run = "UpdateStreamRecord sample_env (sample_ctx 102 False) (sample_record 5 (- 3) 8 30 1)
     (NewDefaultStreamRecordChangeWithAddr 5) sample_state"
  have run: "?run = (Ok ((sample_record 5 (- 3) 2 30 1)\<lparr>CrudTimestamp := 102, SettleTimestamp := 110\<rparr>), snd ?run)"
    using sample_unforced_run by (simp add: prod_eq_iff)
  from unforced_update_solvent [OF run] show ?thesis
    by (simp add: sample_ctx_def sample_record_def NewStreamRecord_def)
qed

text \<open>
  C34: A forced update never returns an error, so that the branch of the end-block settlement that
  logs a failed update and goes on is never taken.
\<close>

theorem forced_update_never_errs:
  assumes "Forced ctx"
  shows "UpdateStreamRecord E ctx r ch s \<noteq> (Err e, s')"
  using update_rec_forced_no_Err [OF assms] by (simp add: UpdateStreamRecord_def)

theorem forced_update_never_errs_witness:
  "UpdateStreamRecord sample_env (sample_ctx 300 True) (sample_record 5 (- 3) 8 30 1)
     (WithRateChange (NewDefaultStreamRecordChangeWithAddr 5) (- 1000)) sample_state
   \<noteq> (Err (ErrLack 5 0), sample_state)"
  by (rule forced_update_never_errs) (simp add: sample_ctx_def)

text \<open>
  C35: A call depth of two is enough for every update while the governance account is active with a
  non-negative rate: a forced settlement never nests further, and a larger depth gives the same result.
\<close>

theorem update_depth_two:
  assumes "ledger_ok E (BlockTime ctx) s" and "2 \<le> n"
  shows "update_rec n E ctx r ch s = update_rec 2 E ctx r ch s"
proof -
  from assms(2) obtain m where "n = Suc (Suc m)" by (auto simp: le_iff_add)
  then show ?thesis using update_depth [OF assms(1)] by simp
qed

theorem update_depth_two_witness:
  "update_rec 50 sample_env (sample_ctx 109 True) (sample_record 5 (- 3) 0 30 1)
       (NewDefaultStreamRecordChangeWithAddr 5) sample_state
     = update_rec 2 sample_env (sample_ctx 109 True) (sample_record 5 (- 3) 0 30 1)
       (NewDefaultStreamRecordChangeWithAddr 5) sample_state"
  by (rule update_depth_two) (simp_all add: sample_ctx_def sample_ledger)

text \<open>
  C36: Merging two or more changes yields one change per address, sorted by the textual form of the
  address, whose rate, static and lock changes are the sums over the merged ones.
\<close>

theorem merge_changes_sums:
  assumes "1 < length cs"
  shows "distinct (map Addr (MergeStreamRecordChanges E cs)) \<and>
    sorted (map (\<lambda>c. AccString E (Addr c)) (MergeStreamRecordChanges E cs)) \<and>
    Addr ` set (MergeStreamRecordChanges E cs) = Addr ` set cs \<and>
    (\<forall>a. sum_at Addr RateChange a (MergeStreamRecordChanges E cs) = sum_at Addr RateChange a cs \<and>
         sum_at Addr StaticBalanceChange a (MergeStreamRecordChanges E cs) = sum_at Addr StaticBalanceChange a cs \<and>
         sum_at Addr LockBalanceChange a (MergeStreamRecordChanges E cs) = sum_at Addr LockBalanceChange a cs)"
  using merged_changes [OF assms, where E = E] merged_sum [where E = E] by simp

theorem merge_changes_sums_witness:
  "sum_at Addr RateChange 6 (MergeStreamRecordChanges sample_env
     [WithRateChange (NewDefaultStreamRecordChangeWithAddr 6) 3,
      WithRateChange (NewDefaultStreamRecordChangeWithAddr 5) 4,
      WithRateChange (NewDefaultStreamRecordChangeWithAddr 6) (- 1)]) = 2"
  using merge_changes_sums [of "[WithRateChange (NewDefaultStreamRecordChangeWithAddr 6) 3,
      WithRateChange (NewDefaultStreamRecordChangeWithAddr 5) 4,
      WithRateChange (NewDefaultStreamRecordChangeWithAddr 6) (- 1)]" sample_env]
  by (simp add: sum_at_def change_defs)

text \<open>
  C37: Merging two or more flows yields exactly the receivers whose rates do not cancel, each once, in
  the order of their textual form, with the sum of their rates.
\<close>

theorem merge_flows_exact:
  assumes "1 < length fs"
  shows "distinct (map ToAddress (MergeOutFlows E fs)) \<and>
    sorted (map (\<lambda>f. AccString E (ToAddress f)) (MergeOutFlows E fs)) \<and>
    set (MergeOutFlows E fs) = {f. FlowStatus f = OUT_FLOW_STATUS_ACTIVE \<and> Rate f \<noteq> 0 \<and>
      Rate f = sum_at ToAddress Rate (ToAddress f) fs}"
  using merged_flows [OF assms, where E = E] by auto

theorem merge_flows_exact_witness:
  "set (MergeOutFlows sample_env [\<lparr>ToAddress = 6, Rate = 3, FlowStatus = OUT_FLOW_STATUS_ACTIVE\<rparr>,
      \<lparr>ToAddress = 6, Rate = - 3, FlowStatus = OUT_FLOW_STATUS_FROZEN\<rparr>]) = {}"
  using merge_flows_exact [of "[\<lparr>ToAddress = 6, Rate = 3, FlowStatus = OUT_FLOW_STATUS_ACTIVE\<rparr>,
      \<lparr>ToAddress = 6, Rate = - 3, FlowStatus = OUT_FLOW_STATUS_FROZEN\<rparr>]" sample_env]
  by (auto simp: sum_at_def)

text \<open>
  C10: The withdrawal time lock, for messages outside the end block, with the bank.  A withdrawal without
  a source account succeeds only for a delayed withdrawal of the creator of exactly that amount whose
  unlock time has passed; it pays the amount from the module to the creator, changes no other
  balance, removes the record and nothing else, and the same message fails from then on.  A withdrawal
  from a stream account debits the account by the amount (net of what the bank balance of that account
  tops up).  From the threshold on it pays nothing out: it records the delayed withdrawal with its unlock
  time, where none was, and the bank has moved nothing but the top-up.  Below the threshold the amount is
  paid to the creator and no delayed withdrawal changes.
\<close>

theorem withdraw_timelock:
  assumes "Withdraw E ctx msg s = (Ok (), s')" and "AccFromHex E (WCreator msg) = Some c"
    and "\<not> Forced ctx" and "bank_laws E" and "ledger_ok E (BlockTime ctx) s" and "kv_ok (delayedWithdrawals s)"
    and "m = ModuleAddress E ''payment''" and "d = FeeDenom (GetParams s)" and "w = WAmount msg"
  shows "if WFrom msg = []
    then (\<exists>dw. GetDelayedWithdrawalRecord c s = Some dw \<and> Amount dw = w \<and> UnlockTimestamp dw < BlockTime ctx) \<and>
      transfers E (bank s) (bank s') m c d w \<and>
      s' = s\<lparr>delayedWithdrawals := kv_del c (delayedWithdrawals s), bank := bank s'\<rparr> \<and>
      (\<forall>later. Withdraw E later msg s' = (Err ErrNoDelayedWithdrawal, s'))
    else \<exists>a th k b. AccFromHex E (WFrom msg) = Some a \<and> WithdrawTimeLockThreshold (GetParams s) = Some th \<and>
      0 \<le> k \<and> transfers E (bank s) b a m d k \<and>
      worth_at (BlockTime ctx) (fst (GetStreamRecord ctx a s')) = worth_at (BlockTime ctx) (fst (GetStreamRecord ctx a s)) - w + k \<and>
      (\<forall>x. x \<noteq> a \<longrightarrow> map_of (streamRecords s') x = map_of (streamRecords s) x) \<and>
      (if th \<le> w
       then bank s' = b \<and> GetDelayedWithdrawalRecord c s = None \<and>
         GetDelayedWithdrawalRecord c s' = Some \<lparr>DAddr = c, Amount = w, DFrom = a,
           UnlockTimestamp = wrap_int64 (BlockTime ctx + wrap_int64 (int (WithdrawTimeLockDuration (GetParams s))))\<rparr>
       else transfers E b (bank s') m c d w \<and> delayedWithdrawals s' = delayedWithdrawals s)"
proof (cases "WFrom msg = []")
  case True
  then have run: "withdraw_delayed E ctx c w s = (Ok (), s')"
    using assms(1,2,9) by (simp add: Withdraw_def MustAccAddressFromHex_def)
  note del = withdraw_delayed_Ok [OF run assms(4)]
  have "GetDelayedWithdrawalRecord c s' = None"
    using assms(6) by (subst del(3)) (simp add: GetDelayedWithdrawalRecord_def kv.get_del)
  then have "Withdraw E later msg s' = (Err ErrNoDelayedWithdrawal, s')" for later
    using True assms(2) by (simp add: Withdraw_def MustAccAddressFromHex_def withdraw_delayed_def)
  with True del assms(7,8) show ?thesis by simp
next
  case False
  then obtain a where a: "AccFromHex E (WFrom msg) = Some a" and run: "withdraw_stream E ctx c a w s = (Ok (), s')"
    using assms(1,2,9) by (auto simp: Withdraw_def MustAccAddressFromHex_def andthen_eq_Ok split: option.splits)
  obtain th t k where th: "WithdrawTimeLockThreshold (GetParams s) = Some th" and k: "0 \<le> k" "transfers E (bank s) (bank t) a m d k"
    "worth_at (BlockTime ctx) (fst (GetStreamRecord ctx a t)) = worth_at (BlockTime ctx) (fst (GetStreamRecord ctx a s)) - w + k"
    and rest: "\<And>x. x \<noteq> a \<Longrightarrow> map_of (streamRecords t) x = map_of (streamRecords s) x"
    and t: "GetParams t = GetParams s" "delayedWithdrawals t = delayedWithdrawals s"
    and fin: "if th \<le> w then GetDelayedWithdrawalRecord c s = None \<and>
        s' = SetDelayedWithdrawalRecord \<lparr>DAddr = c, Amount = w, DFrom = a, UnlockTimestamp = wrap_int64 (BlockTime ctx
          + wrap_int64 (int (WithdrawTimeLockDuration (GetParams s))))\<rparr> t
     else bankTransfer E c w t = (Ok (), s')"
    by (rule withdraw_stream_Ok [OF run assms(3-5), folded assms(7,8)]) (rule that)
  show ?thesis
  proof (cases "th \<le> w")
    case True
    with False a th k rest fin show ?thesis
      by (auto simp: SetDelayedWithdrawalRecord_def GetDelayedWithdrawalRecord_def GetStreamRecord_def map_of_kv_set)
  next
    case small: False
    with fin have "bankTransfer E c w t = (Ok (), s')" by simp
    note pay = bankTransfer_pays [OF this assms(4)]
    have "transfers E (bank t) (bank s') m c d w" using pay(1) t(1) assms(7,8) by simp
    moreover have "streamRecords s' = streamRecords t" "delayedWithdrawals s' = delayedWithdrawals s"
      using arg_cong [OF pay(2), of streamRecords] arg_cong [OF pay(2), of delayedWithdrawals] t(2) by simp_all
    ultimately show ?thesis using False small a th k rest by (auto simp: GetStreamRecord_def)
  qed
qed

theorem withdraw_timelock_witness:
  "let s' = snd (Withdraw sample_env (sample_ctx 102 False) sample_large_withdraw sample_rich) in
   GetDelayedWithdrawalRecord 6 s' = Some \<lparr>DAddr = 6, Amount = 60, DFrom = 6, UnlockTimestamp = 202\<rparr> \<and>
   (\<exists>k \<ge> 0. transfers sample_env (bank sample_rich) (bank s') 6 (ModuleAddress sample_env ''payment'') (FeeDenom (GetParams sample_rich)) k)"
proof -
  let ?run = "Withdraw sample_env (sample_ctx 102 False) sample_large_withdraw sample_rich"
  have run: "?run = (Ok (), snd ?run)" using sample_large_run by (simp add: prod_eq_iff)
  have ne: "WFrom sample_large_withdraw \<noteq> []" by code_simp
  have pre: "AccFromHex sample_env (WCreator sample_large_withdraw) = Some 6" "\<not> Forced (sample_ctx 102 False)"
    "ledger_ok sample_env (BlockTime (sample_ctx 102 False)) sample_rich" "kv_ok (delayedWithdrawals sample_rich)"
    by code_simp+
  have vals: "WithdrawTimeLockThreshold (GetParams sample_rich) = Some 50"
    "AccFromHex sample_env (WFrom sample_large_withdraw) = Some 6" "WAmount sample_large_withdraw = 60"
    "wrap_int64 (BlockTime (sample_ctx 102 False) + wrap_int64 (int (WithdrawTimeLockDuration (GetParams sample_rich)))) = 202"
    by code_simp+
  from withdraw_timelock [OF run pre(1,2) sample_bank_laws pre(3,4) refl refl refl, unfolded if_not_P [OF ne] vals]
  show ?thesis by (auto simp: Let_def)
qed

text \<open>
  C38: The versioned parameters read for a time are those of the latest version strictly before it;
  reading fails exactly when every version is of that time or later.
\<close>

theorem versioned_params_latest:
  assumes "kv_ok (versionedParams s)"
  shows "(GetVersionedParamsWithTs s ts = Inr vp \<longrightarrow>
      (\<exists>k. map_of (versionedParams s) k = Some vp \<and> k < wrap_uint64 ts \<and>
        (\<forall>j \<in> dom (map_of (versionedParams s)). j < wrap_uint64 ts \<longrightarrow> j \<le> k))) \<and>
    (GetVersionedParamsWithTs s ts = Inl ErrNoVersionedParams \<longleftrightarrow>
      (\<forall>j \<in> dom (map_of (versionedParams s)). wrap_uint64 ts \<le> j))"
proof
  show "GetVersionedParamsWithTs s ts = Inr vp \<longrightarrow>
      (\<exists>k. map_of (versionedParams s) k = Some vp \<and> k < wrap_uint64 ts \<and>
        (\<forall>j \<in> dom (map_of (versionedParams s)). j < wrap_uint64 ts \<longrightarrow> j \<le> k))"
    using GetVersionedParams_last [OF assms] by blast
  have "GetVersionedParamsWithTs s ts = Inl ErrNoVersionedParams
      \<longleftrightarrow> filter (\<lambda>(k, _). k < wrap_uint64 ts) (versionedParams s) = []"
    by (auto simp: GetVersionedParamsWithTs_def split: list.splits)
  also have "\<dots> \<longleftrightarrow> (\<forall>j \<in> dom (map_of (versionedParams s)). wrap_uint64 ts \<le> j)"
    by (auto simp: filter_empty_conv not_less dom_map_of_conv_image_fst)
  finally show "GetVersionedParamsWithTs s ts = Inl ErrNoVersionedParams \<longleftrightarrow>
      (\<forall>j \<in> dom (map_of (versionedParams s)). wrap_uint64 ts \<le> j)" .
qed

theorem versioned_params_latest_witness:
  "GetVersionedParamsWithTs sample_versions 20 = Inr \<lparr>ReserveTime = 1, ValidatorTaxRate = None\<rparr> \<and>
   GetVersionedParamsWithTs sample_versions 10 = Inl ErrNoVersionedParams"
proof -
  have kv: "kv_ok (versionedParams sample_versions)" by code_simp
  have "\<forall>j \<in> dom (map_of (versionedParams sample_versions)). wrap_uint64 10 \<le> j"
    by (auto simp: sample_versions_def wrap_uint64_def split: if_splits)
  with versioned_params_latest [OF kv, of 10]
  have "GetVersionedParamsWithTs sample_versions 10 = Inl ErrNoVersionedParams" by blast
  moreover have "GetVersionedParamsWithTs sample_versions 20 = Inr \<lparr>ReserveTime = 1, ValidatorTaxRate = None\<rparr>"
    by code_simp
  ultimately show ?thesis by blast
qed

text \<open>
  C39: Starting a chain from an exported genesis restores the stream records, the payment accounts
  and their counts, the settlement queue and the parameters, and nothing else: the out flows, the
  resumption queue, the delayed withdrawals and the history of the versioned parameters start empty.
\<close>

theorem genesis_restores:
  assumes "stores_ok s" and "Validate (GetParams s) = None"
  shows "InitGenesis ctx (ExportGenesis s) (empty_state b) = (Ok (),
    (empty_state b)\<lparr>streamRecords := streamRecords s, paymentAccountCounts := paymentAccountCounts s,
      paymentAccounts := paymentAccounts s, autoSettleRecords := autoSettleRecords s,
      payParams := Some (GetParams s),
      versionedParams := [(wrap_uint64 (BlockTime ctx), Versioned (GetParams s))]\<rparr>)"
  using genesis_reload [OF assms] .

theorem genesis_restores_witness:
  "outFlows sample_state \<noteq> [] \<and>
   outFlows (snd (InitGenesis (sample_ctx 200 False) (ExportGenesis sample_state) (empty_state (bank sample_state)))) = []"
proof -
  have "stores_ok sample_state"
    by (simp add: stores_ok_def sample_state_def kv_ok_def CheckStreamRecord_def sample_record_def NewStreamRecord_def)
  moreover have "Validate (GetParams sample_state) = None" by code_simp
  ultimately have "outFlows (snd (InitGenesis (sample_ctx 200 False) (ExportGenesis sample_state)
      (empty_state (bank sample_state)))) = outFlows (empty_state (bank sample_state))"
    by (simp add: genesis_restores)
  moreover have "outFlows sample_state \<noteq> []" by (simp add: sample_state_def)
  ultimately show ?thesis by (simp add: empty_state_def)
qed

end
