(* ===== verification/AccessList.thy ===== *)
theory AccessList
  imports KVStore
begin

text \<open>
  The access list of a transaction (\<open>x/evm/statedb/access_list.go\<close>, EIP-2929): a map from
  addresses to an index into a list of slot sets, -1 for an address without slots.  A Go map is
  a sorted association list and a set of hashes a map into \<open>unit\<close>, as in the source.

  The locale \<open>access_list\<close> is the contract the state database relies on: the list behaves as a
  set of addresses and a set of (address, slot) pairs, and the two deletions undo the latest
  addition exactly.  The second half of the theory shows that the code's index representation
  meets it, under the invariant \<open>al_ok\<close>.
\<close>

type_synonym address = "160 word"
type_synonym hash = "256 word"

record accessList =
  addresses :: "(address \<times> int) list"
  slots :: "(hash \<times> unit) list list"

definition newAccessList :: accessList where
  "newAccessList = \<lparr>addresses = [], slots = []\<rparr>"

definition ContainsAddress :: "accessList \<Rightarrow> address \<Rightarrow> bool" where
  "ContainsAddress al a = kv_has (addresses al) a"

text \<open>\<open>al.slots[idx]\<close> panics on an index out of range.\<close>

definition slot_map :: "accessList \<Rightarrow> int \<Rightarrow> (hash \<times> unit) list option" where
  "slot_map al idx =
     (if 0 \<le> idx \<and> nat idx < length (slots al) then Some (slots al ! nat idx) else None)"

definition Contains :: "accessList \<Rightarrow> address \<Rightarrow> hash \<Rightarrow> ('e, bool \<times> bool) outcome" where
  "Contains al a slot = (case map_of (addresses al) a of
      None \<Rightarrow> Ok (False, False)
    | Some idx \<Rightarrow>
        if idx = -1 then Ok (True, False)
        else (case slot_map al idx of
            None \<Rightarrow> Panic
          | Some m \<Rightarrow> Ok (True, kv_has m slot)))"

definition AddAddress :: "address \<Rightarrow> accessList \<Rightarrow> bool \<times> accessList" where
  "AddAddress a al =
     (if kv_has (addresses al) a then (False, al)
      else (True, al\<lparr>addresses := kv_set a (-1) (addresses al)\<rparr>))"

definition AddSlot ::
  "address \<Rightarrow> hash \<Rightarrow> accessList \<Rightarrow> ('e, bool \<times> bool) outcome \<times> accessList" where
  "AddSlot a slot al = (case map_of (addresses al) a of
      None \<Rightarrow> (Ok (True, True),
        al\<lparr>addresses := kv_set a (int (length (slots al))) (addresses al),
           slots := slots al @ [[(slot, ())]]\<rparr>)
    | Some idx \<Rightarrow>
        if idx = -1 then (Ok (False, True),
          al\<lparr>addresses := kv_set a (int (length (slots al))) (addresses al),
             slots := slots al @ [[(slot, ())]]\<rparr>)
        else (case slot_map al idx of
            None \<Rightarrow> (Panic, al)
          | Some m \<Rightarrow>
              if kv_has m slot then (Ok (False, False), al)
              else (Ok (False, True),
                al\<lparr>slots := (slots al)[nat idx := kv_set slot () m]\<rparr>)))"

definition DeleteSlot :: "address \<Rightarrow> hash \<Rightarrow> accessList \<Rightarrow> ('e, unit) outcome \<times> accessList" where
  "DeleteSlot a slot al = (case map_of (addresses al) a of
      None \<Rightarrow> (Panic, al)
    | Some idx \<Rightarrow> (case slot_map al idx of
          None \<Rightarrow> (Panic, al)
        | Some m \<Rightarrow>
            (let m' = kv_del slot m in
             if m' = [] then (Ok (), al\<lparr>slots := take (nat idx) (slots al),
                                      addresses := kv_set a (-1) (addresses al)\<rparr>)
             else (Ok (), al\<lparr>slots := (slots al)[nat idx := m']\<rparr>))))"

definition DeleteAddress :: "address \<Rightarrow> accessList \<Rightarrow> accessList" where
  "DeleteAddress a al = al\<lparr>addresses := kv_del a (addresses al)\<rparr>"


section \<open>The contract\<close>

locale access_list =
  fixes ok :: "'l \<Rightarrow> bool"
    and has_addr :: "'l \<Rightarrow> 'a \<Rightarrow> bool"
    and has_slot :: "'l \<Rightarrow> 'a \<Rightarrow> 'h \<Rightarrow> bool"
    and add_addr :: "'a \<Rightarrow> 'l \<Rightarrow> bool \<times> 'l"
    and add_slot :: "'a \<Rightarrow> 'h \<Rightarrow> 'l \<Rightarrow> ('e, bool \<times> bool) outcome \<times> 'l"
    and del_addr :: "'a \<Rightarrow> 'l \<Rightarrow> 'l"
    and del_slot :: "'a \<Rightarrow> 'h \<Rightarrow> 'l \<Rightarrow> ('e, unit) outcome \<times> 'l"
  assumes add_addr_ok: "ok l \<Longrightarrow> add_addr a l = (n, l') \<Longrightarrow>
      ok l' \<and> n = (\<not> has_addr l a) \<and>
      has_addr l' b = (b = a \<or> has_addr l b) \<and> has_slot l' b h = has_slot l b h"
    and add_slot_ok: "ok l \<Longrightarrow> \<exists>l'. add_slot a h l = (Ok (\<not> has_addr l a, \<not> has_slot l a h), l') \<and>
      ok l' \<and> (\<forall>b. has_addr l' b = (b = a \<or> has_addr l b)) \<and>
      (\<forall>b g. has_slot l' b g = ((b = a \<and> g = h) \<or> has_slot l b g))"
    and slot_addr: "ok l \<Longrightarrow> has_slot l a h \<Longrightarrow> has_addr l a"
    and undo_addr: "ok l \<Longrightarrow> add_addr a l = (True, l') \<Longrightarrow> del_addr a l' = l"
    and undo_slot: "ok l \<Longrightarrow> has_addr l a \<Longrightarrow> add_slot a h l = (Ok (False, True), l') \<Longrightarrow>
      del_slot a h l' = (Ok (), l)"
    and undo_both: "ok l \<Longrightarrow> add_slot a h l = (Ok (True, True), l') \<Longrightarrow>
      \<exists>m. del_slot a h l' = (Ok (), m) \<and> del_addr a m = l \<and> add_addr a l = (True, m)"
begin

text \<open>Adding a slot to a known address never reports an address change.\<close>

lemma add_slot_known: "ok l \<Longrightarrow> has_addr l a \<Longrightarrow>
    fst (add_slot a h l) = Ok (False, \<not> has_slot l a h)"
  using add_slot_ok [of l a h] by auto

text \<open>An addition that reports no change leaves both sets as they were.\<close>

lemma add_slot_no_change:
  assumes "ok l" "add_slot a h l = (Ok (False, False), l')"
  shows "has_addr l' b = has_addr l b" "has_slot l' b g = has_slot l b g"
  using add_slot_ok [OF assms(1), of a h] assms(2) by auto

end


section \<open>The index representation meets it\<close>

definition al_ok :: "accessList \<Rightarrow> bool" where
  "al_ok al \<longleftrightarrow> kv_ok (addresses al) \<and>
     (\<forall>m \<in> set (slots al). kv_ok m \<and> m \<noteq> []) \<and>
     (\<forall>a i. map_of (addresses al) a = Some i \<longrightarrow> i = -1 \<or> 0 \<le> i \<and> nat i < length (slots al)) \<and>
     (\<forall>a b i. map_of (addresses al) a = Some i \<and> map_of (addresses al) b = Some i \<and> 0 \<le> i \<longrightarrow> a = b)"

definition has_slot :: "accessList \<Rightarrow> address \<Rightarrow> hash \<Rightarrow> bool" where
  "has_slot al a slot = (case map_of (addresses al) a of
      None \<Rightarrow> False
    | Some idx \<Rightarrow> (case slot_map al idx of None \<Rightarrow> False | Some m \<Rightarrow> kv_has m slot))"

lemma al_ok_new [simp]: "al_ok newAccessList"
  by (simp add: al_ok_def newAccessList_def)

lemma al_ok_index:
  "al_ok al \<Longrightarrow> map_of (addresses al) a = Some i \<Longrightarrow> i \<noteq> -1 \<Longrightarrow> 0 \<le> i \<and> nat i < length (slots al)"
  unfolding al_ok_def by blast

lemma al_ok_owner:
  "al_ok al \<Longrightarrow> map_of (addresses al) a = Some i \<Longrightarrow> map_of (addresses al) b = Some i \<Longrightarrow> 0 \<le> i \<Longrightarrow> a = b"
  unfolding al_ok_def by blast

lemma al_ok_maps: "al_ok al \<Longrightarrow> m \<in> set (slots al) \<Longrightarrow> kv_ok m \<and> m \<noteq> []"
  unfolding al_ok_def by blast

lemma al_ok_kv [simp]: "al_ok al \<Longrightarrow> kv_ok (addresses al)"
  unfolding al_ok_def by blast

text \<open>The three shapes an address has in a well-formed list.\<close>

lemma al_cases [consumes 1, case_names absent bare slots]:
  assumes "al_ok al"
  obtains "map_of (addresses al) a = None"
  | "map_of (addresses al) a = Some (-1)"
  | n m where "map_of (addresses al) a = Some (int n)" "n < length (slots al)" "slots al ! n = m"
      "kv_ok m" "m \<noteq> []" "slot_map al (int n) = Some m"
proof (cases "map_of (addresses al) a")
  case (Some i)
  show ?thesis
  proof (cases "i = -1")
    case False
    with assms Some have "0 \<le> i" "nat i < length (slots al)" by (auto dest: al_ok_index)
    moreover from this assms have "kv_ok (slots al ! nat i)" "slots al ! nat i \<noteq> []"
      by (auto dest: al_ok_maps [OF _ nth_mem])
    ultimately show ?thesis using Some that(3) [of "nat i"] by (simp add: slot_map_def)
  qed (use Some that in simp)
qed (use that in simp)

lemma slot_map_bare [simp]: "slot_map al (-1) = None"
  by (simp add: slot_map_def)

lemma Contains_spec:
  assumes "al_ok al"
  shows "Contains al a slot = Ok (ContainsAddress al a, has_slot al a slot)"
  using assms
  by (cases rule: al_cases [where a = a])
    (simp_all add: Contains_def ContainsAddress_def has_slot_def kv_has_def)

lemma has_slot_append [simp]: "has_slot (al\<lparr>addresses := kv_set a (int (length (slots al))) (addresses al),
      slots := slots al @ [[(slot, ())]]\<rparr>) b g = 
   (if b = a then g = slot else has_slot al b g)" if "al_ok al"
proof (cases "b = a")
  case True
  then show ?thesis by (simp add: has_slot_def kv_simps slot_map_def kv_has_def)
next
  case False
  show ?thesis
    using that
  proof (cases rule: al_cases [where a = b])
    case (slots n m)
    with False show ?thesis by (simp add: has_slot_def kv_simps slot_map_def nth_append)
  qed (use False in \<open>simp_all add: has_slot_def kv_simps slot_map_def\<close>)
qed

lemma al_ok_append:
  assumes "al_ok al" "map_of (addresses al) a = None \<or> map_of (addresses al) a = Some (-1)"
  shows "al_ok (al\<lparr>addresses := kv_set a (int (length (slots al))) (addresses al),
      slots := slots al @ [[(slot, ())]]\<rparr>)"
proof -
  have "map_of (addresses al) b \<noteq> Some (int (length (slots al)))" for b
    using al_ok_index [OF assms(1), of b] by auto
  with assms show ?thesis
    unfolding al_ok_def by (auto simp: kv_simps kv_ok_def [of "[_]"] less_Suc_eq)
qed

lemma al_ok_bare:
  assumes "al_ok al"
  shows "al_ok (al\<lparr>addresses := kv_set a (-1) (addresses al)\<rparr>)"
  using assms unfolding al_ok_def by (auto simp: kv_simps)

lemma al_ok_insert:
  assumes "al_ok al" "n < length (slots al)" "slots al ! n = m"
  shows "al_ok (al\<lparr>slots := (slots al)[n := kv_set slot () m]\<rparr>)"
proof -
  have "kv_ok m" using assms by (auto dest: al_ok_maps [OF _ nth_mem])
  with assms show ?thesis
    unfolding al_ok_def by (auto simp: kv_simps dest!: set_update_subset_insert [THEN subsetD])
qed

lemma AddAddress_ok:
  assumes "al_ok al" "AddAddress a al = (n, al')"
  shows "al_ok al' \<and> n = (\<not> ContainsAddress al a) \<and>
    ContainsAddress al' b = (b = a \<or> ContainsAddress al b) \<and> has_slot al' b h = has_slot al b h"
  using assms
  by (auto simp: AddAddress_def ContainsAddress_def kv_simps has_slot_def slot_map_def kv_has_def
      al_ok_bare split: if_splits option.splits)

lemma has_slot_insert:
  assumes "al_ok al" "map_of (addresses al) a = Some (int n)" "n < length (slots al)" "slots al ! n = m"
  shows "has_slot (al\<lparr>slots := (slots al)[n := kv_set slot () m]\<rparr>) b g
     \<longleftrightarrow> b = a \<and> g = slot \<or> has_slot al b g"
  using assms(1)
proof (cases rule: al_cases [where a = b])
  case (slots k l)
  show ?thesis
  proof (cases "b = a")
    case True
    with assms slots show ?thesis by (auto simp: has_slot_def slot_map_def kv_simps)
  next
    case False
    with assms slots al_ok_owner [OF assms(1), of a "int n" b] have "k \<noteq> n" by auto
    with False slots show ?thesis by (simp add: has_slot_def slot_map_def)
  qed
qed (use assms in \<open>auto simp: has_slot_def slot_map_def\<close>)

lemma AddSlot_ok:
  assumes "al_ok al"
  shows "\<exists>al'. AddSlot a h al = (Ok (\<not> ContainsAddress al a, \<not> has_slot al a h), al') \<and> al_ok al' \<and>
    (\<forall>b. ContainsAddress al' b = (b = a \<or> ContainsAddress al b)) \<and>
    (\<forall>b g. has_slot al' b g = ((b = a \<and> g = h) \<or> has_slot al b g))"
  using assms
proof (cases rule: al_cases [where a = a])
  case absent
  then have "\<not> has_slot al a g" for g by (simp add: has_slot_def)
  with absent assms al_ok_append [OF assms, of a h] show ?thesis
    by (auto simp: AddSlot_def ContainsAddress_def kv_simps kv_has_def)
next
  case bare
  then have "\<not> has_slot al a g" for g by (simp add: has_slot_def)
  with bare assms al_ok_append [OF assms, of a h] show ?thesis
    by (auto simp: AddSlot_def ContainsAddress_def kv_simps kv_has_def)
next
  case (slots n m)
  then have "has_slot al a h = kv_has m h" by (simp add: has_slot_def)
  with slots assms show ?thesis
    by (auto simp: AddSlot_def ContainsAddress_def kv_has_def [of "addresses al"]
        has_slot_insert al_ok_insert)
qed

lemma undo_AddAddress:
  assumes "al_ok al" "AddAddress a al = (True, al')"
  shows "DeleteAddress a al' = al"
  using assms by (auto simp: AddAddress_def DeleteAddress_def kv_has_def kv_del_set split: if_splits)

lemma undo_append:
  assumes "al_ok al"
  shows "DeleteSlot a h (al\<lparr>addresses := kv_set a (int (length (slots al))) (addresses al),
      slots := slots al @ [[(h, ())]]\<rparr>) = (Ok (), al\<lparr>addresses := kv_set a (-1) (addresses al)\<rparr>)"
  using assms by (simp add: DeleteSlot_def kv_simps slot_map_def Let_def kv_set_set)

lemma undo_AddSlot:
  assumes "al_ok al" "ContainsAddress al a" "AddSlot a h al = (Ok (False, True), al')"
  shows "DeleteSlot a h al' = (Ok (), al)"
  using assms(1)
proof (cases rule: al_cases [where a = a])
  case absent
  with assms show ?thesis by (simp add: ContainsAddress_def kv_has_def)
next
  case bare
  with assms have "al' = al\<lparr>addresses := kv_set a (int (length (slots al))) (addresses al),
      slots := slots al @ [[(h, ())]]\<rparr>" by (simp add: AddSlot_def)
  with bare assms(1) show ?thesis by (simp add: undo_append kv_set_same)
next
  case (slots n m)
  with assms have "\<not> kv_has m h" "al' = al\<lparr>slots := (slots al)[n := kv_set h () m]\<rparr>"
    by (auto simp: AddSlot_def split: if_splits)
  moreover have "map_of m h = None"
    using calculation by (cases "map_of m h") (auto simp: kv_has_def)
  with slots have "kv_del h (kv_set h () m) = m" by (simp add: kv_del_set)
  ultimately show ?thesis using slots by (auto simp: DeleteSlot_def slot_map_def Let_def)
qed

lemma undo_AddSlot_fresh:
  assumes "al_ok al" "AddSlot a h al = (Ok (True, True), al')"
  shows "\<exists>m. DeleteSlot a h al' = (Ok (), m) \<and> DeleteAddress a m = al \<and> AddAddress a al = (True, m)"
proof -
  from assms(2) have none: "map_of (addresses al) a = None"
    by (auto simp: AddSlot_def split: option.splits if_splits)
  then have "al' = al\<lparr>addresses := kv_set a (int (length (slots al))) (addresses al),
      slots := slots al @ [[(h, ())]]\<rparr>" using assms(2) by (simp add: AddSlot_def)
  with none assms show ?thesis
    by (simp add: undo_append DeleteAddress_def AddAddress_def kv_has_def kv_del_set)
qed

interpretation al: access_list al_ok ContainsAddress has_slot AddAddress AddSlot DeleteAddress DeleteSlot
proof unfold_locales
  fix al a h
  assume "al_ok al" "has_slot al a h"
  then show "ContainsAddress al a"
    by (auto simp: has_slot_def ContainsAddress_def kv_has_def split: option.splits)
qed (fact AddAddress_ok AddSlot_ok undo_AddAddress undo_AddSlot undo_AddSlot_fresh)+

end
