(* ===== verification/Bytes.thy ===== *)
theory Bytes
  imports Prelude
begin

text \<open>
  Byte strings: big-endian encodings of fixed length (\<open>binary.BigEndian\<close>, \<open>sdk.Uint64ToBigEndian\<close>,
  \<open>common.Hash.Bytes\<close>) with their round trips, and the fact the stores rely on, that encodings of
  one length compare as the numbers do.
\<close>

type_synonym bytes = "8 word list"

fun be_bytes :: "nat \<Rightarrow> nat \<Rightarrow> bytes" where
  "be_bytes 0 x = []"
| "be_bytes (Suc n) x = be_bytes n (x div 256) @ [of_nat (x mod 256)]"

definition be_nat :: "bytes \<Rightarrow> nat" where
  "be_nat bs = foldl (\<lambda>n b. n * 256 + unat b) 0 bs"

lemma be_nat_Nil [simp]: "be_nat [] = 0"
  by (simp add: be_nat_def)

lemma be_nat_snoc [simp]: "be_nat (bs @ [b]) = be_nat bs * 256 + unat b"
  by (simp add: be_nat_def)

lemma length_be_bytes [simp]: "length (be_bytes n x) = n"
  by (induction n arbitrary: x) auto

lemma unat_byte: "unat (b :: 8 word) < 256"
  using unsigned_less [of b] by simp

lemma unat_of_byte [simp]: "n < 256 \<Longrightarrow> unat (of_nat n :: 8 word) = n"
  by (simp add: unat_of_nat)

lemma be_nat_bytes: "be_nat (be_bytes n x) = x mod 256 ^ n"
proof (induction n arbitrary: x)
  case (Suc n)
  have "x mod 256 ^ Suc n = 256 * (x div 256 mod 256 ^ n) + x mod 256"
    by (simp add: mod_mult2_eq)
  with Suc show ?case by (simp add: algebra_simps)
qed simp

lemma be_nat_bytes_id: "x < 256 ^ n \<Longrightarrow> be_nat (be_bytes n x) = x"
  by (simp add: be_nat_bytes)

lemma be_bytes_inj: "be_bytes n x = be_bytes n y \<Longrightarrow> x < 256 ^ n \<Longrightarrow> y < 256 ^ n \<Longrightarrow> x = y"
  by (metis be_nat_bytes_id)

lemma be_bytes_nat: "be_bytes (length bs) (be_nat bs) = bs"
proof (induction bs rule: rev_induct)
  case (snoc b bs)
  have "(be_nat bs * 256 + unat b) div 256 = be_nat bs"
    "(be_nat bs * 256 + unat b) mod 256 = unat b"
    using unat_byte [of b] by (simp_all add: div_mult_self3)
  with snoc show ?case by simp
qed simp

lemma be_nat_bound: "be_nat bs < 256 ^ length bs"
proof (induction bs rule: rev_induct)
  case (snoc b bs)
  then have "be_nat bs * 256 + 256 \<le> 256 ^ length bs * 256" by simp
  with unat_byte [of b] show ?case by simp
qed simp

text \<open>Lexicographic order on byte strings of one length is the order of the numbers.\<close>

lemma be_nat_Cons: "be_nat (b # bs) = unat b * 256 ^ length bs + be_nat bs"
  by (induction bs rule: rev_induct)
    (simp add: be_nat_def, simp add: algebra_simps flip: append_Cons)

lemma be_nat_less_iff: "length bs = length cs \<Longrightarrow> bs < cs \<longleftrightarrow> be_nat bs < be_nat cs"
proof (induction bs cs rule: list_induct2)
  case (Cons b bs c cs)
  have lt: "be_nat bs < 256 ^ length bs" "be_nat cs < 256 ^ length bs"
    using be_nat_bound [of bs] be_nat_bound [of cs] Cons.hyps by simp_all
  have step: "unat x * 256 ^ length bs + m < unat y * 256 ^ length bs + n"
    if "x < y" "m < 256 ^ length bs" for x y :: "8 word" and m n :: nat
  proof -
    from that(1) have "Suc (unat x) \<le> unat y" by (simp add: word_less_nat_alt)
    then have "Suc (unat x) * 256 ^ length bs \<le> unat y * 256 ^ length bs"
      by (rule mult_le_mono1)
    with that(2) show ?thesis by simp
  qed
  show ?case
  proof (cases b c rule: linorder_cases)
    case less
    with step [OF this lt(1), of "be_nat cs"] Cons.hyps show ?thesis by (simp add: be_nat_Cons)
  next
    case equal
    with Cons show ?thesis by (simp add: be_nat_Cons)
  next
    case greater
    with step [OF this lt(2), of "be_nat bs"] Cons.hyps show ?thesis by (auto simp: be_nat_Cons)
  qed
qed simp

lemma be_bytes_less_iff:
  "x < 256 ^ n \<Longrightarrow> y < 256 ^ n \<Longrightarrow> be_bytes n x < be_bytes n y \<longleftrightarrow> x < y"
  by (simp add: be_nat_less_iff be_nat_bytes)

lemma append_less_iff:
  fixes as bs :: "'a::linorder list"
  shows "length as = length bs \<Longrightarrow> as @ cs < bs @ ds \<longleftrightarrow> as < bs \<or> as = bs \<and> cs < ds"
  by (induction as bs rule: list_induct2) auto


section \<open>Hashes and 64-bit words\<close>

definition hash_bytes :: "256 word \<Rightarrow> bytes" where
  "hash_bytes h = be_bytes 32 (unat h)"

text \<open>\<open>common.BytesToHash\<close> keeps the last 32 bytes of a longer string.\<close>

definition BytesToHash :: "bytes \<Rightarrow> 256 word" where
  "BytesToHash bs = of_nat (be_nat bs)"

lemma BytesToHash_bytes [simp]: "BytesToHash (hash_bytes h) = h"
proof -
  have "unat h < 256 ^ 32" using unsigned_less [of h] by simp
  then show ?thesis by (simp add: BytesToHash_def hash_bytes_def be_nat_bytes)
qed

lemma length_hash_bytes [simp]: "length (hash_bytes h) = 32"
  by (simp add: hash_bytes_def)

definition u64_bytes :: "64 word \<Rightarrow> bytes" where
  "u64_bytes w = be_bytes 8 (unat w)"

definition bytes_u64 :: "bytes \<Rightarrow> 64 word" where
  "bytes_u64 bs = of_nat (be_nat (take 8 bs))"

lemma length_u64_bytes [simp]: "length (u64_bytes w) = 8"
  by (simp add: u64_bytes_def)

lemma bytes_u64_bytes [simp]: "bytes_u64 (u64_bytes w @ bs) = w"
proof -
  have "unat w < 256 ^ 8" using unsigned_less [of w] by simp
  then show ?thesis by (simp add: bytes_u64_def u64_bytes_def be_nat_bytes)
qed

lemma u64_bytes_less_iff [simp]: "u64_bytes v < u64_bytes w \<longleftrightarrow> v < w"
proof -
  have "unat v < 256 ^ 8" "unat w < 256 ^ 8"
    using unsigned_less [of v] unsigned_less [of w] by simp_all
  then show ?thesis by (simp only: u64_bytes_def be_bytes_less_iff word_less_nat_alt)
qed

lemma u64_bytes_inj [simp]: "u64_bytes v = u64_bytes w \<longleftrightarrow> v = w"
  by (metis append_Nil2 bytes_u64_bytes)

end
