(* ===== verification/StateObject.thy ===== *)
theory StateObject
  imports AccessList Bytes
begin

text \<open>
  The data of the EVM state database (\<open>x/evm/statedb\<close>): accounts and state objects
  (\<open>state_object.go\<close>), the journal and its entries (\<open>journal.go\<close>), transient storage
  (\<open>transient_storage.go\<close>), the \<open>StateDB\<close> record (\<open>statedb.go\<close>) and the \<open>Keeper\<close>
  interface it is built on (\<open>interfaces.go\<close>), followed by the methods of a state object.

  A pointer to a state object is only ever reached through \<open>stateObjects\<close>, so a method that
  mutates the object is a function from the object and the database to the database in which the
  changed object is stored back under its address.  A nil slice of code is \<open>None\<close>.  Balances are
  big integers; nonces and gas counters are 64-bit words; hashes are 256-bit words, whose order is
  the byte order used for sorting.
\<close>

type_synonym Storage = "(hash \<times> hash) list"
type_synonym transientStorage = "(address \<times> Storage) list"

datatype evm_error =
    BankError string
  | AuthError string
  | ErrInvalidAccount address
  | Wrapped string evm_error

record Account =
  Nonce :: "64 word"
  Balance :: int
  CodeHash :: hash

record stateObject =
  account :: Account
  code :: "bytes option"
  originStorage :: Storage
  dirtyStorage :: Storage
  obj_address :: address
  dirtyCode :: bool
  suicided :: bool
  selfDestructed :: bool
  created :: bool

datatype JournalEntry =
    createObjectChange address
  | resetObjectChange stateObject
  | suicideChange address bool int
  | selfDestructChange address bool int
  | balanceChange address int
  | nonceChange address "64 word"
  | storageChange address hash hash
  | codeChange address "bytes option" hash
  | refundChange "64 word"
  | addLogChange
  | accessListAddAccountChange address
  | accessListAddSlotChange address hash
  | transientStorageChange address hash hash

record journal =
  entries :: "JournalEntry list"
  dirties :: "(address \<times> int) list"

record revision =
  rev_id :: int
  journalIndex :: nat

record TxConfig =
  BlockHash :: hash
  TxHash :: hash
  TxIndex :: "64 word"
  LogIndex :: "64 word"

record Log =
  log_Address :: address
  log_Topics :: "hash list"
  log_Data :: bytes
  log_TxHash :: hash
  log_BlockHash :: hash
  log_TxIndex :: "64 word"
  log_Index :: "64 word"

record 'k StateDB =
  keeper :: 'k
  journal_of :: journal
  validRevisions :: "revision list"
  nextRevisionID :: int
  stateObjects :: "(address \<times> stateObject) list"
  txConfig :: TxConfig
  refund :: "64 word"
  logs :: "Log list"
  access :: accessList
  transient :: transientStorage

text \<open>
  The \<open>Keeper\<close> interface.  \<open>ForEachStorage\<close> is the list of pairs the iteration visits; the
  callback is applied by the caller.  \<open>Keccak\<close> is the hash function of the crypto package.
\<close>

record 'k Keeper =
  kGetAccount :: "'k \<Rightarrow> address \<Rightarrow> Account option"
  kGetState :: "'k \<Rightarrow> address \<Rightarrow> hash \<Rightarrow> hash"
  kGetCode :: "'k \<Rightarrow> hash \<Rightarrow> bytes option"
  kForEachStorage :: "'k \<Rightarrow> address \<Rightarrow> (hash \<times> hash) list"
  kSetAccount :: "address \<Rightarrow> Account \<Rightarrow> 'k \<Rightarrow> (evm_error, unit) outcome \<times> 'k"
  kSetState :: "address \<Rightarrow> hash \<Rightarrow> bytes \<Rightarrow> 'k \<Rightarrow> 'k"
  kSetCode :: "hash \<Rightarrow> bytes \<Rightarrow> 'k \<Rightarrow> 'k"
  kDeleteAccount :: "address \<Rightarrow> 'k \<Rightarrow> (evm_error, unit) outcome \<times> 'k"
  Keccak :: "bytes \<Rightarrow> hash"

text \<open>The bytes of a slice that may be nil.\<close>

definition code_bytes :: "bytes option \<Rightarrow> bytes" where
  "code_bytes c = (case c of None \<Rightarrow> [] | Some bs \<Rightarrow> bs)"

definition emptyCodeHash :: "'k Keeper \<Rightarrow> hash" where
  "emptyCodeHash K = Keccak K []"


section \<open>Journal\<close>

definition newJournal :: journal where
  "newJournal = \<lparr>entries = [], dirties = []\<rparr>"

text \<open>The account an entry makes dirty.  Resets, refunds, logs and the lists make none dirty.\<close>

fun Dirtied :: "JournalEntry \<Rightarrow> address option" where
  "Dirtied (createObjectChange a) = Some a"
| "Dirtied (resetObjectChange p) = None"
| "Dirtied (suicideChange a p b) = Some a"
| "Dirtied (selfDestructChange a p b) = Some a"
| "Dirtied (balanceChange a b) = Some a"
| "Dirtied (nonceChange a n) = Some a"
| "Dirtied (storageChange a k v) = Some a"
| "Dirtied (codeChange a c h) = Some a"
| "Dirtied (refundChange r) = None"
| "Dirtied addLogChange = None"
| "Dirtied (accessListAddAccountChange a) = None"
| "Dirtied (accessListAddSlotChange a h) = None"
| "Dirtied (transientStorageChange a k v) = None"

text \<open>A missing entry of a Go map of integers reads 0.\<close>

definition dirty_count :: "(address \<times> int) list \<Rightarrow> address \<Rightarrow> int" where
  "dirty_count ds a = (case map_of ds a of None \<Rightarrow> 0 | Some n \<Rightarrow> n)"

definition mark_dirty :: "JournalEntry \<Rightarrow> (address \<times> int) list \<Rightarrow> (address \<times> int) list" where
  "mark_dirty e ds = (case Dirtied e of
      None \<Rightarrow> ds
    | Some a \<Rightarrow> kv_set a (dirty_count ds a + 1) ds)"

definition unmark_dirty :: "JournalEntry \<Rightarrow> (address \<times> int) list \<Rightarrow> (address \<times> int) list" where
  "unmark_dirty e ds = (case Dirtied e of
      None \<Rightarrow> ds
    | Some a \<Rightarrow>
        (let n = dirty_count ds a - 1 in
         if n = 0 then kv_del a ds else kv_set a n ds))"

definition journal_append :: "JournalEntry \<Rightarrow> 'k StateDB \<Rightarrow> 'k StateDB" where
  "journal_append e s = s\<lparr>journal_of :=
     \<lparr>entries = entries (journal_of s) @ [e], dirties = mark_dirty e (dirties (journal_of s))\<rparr>\<rparr>"

definition sortedDirties :: "journal \<Rightarrow> address list" where
  "sortedDirties j = map fst (dirties j)"

definition journal_length :: "journal \<Rightarrow> nat" where
  "journal_length j = length (entries j)"


section \<open>Storage maps\<close>

definition SortedKeys :: "Storage \<Rightarrow> hash list" where
  "SortedKeys st = map fst st"

definition newTransientStorage :: transientStorage where
  "newTransientStorage = []"

definition transient_Set :: "address \<Rightarrow> hash \<Rightarrow> hash \<Rightarrow> transientStorage \<Rightarrow> transientStorage" where
  "transient_Set a k v t =
     (let t = (if kv_has t a then t else kv_set a [] t) in
      (case map_of t a of None \<Rightarrow> t | Some st \<Rightarrow> kv_set a (kv_set k v st) t))"

definition storage_read :: "Storage \<Rightarrow> hash \<Rightarrow> hash" where
  "storage_read st k = (case map_of st k of None \<Rightarrow> 0 | Some v \<Rightarrow> v)"

definition transient_Get :: "transientStorage \<Rightarrow> address \<Rightarrow> hash \<Rightarrow> hash" where
  "transient_Get t a k = (case map_of t a of None \<Rightarrow> 0 | Some st \<Rightarrow> storage_read st k)"


section \<open>State objects\<close>

definition NewEmptyAccount :: "'k Keeper \<Rightarrow> Account" where
  "NewEmptyAccount K = \<lparr>Nonce = 0, Balance = 0, CodeHash = emptyCodeHash K\<rparr>"

definition IsContract :: "'k Keeper \<Rightarrow> Account \<Rightarrow> bool" where
  "IsContract K acct \<longleftrightarrow> CodeHash acct \<noteq> emptyCodeHash K"

text \<open>\<open>newObject\<close> receives an account whose balance and code hash may be nil.\<close>

definition newObject ::
  "'k Keeper \<Rightarrow> address \<Rightarrow> 64 word \<Rightarrow> int option \<Rightarrow> hash option \<Rightarrow> stateObject" where
  "newObject K a nonce bal ch =
     \<lparr>account = \<lparr>Nonce = nonce,
                 Balance = (case bal of None \<Rightarrow> 0 | Some b \<Rightarrow> b),
                 CodeHash = (case ch of None \<Rightarrow> emptyCodeHash K | Some h \<Rightarrow> h)\<rparr>,
      code = None, originStorage = [], dirtyStorage = [], obj_address = a,
      dirtyCode = False, suicided = False, selfDestructed = False, created = False\<rparr>"

definition obj_empty :: "'k Keeper \<Rightarrow> stateObject \<Rightarrow> bool" where
  "obj_empty K obj \<longleftrightarrow> Nonce (account obj) = 0 \<and> Balance (account obj) = 0
     \<and> CodeHash (account obj) = emptyCodeHash K"

definition setStateObject :: "stateObject \<Rightarrow> 'k StateDB \<Rightarrow> 'k StateDB" where
  "setStateObject obj s = s\<lparr>stateObjects := kv_set (obj_address obj) obj (stateObjects s)\<rparr>"

definition setBalance :: "int \<Rightarrow> stateObject \<Rightarrow> stateObject" where
  "setBalance amount obj = obj\<lparr>account := (account obj)\<lparr>Balance := amount\<rparr>\<rparr>"

definition setNonce :: "64 word \<Rightarrow> stateObject \<Rightarrow> stateObject" where
  "setNonce n obj = obj\<lparr>account := (account obj)\<lparr>Nonce := n\<rparr>\<rparr>"

definition setCode :: "hash \<Rightarrow> bytes option \<Rightarrow> stateObject \<Rightarrow> stateObject" where
  "setCode h c obj = obj\<lparr>code := c, account := (account obj)\<lparr>CodeHash := h\<rparr>, dirtyCode := True\<rparr>"

definition setState :: "hash \<Rightarrow> hash \<Rightarrow> stateObject \<Rightarrow> stateObject" where
  "setState k v obj = obj\<lparr>dirtyStorage := kv_set k v (dirtyStorage obj)\<rparr>"

definition markSuicided :: "stateObject \<Rightarrow> stateObject" where
  "markSuicided obj = obj\<lparr>suicided := True\<rparr>"

definition markSelfdestructed :: "stateObject \<Rightarrow> stateObject" where
  "markSelfdestructed obj = obj\<lparr>selfDestructed := True\<rparr>"

definition obj_SetBalance :: "int \<Rightarrow> stateObject \<Rightarrow> 'k StateDB \<Rightarrow> 'k StateDB" where
  "obj_SetBalance amount obj s =
     setStateObject (setBalance amount obj)
       (journal_append (balanceChange (obj_address obj) (Balance (account obj))) s)"

definition obj_AddBalance :: "int \<Rightarrow> stateObject \<Rightarrow> 'k StateDB \<Rightarrow> 'k StateDB" where
  "obj_AddBalance amount obj s =
     (if amount = 0 then s else obj_SetBalance (Balance (account obj) + amount) obj s)"

definition obj_SubBalance :: "int \<Rightarrow> stateObject \<Rightarrow> 'k StateDB \<Rightarrow> 'k StateDB" where
  "obj_SubBalance amount obj s =
     (if amount = 0 then s else obj_SetBalance (Balance (account obj) - amount) obj s)"

definition obj_SetNonce :: "64 word \<Rightarrow> stateObject \<Rightarrow> 'k StateDB \<Rightarrow> 'k StateDB" where
  "obj_SetNonce n obj s =
     setStateObject (setNonce n obj)
       (journal_append (nonceChange (obj_address obj) (Nonce (account obj))) s)"

text \<open>Reading the code or a slot caches what was loaded in the object.\<close>

definition obj_Code ::
  "'k Keeper \<Rightarrow> stateObject \<Rightarrow> 'k StateDB \<Rightarrow> bytes option \<times> stateObject \<times> 'k StateDB" where
  "obj_Code K obj s = (case code obj of
      Some c \<Rightarrow> (Some c, obj, s)
    | None \<Rightarrow>
        if CodeHash (account obj) = emptyCodeHash K then (None, obj, s)
        else (let c = kGetCode K (keeper s) (CodeHash (account obj));
                  obj = obj\<lparr>code := c\<rparr>
              in (c, obj, setStateObject obj s)))"

definition obj_CodeSize :: "'k Keeper \<Rightarrow> stateObject \<Rightarrow> 'k StateDB \<Rightarrow> nat \<times> 'k StateDB" where
  "obj_CodeSize K obj s = (case obj_Code K obj s of
      (c, _, s) \<Rightarrow> ((case c of None \<Rightarrow> 0 | Some bs \<Rightarrow> length bs), s))"

definition obj_SetCode :: "'k Keeper \<Rightarrow> hash \<Rightarrow> bytes option \<Rightarrow> stateObject \<Rightarrow> 'k StateDB \<Rightarrow> 'k StateDB" where
  "obj_SetCode K h c obj s = (case obj_Code K obj s of
      (prevcode, obj, s) \<Rightarrow>
        setStateObject (setCode h c obj)
          (journal_append (codeChange (obj_address obj) prevcode (CodeHash (account obj))) s))"

definition obj_GetCommittedState ::
  "'k Keeper \<Rightarrow> hash \<Rightarrow> stateObject \<Rightarrow> 'k StateDB \<Rightarrow> hash \<times> stateObject \<times> 'k StateDB" where
  "obj_GetCommittedState K k obj s = (case map_of (originStorage obj) k of
      Some v \<Rightarrow> (v, obj, s)
    | None \<Rightarrow>
        (let v = kGetState K (keeper s) (obj_address obj) k;
             obj = obj\<lparr>originStorage := kv_set k v (originStorage obj)\<rparr>
         in (v, obj, setStateObject obj s)))"

definition obj_GetState ::
  "'k Keeper \<Rightarrow> hash \<Rightarrow> stateObject \<Rightarrow> 'k StateDB \<Rightarrow> hash \<times> stateObject \<times> 'k StateDB" where
  "obj_GetState K k obj s = (case map_of (dirtyStorage obj) k of
      Some v \<Rightarrow> (v, obj, s)
    | None \<Rightarrow> obj_GetCommittedState K k obj s)"

definition obj_SetState :: "'k Keeper \<Rightarrow> hash \<Rightarrow> hash \<Rightarrow> stateObject \<Rightarrow> 'k StateDB \<Rightarrow> 'k StateDB" where
  "obj_SetState K k v obj s = (case obj_GetState K k obj s of
      (prev, obj, s) \<Rightarrow>
        if prev = v then s
        else setStateObject (setState k v obj)
               (journal_append (storageChange (obj_address obj) k prev) s))"

end
