(* ===== verification/StateDB.thy ===== *)
theory StateDB
  imports StateObject
begin

text \<open>
  The operations of the EVM state database (\<open>x/evm/statedb/statedb.go\<close>), in the order of the
  file, and the reverting side of its journal (\<open>journal.go\<close>).  Getters return the database too:
  they load accounts, code and slots into the live objects.
\<close>

definition New :: "'k \<Rightarrow> TxConfig \<Rightarrow> 'k StateDB" where
  "New k cfg =
     \<lparr>keeper = k, journal_of = newJournal, validRevisions = [], nextRevisionID = 0,
      stateObjects = [], txConfig = cfg, refund = 0, logs = [],
      access = newAccessList, transient = newTransientStorage\<rparr>"

definition AddLog :: "Log \<Rightarrow> 'k StateDB \<Rightarrow> 'k StateDB" where
  "AddLog lg s =
     (let s = journal_append addLogChange s;
          lg = lg\<lparr>log_TxHash := TxHash (txConfig s), log_BlockHash := BlockHash (txConfig s),
                  log_TxIndex := TxIndex (txConfig s),
                  log_Index := LogIndex (txConfig s) + of_nat (length (logs s))\<rparr>
      in s\<lparr>logs := logs s @ [lg]\<rparr>)"

definition AddRefund :: "64 word \<Rightarrow> 'k StateDB \<Rightarrow> 'k StateDB" where
  "AddRefund gas s =
     (let s = journal_append (refundChange (refund s)) s in s\<lparr>refund := refund s + gas\<rparr>)"

definition SubRefund :: "64 word \<Rightarrow> 'k StateDB \<Rightarrow> (evm_error, unit) outcome \<times> 'k StateDB" where
  "SubRefund gas s =
     (let s = journal_append (refundChange (refund s)) s in
      if refund s < gas then (Panic, s)
      else (Ok (), s\<lparr>refund := refund s - gas\<rparr>))"


section \<open>Loading and creating objects\<close>

definition getStateObject ::
  "'k Keeper \<Rightarrow> address \<Rightarrow> 'k StateDB \<Rightarrow> stateObject option \<times> 'k StateDB" where
  "getStateObject K a s = (case map_of (stateObjects s) a of
      Some obj \<Rightarrow> (Some obj, s)
    | None \<Rightarrow> (case kGetAccount K (keeper s) a of
          None \<Rightarrow> (None, s)
        | Some acct \<Rightarrow>
            (let obj = newObject K a (Nonce acct) (Some (Balance acct)) (Some (CodeHash acct))
             in (Some obj, setStateObject obj s))))"

definition createObject ::
  "'k Keeper \<Rightarrow> address \<Rightarrow> 'k StateDB \<Rightarrow> (stateObject \<times> stateObject option) \<times> 'k StateDB" where
  "createObject K a s = (case getStateObject K a s of
      (prev, s) \<Rightarrow>
        (let newobj = newObject K a 0 None None in
         case prev of
           None \<Rightarrow>
             (let newobj = newobj\<lparr>created := True\<rparr>
              in ((newobj, None), setStateObject newobj (journal_append (createObjectChange a) s)))
         | Some p \<Rightarrow>
             ((newobj, Some p), setStateObject newobj (journal_append (resetObjectChange p) s))))"

definition getOrNewStateObject :: "'k Keeper \<Rightarrow> address \<Rightarrow> 'k StateDB \<Rightarrow> stateObject \<times> 'k StateDB" where
  "getOrNewStateObject K a s = (case getStateObject K a s of
      (Some obj, s) \<Rightarrow> (obj, s)
    | (None, s) \<Rightarrow> (case createObject K a s of ((obj, _), s) \<Rightarrow> (obj, s)))"

definition CreateAccount :: "'k Keeper \<Rightarrow> address \<Rightarrow> 'k StateDB \<Rightarrow> 'k StateDB" where
  "CreateAccount K a s = (case createObject K a s of
      ((newobj, None), s) \<Rightarrow> s
    | ((newobj, Some p), s) \<Rightarrow> setStateObject (setBalance (Balance (account p)) newobj) s)"


section \<open>Getters\<close>

definition Exist :: "'k Keeper \<Rightarrow> address \<Rightarrow> 'k StateDB \<Rightarrow> bool \<times> 'k StateDB" where
  "Exist K a s = (case getStateObject K a s of (obj, s) \<Rightarrow> (obj \<noteq> None, s))"

definition Empty :: "'k Keeper \<Rightarrow> address \<Rightarrow> 'k StateDB \<Rightarrow> bool \<times> 'k StateDB" where
  "Empty K a s = (case getStateObject K a s of
      (None, s) \<Rightarrow> (True, s) | (Some obj, s) \<Rightarrow> (obj_empty K obj, s))"

definition GetBalance :: "'k Keeper \<Rightarrow> address \<Rightarrow> 'k StateDB \<Rightarrow> int \<times> 'k StateDB" where
  "GetBalance K a s = (case getStateObject K a s of
      (None, s) \<Rightarrow> (0, s) | (Some obj, s) \<Rightarrow> (Balance (account obj), s))"

definition GetNonce :: "'k Keeper \<Rightarrow> address \<Rightarrow> 'k StateDB \<Rightarrow> 64 word \<times> 'k StateDB" where
  "GetNonce K a s = (case getStateObject K a s of
      (None, s) \<Rightarrow> (0, s) | (Some obj, s) \<Rightarrow> (Nonce (account obj), s))"

definition GetCode :: "'k Keeper \<Rightarrow> address \<Rightarrow> 'k StateDB \<Rightarrow> bytes option \<times> 'k StateDB" where
  "GetCode K a s = (case getStateObject K a s of
      (None, s) \<Rightarrow> (None, s)
    | (Some obj, s) \<Rightarrow> (case obj_Code K obj s of (c, _, s) \<Rightarrow> (c, s)))"

definition GetCodeSize :: "'k Keeper \<Rightarrow> address \<Rightarrow> 'k StateDB \<Rightarrow> nat \<times> 'k StateDB" where
  "GetCodeSize K a s = (case getStateObject K a s of
      (None, s) \<Rightarrow> (0, s) | (Some obj, s) \<Rightarrow> obj_CodeSize K obj s)"

definition GetCodeHash :: "'k Keeper \<Rightarrow> address \<Rightarrow> 'k StateDB \<Rightarrow> hash \<times> 'k StateDB" where
  "GetCodeHash K a s = (case getStateObject K a s of
      (None, s) \<Rightarrow> (0, s) | (Some obj, s) \<Rightarrow> (CodeHash (account obj), s))"

definition GetState :: "'k Keeper \<Rightarrow> address \<Rightarrow> hash \<Rightarrow> 'k StateDB \<Rightarrow> hash \<times> 'k StateDB" where
  "GetState K a k s = (case getStateObject K a s of
      (None, s) \<Rightarrow> (0, s)
    | (Some obj, s) \<Rightarrow> (case obj_GetState K k obj s of (v, _, s) \<Rightarrow> (v, s)))"

definition GetCommittedState :: "'k Keeper \<Rightarrow> address \<Rightarrow> hash \<Rightarrow> 'k StateDB \<Rightarrow> hash \<times> 'k StateDB" where
  "GetCommittedState K a k s = (case getStateObject K a s of
      (None, s) \<Rightarrow> (0, s)
    | (Some obj, s) \<Rightarrow> (case obj_GetCommittedState K k obj s of (v, _, s) \<Rightarrow> (v, s)))"

definition HasSuicided :: "'k Keeper \<Rightarrow> address \<Rightarrow> 'k StateDB \<Rightarrow> bool \<times> 'k StateDB" where
  "HasSuicided K a s = (case getStateObject K a s of
      (None, s) \<Rightarrow> (False, s) | (Some obj, s) \<Rightarrow> (suicided obj, s))"

text \<open>
  The iteration over the contract storage: the callback sees the dirty value of a key the keeper
  holds, and stops the iteration by returning false.  The test \<open>len(value) > 0\<close> of the source is
  on a fixed array of 32 bytes, so it always holds.
\<close>

fun visit :: "(hash \<Rightarrow> hash \<Rightarrow> 'c \<Rightarrow> bool \<times> 'c) \<Rightarrow> (hash \<times> hash) list \<Rightarrow> 'c \<Rightarrow> 'c" where
  "visit cb [] c = c"
| "visit cb ((k, v) # kvs) c = (case cb k v c of (go, c) \<Rightarrow> if go then visit cb kvs c else c)"

definition ForEachStorage ::
  "'k Keeper \<Rightarrow> address \<Rightarrow> (hash \<Rightarrow> hash \<Rightarrow> 'c \<Rightarrow> bool \<times> 'c) \<Rightarrow> 'c \<Rightarrow> 'k StateDB \<Rightarrow> 'c \<times> 'k StateDB" where
  "ForEachStorage K a cb c s = (case getStateObject K a s of
      (None, s) \<Rightarrow> (c, s)
    | (Some obj, s) \<Rightarrow>
        (visit (\<lambda>k v c. case map_of (dirtyStorage obj) k of
             Some d \<Rightarrow> cb k d c | None \<Rightarrow> cb k v c) (kForEachStorage K (keeper s) a) c, s))"


section \<open>Setters\<close>

definition AddBalance :: "'k Keeper \<Rightarrow> address \<Rightarrow> int \<Rightarrow> 'k StateDB \<Rightarrow> 'k StateDB" where
  "AddBalance K a amount s = (case getOrNewStateObject K a s of (obj, s) \<Rightarrow> obj_AddBalance amount obj s)"

definition SubBalance :: "'k Keeper \<Rightarrow> address \<Rightarrow> int \<Rightarrow> 'k StateDB \<Rightarrow> 'k StateDB" where
  "SubBalance K a amount s = (case getOrNewStateObject K a s of (obj, s) \<Rightarrow> obj_SubBalance amount obj s)"

definition SetNonce :: "'k Keeper \<Rightarrow> address \<Rightarrow> 64 word \<Rightarrow> 'k StateDB \<Rightarrow> 'k StateDB" where
  "SetNonce K a n s = (case getOrNewStateObject K a s of (obj, s) \<Rightarrow> obj_SetNonce n obj s)"

definition SetCode :: "'k Keeper \<Rightarrow> address \<Rightarrow> bytes option \<Rightarrow> 'k StateDB \<Rightarrow> 'k StateDB" where
  "SetCode K a c s = (case getOrNewStateObject K a s of
      (obj, s) \<Rightarrow> obj_SetCode K (Keccak K (code_bytes c)) c obj s)"

definition SetState :: "'k Keeper \<Rightarrow> address \<Rightarrow> hash \<Rightarrow> hash \<Rightarrow> 'k StateDB \<Rightarrow> 'k StateDB" where
  "SetState K a k v s = (case getOrNewStateObject K a s of (obj, s) \<Rightarrow> obj_SetState K k v obj s)"

definition Suicide :: "'k Keeper \<Rightarrow> address \<Rightarrow> 'k StateDB \<Rightarrow> bool \<times> 'k StateDB" where
  "Suicide K a s = (case getStateObject K a s of
      (None, s) \<Rightarrow> (False, s)
    | (Some obj, s) \<Rightarrow>
        (True, setStateObject (setBalance 0 (markSuicided obj))
           (journal_append (suicideChange a (suicided obj) (Balance (account obj))) s)))"

definition SelfDestruct :: "'k Keeper \<Rightarrow> address \<Rightarrow> 'k StateDB \<Rightarrow> 'k StateDB" where
  "SelfDestruct K a s = (case getStateObject K a s of
      (None, s) \<Rightarrow> s
    | (Some obj, s) \<Rightarrow>
        setStateObject (setBalance 0 (markSelfdestructed obj))
          (journal_append (selfDestructChange a (selfDestructed obj) (Balance (account obj))) s))"

definition Selfdestruct6780 :: "'k Keeper \<Rightarrow> address \<Rightarrow> 'k StateDB \<Rightarrow> 'k StateDB" where
  "Selfdestruct6780 K a s = (case getStateObject K a s of
      (None, s) \<Rightarrow> s
    | (Some obj, s) \<Rightarrow> if created obj then SelfDestruct K a s else s)"

definition AddAddressToAccessList :: "address \<Rightarrow> 'k StateDB \<Rightarrow> 'k StateDB" where
  "AddAddressToAccessList a s = (case AddAddress a (access s) of
      (changed, al) \<Rightarrow>
        (let s = s\<lparr>access := al\<rparr> in
         if changed then journal_append (accessListAddAccountChange a) s else s))"

definition AddSlotToAccessList ::
  "address \<Rightarrow> hash \<Rightarrow> 'k StateDB \<Rightarrow> (evm_error, unit) outcome \<times> 'k StateDB" where
  "AddSlotToAccessList a slot s = (case AddSlot a slot (access s) of
      (Ok (addrMod, slotMod), al) \<Rightarrow>
        (let s = s\<lparr>access := al\<rparr>;
             s = (if addrMod then journal_append (accessListAddAccountChange a) s else s);
             s = (if slotMod then journal_append (accessListAddSlotChange a slot) s else s)
         in (Ok (), s))
    | (Err e, al) \<Rightarrow> (Err e, s\<lparr>access := al\<rparr>)
    | (Panic, al) \<Rightarrow> (Panic, s\<lparr>access := al\<rparr>))"

definition PrepareAccessList ::
  "address \<Rightarrow> address option \<Rightarrow> address list \<Rightarrow> (address \<times> hash list) list \<Rightarrow> 'k StateDB
     \<Rightarrow> (evm_error, unit) outcome \<times> 'k StateDB" where
  "PrepareAccessList sender dst precompiles al s =
     (let s = AddAddressToAccessList sender s;
          s = (case dst of None \<Rightarrow> s | Some d \<Rightarrow> AddAddressToAccessList d s);
          s = fold AddAddressToAccessList precompiles s
      in foreach (\<lambda>(a, keys) s.
           foreach (AddSlotToAccessList a) keys (AddAddressToAccessList a s)) al s)"

definition AddressInAccessList :: "address \<Rightarrow> 'k StateDB \<Rightarrow> bool" where
  "AddressInAccessList a s = ContainsAddress (access s) a"

definition SlotInAccessList :: "address \<Rightarrow> hash \<Rightarrow> 'k StateDB \<Rightarrow> (evm_error, bool \<times> bool) outcome" where
  "SlotInAccessList a slot s = Contains (access s) a slot"

definition GetTransientState :: "address \<Rightarrow> hash \<Rightarrow> 'k StateDB \<Rightarrow> hash" where
  "GetTransientState a k s = transient_Get (transient s) a k"

definition setTransientState :: "address \<Rightarrow> hash \<Rightarrow> hash \<Rightarrow> 'k StateDB \<Rightarrow> 'k StateDB" where
  "setTransientState a k v s = s\<lparr>transient := transient_Set a k v (transient s)\<rparr>"

definition SetTransientState :: "address \<Rightarrow> hash \<Rightarrow> hash \<Rightarrow> 'k StateDB \<Rightarrow> 'k StateDB" where
  "SetTransientState a k v s =
     (let prev = GetTransientState a k s in
      if prev = v then s
      else setTransientState a k v (journal_append (transientStorageChange a k prev) s))"


section \<open>Reverting\<close>

text \<open>
  The \<open>Revert\<close> method of every journal entry.  The entries on one account dereference the result
  of \<open>getStateObject\<close>, which panics on nil, except for the two destructions, which test it.
\<close>

definition on_object ::
  "'k Keeper \<Rightarrow> address \<Rightarrow> (stateObject \<Rightarrow> stateObject) \<Rightarrow> 'k StateDB
     \<Rightarrow> (evm_error, unit) outcome \<times> 'k StateDB" where
  "on_object K a f s = (case getStateObject K a s of
      (None, s) \<Rightarrow> (Panic, s)
    | (Some obj, s) \<Rightarrow> (Ok (), setStateObject (f obj) s))"

definition on_object_if ::
  "'k Keeper \<Rightarrow> address \<Rightarrow> (stateObject \<Rightarrow> stateObject) \<Rightarrow> 'k StateDB
     \<Rightarrow> (evm_error, unit) outcome \<times> 'k StateDB" where
  "on_object_if K a f s = (case getStateObject K a s of
      (None, s) \<Rightarrow> (Ok (), s)
    | (Some obj, s) \<Rightarrow> (Ok (), setStateObject (f obj) s))"

fun revert_entry ::
  "'k Keeper \<Rightarrow> JournalEntry \<Rightarrow> 'k StateDB \<Rightarrow> (evm_error, unit) outcome \<times> 'k StateDB" where
  "revert_entry K (createObjectChange a) s = (Ok (), s\<lparr>stateObjects := kv_del a (stateObjects s)\<rparr>)"
| "revert_entry K (resetObjectChange p) s = (Ok (), setStateObject p s)"
| "revert_entry K (suicideChange a p b) s = on_object_if K a (\<lambda>obj. setBalance b (obj\<lparr>suicided := p\<rparr>)) s"
| "revert_entry K (selfDestructChange a p b) s =
     on_object_if K a (\<lambda>obj. setBalance b (obj\<lparr>selfDestructed := p\<rparr>)) s"
| "revert_entry K (balanceChange a b) s = on_object K a (setBalance b) s"
| "revert_entry K (nonceChange a n) s = on_object K a (setNonce n) s"
| "revert_entry K (storageChange a k v) s = on_object K a (setState k v) s"
| "revert_entry K (codeChange a c h) s = on_object K a (setCode h c) s"
| "revert_entry K (refundChange r) s = (Ok (), s\<lparr>refund := r\<rparr>)"
| "revert_entry K addLogChange s =
     (if logs s = [] then (Panic, s) else (Ok (), s\<lparr>logs := butlast (logs s)\<rparr>))"
| "revert_entry K (accessListAddAccountChange a) s = (Ok (), s\<lparr>access := DeleteAddress a (access s)\<rparr>)"
| "revert_entry K (accessListAddSlotChange a slot) s = (case DeleteSlot a slot (access s) of
      (r, al) \<Rightarrow> (r, s\<lparr>access := al\<rparr>))"
| "revert_entry K (transientStorageChange a k v) s = (Ok (), setTransientState a k v s)"

text \<open>
  \<open>journal.Revert\<close>: the entries from the last one down to the snapshot are undone in turn, each
  dropping its dirty mark, and the slice is cut at the end.
\<close>

fun revert_entries ::
  "'k Keeper \<Rightarrow> JournalEntry list \<Rightarrow> 'k StateDB \<Rightarrow> (evm_error, unit) outcome \<times> 'k StateDB" where
  "revert_entries K [] s = (Ok (), s)"
| "revert_entries K (e # es) s = andthen (revert_entry K e s) (\<lambda>_ s.
     revert_entries K es
       (s\<lparr>journal_of := (journal_of s)\<lparr>dirties := unmark_dirty e (dirties (journal_of s))\<rparr>\<rparr>))"

definition journal_Revert ::
  "'k Keeper \<Rightarrow> nat \<Rightarrow> 'k StateDB \<Rightarrow> (evm_error, unit) outcome \<times> 'k StateDB" where
  "journal_Revert K snapshot s =
     andthen (revert_entries K (rev (drop snapshot (entries (journal_of s)))) s) (\<lambda>_ s.
       (if snapshot \<le> length (entries (journal_of s))
        then (Ok (), s\<lparr>journal_of := (journal_of s)\<lparr>entries := take snapshot (entries (journal_of s))\<rparr>\<rparr>)
        else (Panic, s)))"

definition Snapshot :: "'k StateDB \<Rightarrow> int \<times> 'k StateDB" where
  "Snapshot s =
     (let n = nextRevisionID s in
      (n, s\<lparr>nextRevisionID := n + 1,
            validRevisions := validRevisions s @
              [\<lparr>rev_id = n, journalIndex = journal_length (journal_of s)\<rparr>]\<rparr>))"

text \<open>\<open>sort.Search\<close>: the binary search of the standard library, on the range \<open>[i, j)\<close>.\<close>

function search :: "(nat \<Rightarrow> bool) \<Rightarrow> nat \<Rightarrow> nat \<Rightarrow> nat" where
  "search f i j =
     (if i < j
      then (let h = (i + j) div 2 in if \<not> f h then search f (h + 1) j else search f i h)
      else i)"
  by pat_completeness auto
termination
  by (relation "measure (\<lambda>(f, i, j). j - i)") auto

declare search.simps [simp del]

definition RevertToSnapshot ::
  "'k Keeper \<Rightarrow> int \<Rightarrow> 'k StateDB \<Rightarrow> (evm_error, unit) outcome \<times> 'k StateDB" where
  "RevertToSnapshot K revid s =
     (let revs = validRevisions s;
          idx = search (\<lambda>i. revid \<le> rev_id (revs ! i)) 0 (length revs)
      in if idx = length revs \<or> rev_id (revs ! idx) \<noteq> revid then (Panic, s)
         else andthen (journal_Revert K (journalIndex (revs ! idx)) s) (\<lambda>_ s.
                (Ok (), s\<lparr>validRevisions := take idx (validRevisions s)\<rparr>)))"


section \<open>Commit\<close>

definition commit_slot :: "'k Keeper \<Rightarrow> stateObject \<Rightarrow> hash \<Rightarrow> 'k \<Rightarrow> 'k" where
  "commit_slot K obj key k =
     (let v = storage_read (dirtyStorage obj) key in
      if v = storage_read (originStorage obj) key then k
      else kSetState K (obj_address obj) key (hash_bytes v) k)"

definition commit_code :: "'k Keeper \<Rightarrow> stateObject \<Rightarrow> 'k \<Rightarrow> 'k" where
  "commit_code K obj k = (case code obj of
      None \<Rightarrow> k
    | Some c \<Rightarrow> if dirtyCode obj then kSetCode K (CodeHash (account obj)) c k else k)"

definition commit_object ::
  "'k Keeper \<Rightarrow> address \<Rightarrow> 'k StateDB \<Rightarrow> (evm_error, unit) outcome \<times> 'k StateDB" where
  "commit_object K a s = (case map_of (stateObjects s) a of
      None \<Rightarrow> (Panic, s)
    | Some obj \<Rightarrow>
        if suicided obj \<or> selfDestructed obj
        then (case kDeleteAccount K (obj_address obj) (keeper s) of
            (r, k) \<Rightarrow> map_err (Wrapped ''failed to delete account'') (r, s\<lparr>keeper := k\<rparr>))
        else
          (case kSetAccount K (obj_address obj) (account obj) (commit_code K obj (keeper s)) of
             (r, k) \<Rightarrow>
               andthen (map_err (Wrapped ''failed to set account'') (r, s\<lparr>keeper := k\<rparr>)) (\<lambda>_ s.
                 (Ok (), s\<lparr>keeper :=
                    fold (commit_slot K obj) (SortedKeys (dirtyStorage obj)) (keeper s)\<rparr>))))"

definition Commit :: "'k Keeper \<Rightarrow> 'k StateDB \<Rightarrow> (evm_error, unit) outcome \<times> 'k StateDB" where
  "Commit K s = foreach (commit_object K) (sortedDirties (journal_of s)) s"


section \<open>Runs of the interpreter\<close>

text \<open>
  What the interpreter may ask and do: every exported method but \<open>Commit\<close>, in any order.
\<close>

datatype db_query =
    QExist address | QEmpty address | QBalance address | QNonce address | QCode address
  | QCodeSize address | QCodeHash address | QState address hash | QCommittedState address hash
  | QSuicided address | QRefund | QLogs | QAddress address | QSlot address hash
  | QTransient address hash

datatype answer =
    ABool bool | AInt int | AWord "64 word" | ABytes "bytes option" | ANat nat | AHash hash
  | ALogs "Log list" | APair "(evm_error, bool \<times> bool) outcome"

fun ask :: "'k Keeper \<Rightarrow> db_query \<Rightarrow> 'k StateDB \<Rightarrow> answer \<times> 'k StateDB" where
  "ask K (QExist a) s = map_prod ABool (\<lambda>s. s) (Exist K a s)"
| "ask K (QEmpty a) s = map_prod ABool (\<lambda>s. s) (Empty K a s)"
| "ask K (QBalance a) s = map_prod AInt (\<lambda>s. s) (GetBalance K a s)"
| "ask K (QNonce a) s = map_prod AWord (\<lambda>s. s) (GetNonce K a s)"
| "ask K (QCode a) s = map_prod ABytes (\<lambda>s. s) (GetCode K a s)"
| "ask K (QCodeSize a) s = map_prod ANat (\<lambda>s. s) (GetCodeSize K a s)"
| "ask K (QCodeHash a) s = map_prod AHash (\<lambda>s. s) (GetCodeHash K a s)"
| "ask K (QState a k) s = map_prod AHash (\<lambda>s. s) (GetState K a k s)"
| "ask K (QCommittedState a k) s = map_prod AHash (\<lambda>s. s) (GetCommittedState K a k s)"
| "ask K (QSuicided a) s = map_prod ABool (\<lambda>s. s) (HasSuicided K a s)"
| "ask K QRefund s = (AWord (refund s), s)"
| "ask K QLogs s = (ALogs (logs s), s)"
| "ask K (QAddress a) s = (ABool (AddressInAccessList a s), s)"
| "ask K (QSlot a h) s = (APair (SlotInAccessList a h s), s)"
| "ask K (QTransient a k) s = (AHash (GetTransientState a k s), s)"

datatype db_op =
    Ask db_query | DoAddLog Log | DoAddRefund "64 word" | DoSubRefund "64 word"
  | DoCreateAccount address | DoAddBalance address int | DoSubBalance address int
  | DoSetNonce address "64 word" | DoSetCode address "bytes option" | DoSetState address hash hash
  | DoSuicide address | DoSelfDestruct address | DoSelfdestruct6780 address
  | DoPrepareAccessList address "address option" "address list" "(address \<times> hash list) list"
  | DoAddAddress address | DoAddSlot address hash | DoSetTransient address hash hash
  | DoSnapshot | DoRevert int

fun exec :: "'k Keeper \<Rightarrow> db_op \<Rightarrow> 'k StateDB \<Rightarrow> (evm_error, unit) outcome \<times> 'k StateDB" where
  "exec K (Ask q) s = (Ok (), snd (ask K q s))"
| "exec K (DoAddLog lg) s = (Ok (), AddLog lg s)"
| "exec K (DoAddRefund g) s = (Ok (), AddRefund g s)"
| "exec K (DoSubRefund g) s = SubRefund g s"
| "exec K (DoCreateAccount a) s = (Ok (), CreateAccount K a s)"
| "exec K (DoAddBalance a n) s = (Ok (), AddBalance K a n s)"
| "exec K (DoSubBalance a n) s = (Ok (), SubBalance K a n s)"
| "exec K (DoSetNonce a n) s = (Ok (), SetNonce K a n s)"
| "exec K (DoSetCode a c) s = (Ok (), SetCode K a c s)"
| "exec K (DoSetState a k v) s = (Ok (), SetState K a k v s)"
| "exec K (DoSuicide a) s = (Ok (), snd (Suicide K a s))"
| "exec K (DoSelfDestruct a) s = (Ok (), SelfDestruct K a s)"
| "exec K (DoSelfdestruct6780 a) s = (Ok (), Selfdestruct6780 K a s)"
| "exec K (DoPrepareAccessList a d ps al) s = PrepareAccessList a d ps al s"
| "exec K (DoAddAddress a) s = (Ok (), AddAddressToAccessList a s)"
| "exec K (DoAddSlot a h) s = AddSlotToAccessList a h s"
| "exec K (DoSetTransient a k v) s = (Ok (), SetTransientState a k v s)"
| "exec K DoSnapshot s = (Ok (), snd (Snapshot s))"
| "exec K (DoRevert n) s = RevertToSnapshot K n s"

definition run :: "'k Keeper \<Rightarrow> db_op list \<Rightarrow> 'k StateDB \<Rightarrow> (evm_error, unit) outcome \<times> 'k StateDB" where
  "run K ops s = foreach (exec K) ops s"

end
