(* ===== verification/StateJournal.thy ===== *)
theory StateJournal
  imports StateDB
begin

text \<open>
  Why reverting a snapshot of the state database restores it.

  \<open>db_ok\<close> is the invariant of one state; \<open>db_sim\<close> relates a state to one that answers every
  query alike but may have loaded more into its caches.  \<open>sound\<close> states inductively that the
  whole journal can be undone, one entry after the other, through states that satisfy the
  invariant.  \<open>ext\<close> says that a state was reached by journalled changes: undoing the new entries
  leads back to a state similar to the first one.  Every operation extends its state, and
  extensions compose, so the journal of any run of operations can be rolled back to any of its
  snapshots.
\<close>



section \<open>Observations\<close>

definition eff_code :: "'k Keeper \<Rightarrow> 'k \<Rightarrow> stateObject \<Rightarrow> bytes option" where
  "eff_code K k obj = (case code obj of
      Some c \<Rightarrow> Some c
    | None \<Rightarrow> if CodeHash (account obj) = emptyCodeHash K then None
              else kGetCode K k (CodeHash (account obj)))"

definition eff_committed :: "'k Keeper \<Rightarrow> 'k \<Rightarrow> stateObject \<Rightarrow> hash \<Rightarrow> hash" where
  "eff_committed K k obj key = (case map_of (originStorage obj) key of
      Some v \<Rightarrow> v | None \<Rightarrow> kGetState K k (obj_address obj) key)"

definition eff_state :: "'k Keeper \<Rightarrow> 'k \<Rightarrow> stateObject \<Rightarrow> hash \<Rightarrow> hash" where
  "eff_state K k obj key = (case map_of (dirtyStorage obj) key of
      Some v \<Rightarrow> v | None \<Rightarrow> eff_committed K k obj key)"

definition loaded :: "'k Keeper \<Rightarrow> address \<Rightarrow> Account \<Rightarrow> stateObject" where
  "loaded K a acct = newObject K a (Nonce acct) (Some (Balance acct)) (Some (CodeHash acct))"

definition peek :: "'k Keeper \<Rightarrow> 'k StateDB \<Rightarrow> address \<Rightarrow> stateObject option" where
  "peek K s a = (case map_of (stateObjects s) a of
      Some obj \<Rightarrow> Some obj
    | None \<Rightarrow> map_option (loaded K a) (kGetAccount K (keeper s) a))"

definition obj_wf :: "'k Keeper \<Rightarrow> 'k \<Rightarrow> stateObject \<Rightarrow> bool" where
  "obj_wf K k obj \<longleftrightarrow>
     kv_ok (originStorage obj) \<and> kv_ok (dirtyStorage obj) \<and>
     (\<forall>key v. map_of (originStorage obj) key = Some v \<longrightarrow> v = kGetState K k (obj_address obj) key) \<and>
     dom (map_of (dirtyStorage obj)) \<subseteq> dom (map_of (originStorage obj)) \<and>
     (\<forall>c. code obj = Some c \<longrightarrow> dirtyCode obj \<or> kGetCode K k (CodeHash (account obj)) = Some c)"

definition obj_sim :: "'k Keeper \<Rightarrow> 'k \<Rightarrow> stateObject \<Rightarrow> stateObject \<Rightarrow> bool" where
  "obj_sim K k o' o1 \<longleftrightarrow>
     obj_address o' = obj_address o1 \<and> account o' = account o1 \<and> suicided o' = suicided o1 \<and>
     selfDestructed o' = selfDestructed o1 \<and> created o' = created o1 \<and>
     eff_code K k o' = eff_code K k o1 \<and> eff_state K k o' = eff_state K k o1"

definition objs_ok :: "'k Keeper \<Rightarrow> 'k StateDB \<Rightarrow> bool" where
  "objs_ok K s \<longleftrightarrow> kv_ok (stateObjects s) \<and>
     (\<forall>a obj. map_of (stateObjects s) a = Some obj \<longrightarrow> obj_address obj = a \<and> obj_wf K (keeper s) obj)"

definition marks :: "JournalEntry list \<Rightarrow> address \<Rightarrow> nat" where
  "marks es a = length (filter (\<lambda>e. Dirtied e = Some a) es)"

definition journal_ok :: "'k Keeper \<Rightarrow> 'k StateDB \<Rightarrow> bool" where
  "journal_ok K s \<longleftrightarrow>
     kv_ok (dirties (journal_of s)) \<and>
     (\<forall>a. map_of (dirties (journal_of s)) a =
        (let n = marks (entries (journal_of s)) a in if n = 0 then None else Some (int n))) \<and>
     (\<forall>p. resetObjectChange p \<in> set (entries (journal_of s)) \<longrightarrow> obj_wf K (keeper s) p) \<and>
     (\<forall>a. 0 < marks (entries (journal_of s)) a \<longrightarrow> kv_has (stateObjects s) a)"

definition db_ok :: "'k Keeper \<Rightarrow> 'k StateDB \<Rightarrow> bool" where
  "db_ok K s \<longleftrightarrow> objs_ok K s \<and> journal_ok K s \<and> al_ok (access s)"

definition db_sim :: "'k Keeper \<Rightarrow> 'k StateDB \<Rightarrow> 'k StateDB \<Rightarrow> bool" where
  "db_sim K s' s \<longleftrightarrow>
     keeper s' = keeper s \<and> journal_of s' = journal_of s \<and> txConfig s' = txConfig s \<and>
     refund s' = refund s \<and> logs s' = logs s \<and> access s' = access s \<and>
     transient_Get (transient s') = transient_Get (transient s) \<and>
     (\<forall>a. rel_option (obj_sim K (keeper s)) (peek K s' a) (peek K s a)) \<and>
     (\<forall>a obj. map_of (stateObjects s) a = Some obj \<longrightarrow>
        (\<exists>obj'. map_of (stateObjects s') a = Some obj' \<and>
           dom (map_of (originStorage obj)) \<subseteq> dom (map_of (originStorage obj'))))"

lemma obj_sim_refl [simp]: "obj_sim K k obj obj"
  by (simp add: obj_sim_def)

lemma obj_sim_trans: "obj_sim K k a b \<Longrightarrow> obj_sim K k b c \<Longrightarrow> obj_sim K k a c"
  by (simp add: obj_sim_def)

lemma rel_obj_sim_trans:
  "rel_option (obj_sim K k) a b \<Longrightarrow> rel_option (obj_sim K k) b c \<Longrightarrow> rel_option (obj_sim K k) a c"
  by (cases a; cases b; cases c) (auto intro: obj_sim_trans)

lemma db_sim_refl [simp]: "db_sim K s s"
  by (auto simp: db_sim_def intro: option.rel_refl)

lemma db_sim_trans:
  assumes "db_sim K a b" "db_sim K b c"
  shows "db_sim K a c"
proof -
  have "rel_option (obj_sim K (keeper c)) (peek K a x) (peek K c x)" for x
    using assms rel_obj_sim_trans [of K "keeper c" "peek K a x" "peek K b x" "peek K c x"]
    by (simp add: db_sim_def)
  moreover have "\<exists>o'. map_of (stateObjects a) x = Some o' \<and>
      dom (map_of (originStorage obj)) \<subseteq> dom (map_of (originStorage o'))"
    if "map_of (stateObjects c) x = Some obj" for x obj
    using assms that unfolding db_sim_def by (meson subset_trans)
  ultimately show ?thesis using assms by (simp add: db_sim_def)
qed

lemma eff_committed_wf: "obj_wf K k obj \<Longrightarrow> eff_committed K k obj key = kGetState K k (obj_address obj) key"
  by (auto simp: obj_wf_def eff_committed_def split: option.splits)


section \<open>Loading\<close>

lemma loaded_wf [simp]: "obj_wf K k (loaded K a acct)"
  by (simp add: obj_wf_def loaded_def newObject_def)

lemma loaded_address [simp]: "obj_address (loaded K a acct) = a"
  by (simp add: loaded_def newObject_def)

lemma peek_set [simp]:
  "peek K (setStateObject obj s) a = (if a = obj_address obj then Some obj else peek K s a)"
  by (auto simp: peek_def setStateObject_def kv_simps split: option.splits)

lemma set_fields [simp]:
  "keeper (setStateObject obj s) = keeper s" "journal_of (setStateObject obj s) = journal_of s"
  "txConfig (setStateObject obj s) = txConfig s" "refund (setStateObject obj s) = refund s"
  "logs (setStateObject obj s) = logs s" "access (setStateObject obj s) = access s"
  "transient (setStateObject obj s) = transient s"
  "validRevisions (setStateObject obj s) = validRevisions s"
  "nextRevisionID (setStateObject obj s) = nextRevisionID s"
  "stateObjects (setStateObject obj s) = kv_set (obj_address obj) obj (stateObjects s)"
  by (simp_all add: setStateObject_def)

lemma append_fields [simp]:
  "keeper (journal_append e s) = keeper s" "txConfig (journal_append e s) = txConfig s"
  "refund (journal_append e s) = refund s" "logs (journal_append e s) = logs s"
  "access (journal_append e s) = access s" "transient (journal_append e s) = transient s"
  "validRevisions (journal_append e s) = validRevisions s"
  "nextRevisionID (journal_append e s) = nextRevisionID s"
  "stateObjects (journal_append e s) = stateObjects s"
  "entries (journal_of (journal_append e s)) = entries (journal_of s) @ [e]"
  "dirties (journal_of (journal_append e s)) = mark_dirty e (dirties (journal_of s))"
  by (simp_all add: journal_append_def)

lemma peek_live: "map_of (stateObjects s) a = Some obj \<Longrightarrow> peek K s a = Some obj"
  by (simp add: peek_def)

lemma peek_address: "objs_ok K s \<Longrightarrow> peek K s a = Some obj \<Longrightarrow> obj_address obj = a"
  by (auto simp: peek_def objs_ok_def split: option.splits)

lemma peek_wf: "objs_ok K s \<Longrightarrow> peek K s a = Some obj \<Longrightarrow> obj_wf K (keeper s) obj"
  by (auto simp: peek_def objs_ok_def split: option.splits)

lemma objs_ok_set:
  "objs_ok K s \<Longrightarrow> obj_wf K (keeper s) obj \<Longrightarrow> objs_ok K (setStateObject obj s)"
  by (auto simp: objs_ok_def kv_simps)

text \<open>Storing a similar object with larger caches is similar.\<close>

lemma db_sim_set:
  assumes "peek K s (obj_address obj) = Some o1" "obj_sim K (keeper s) obj o1"
    and "\<And>o2. map_of (stateObjects s) (obj_address obj) = Some o2 \<Longrightarrow>
      dom (map_of (originStorage o2)) \<subseteq> dom (map_of (originStorage obj))"
  shows "db_sim K (setStateObject obj s) s"
  using assms by (auto simp: db_sim_def kv_simps intro: option.rel_refl)

lemma journal_ok_set: "journal_ok K s \<Longrightarrow> journal_ok K (setStateObject obj s)"
  by (auto simp: journal_ok_def kv_simps)

lemma db_ok_set: "db_ok K s \<Longrightarrow> obj_wf K (keeper s) obj \<Longrightarrow> db_ok K (setStateObject obj s)"
  by (simp add: db_ok_def objs_ok_set journal_ok_set)

lemma getStateObject_cases:
  assumes "getStateObject K a s = (r, s1)"
  shows "r = peek K s a" "db_sim K s1 s" "db_ok K s \<Longrightarrow> db_ok K s1"
    "validRevisions s1 = validRevisions s" "nextRevisionID s1 = nextRevisionID s"
    "keeper s1 = keeper s" "journal_of s1 = journal_of s"
    "r = Some obj \<Longrightarrow> map_of (stateObjects s1) a = Some obj"
    "r = None \<Longrightarrow> s1 = s"
  using assms
  by (auto simp: getStateObject_def peek_def loaded_def [symmetric] Let_def kv_simps db_ok_set
      intro!: db_sim_set split: option.splits)


section \<open>Undoing the journal\<close>

definition undo1 :: "'k Keeper \<Rightarrow> 'k StateDB \<Rightarrow> (evm_error, unit) outcome \<times> 'k StateDB" where
  "undo1 K s = (if entries (journal_of s) = [] then (Ok (), s) else
     (let e = last (entries (journal_of s)) in
      andthen (revert_entry K e s) (\<lambda>_ s. (Ok (), s\<lparr>journal_of :=
        \<lparr>entries = butlast (entries (journal_of s)),
         dirties = unmark_dirty e (dirties (journal_of s))\<rparr>\<rparr>))))"

fun undo :: "'k Keeper \<Rightarrow> nat \<Rightarrow> 'k StateDB \<Rightarrow> (evm_error, unit) outcome \<times> 'k StateDB" where
  "undo K 0 s = (Ok (), s)"
| "undo K (Suc m) s = andthen (undo1 K s) (\<lambda>_ s. undo K m s)"

inductive sound :: "'k Keeper \<Rightarrow> 'k StateDB \<Rightarrow> bool" for K where
  sound0: "db_ok K s \<Longrightarrow> entries (journal_of s) = [] \<Longrightarrow> sound K s"
| sound1: "db_ok K s \<Longrightarrow> entries (journal_of s) \<noteq> [] \<Longrightarrow> undo1 K s = (Ok (), t) \<Longrightarrow> sound K t \<Longrightarrow> sound K s"

inductive_cases soundE: "sound K s"

lemma sound_db_ok: "sound K s \<Longrightarrow> db_ok K s"
  by (auto elim: soundE)

text \<open>The frame of a revert.\<close>

definition same_frame :: "'k StateDB \<Rightarrow> 'k StateDB \<Rightarrow> bool" where
  "same_frame t s \<longleftrightarrow> keeper t = keeper s \<and> journal_of t = journal_of s \<and>
     validRevisions t = validRevisions s \<and> nextRevisionID t = nextRevisionID s \<and> txConfig t = txConfig s"

lemma on_object_frame:
  "on_object K a f s = (r, t) \<Longrightarrow> same_frame t s"
  "on_object_if K a f s = (r, t) \<Longrightarrow> same_frame t s"
  by (auto simp: on_object_def on_object_if_def getStateObject_def Let_def same_frame_def
      split: option.splits)

lemma revert_entry_frame: "revert_entry K e s = (r, t) \<Longrightarrow> same_frame t s"
  by (cases e) (auto dest: on_object_frame simp: setTransientState_def same_frame_def
      split: if_splits prod.splits)

lemma undo1_fields:
  assumes "undo1 K s = (Ok (), t)"
  shows "keeper t = keeper s" "entries (journal_of t) = butlast (entries (journal_of s))"
    "validRevisions t = validRevisions s" "nextRevisionID t = nextRevisionID s"
  using assms
  by (auto simp: undo1_def Let_def outcome_simps split: if_splits dest!: revert_entry_frame
      simp: same_frame_def)

lemma undo_fields:
  assumes "undo K m s = (Ok (), t)"
  shows "entries (journal_of t) = take (length (entries (journal_of s)) - m) (entries (journal_of s))
    \<and> keeper t = keeper s \<and> validRevisions t = validRevisions s \<and> nextRevisionID t = nextRevisionID s"
  using assms
proof (induction m arbitrary: s)
  case (Suc m)
  then obtain u where u: "undo1 K s = (Ok (), u)" "undo K m u = (Ok (), t)"
    by (auto simp: outcome_simps)
  from Suc.IH [OF u(2)] undo1_fields [OF u(1)] show ?case
    by (simp add: butlast_conv_take take_take)
qed simp

lemma undo_add: "undo K (m + n) s = andthen (undo K m s) (\<lambda>_ s. undo K n s)"
proof (induction m arbitrary: s)
  case (Suc m)
  then have "undo K (m + n) = (\<lambda>s. andthen (undo K m s) (\<lambda>_. undo K n))" by (simp add: fun_eq_iff)
  then show ?case by (simp add: andthen_assoc)
qed simp

lemma sound_undo:
  assumes "sound K s" "m \<le> length (entries (journal_of s))"
  shows "\<exists>t. undo K m s = (Ok (), t) \<and> sound K t"
  using assms
proof (induction m arbitrary: s)
  case (Suc m)
  from Suc.prems(1) show ?case
  proof (cases rule: sound.cases)
    case (sound1 t)
    with Suc.prems undo1_fields(2) [of K s t] have "m \<le> length (entries (journal_of t))" by simp
    from Suc.IH [OF sound1(4) this] sound1(3) show ?thesis by simp
  qed (use Suc.prems in simp)
qed simp

text \<open>\<open>journal.Revert\<close>, which cuts the slice once at the end, is the stepwise undoing.\<close>

definition with_entries :: "JournalEntry list \<Rightarrow> 'k StateDB \<Rightarrow> 'k StateDB" where
  "with_entries es s = s\<lparr>journal_of := (journal_of s)\<lparr>entries := es\<rparr>\<rparr>"

lemma with_entries_fields [simp]:
  "keeper (with_entries es s) = keeper s" "stateObjects (with_entries es s) = stateObjects s"
  "refund (with_entries es s) = refund s" "logs (with_entries es s) = logs s"
  "access (with_entries es s) = access s" "transient (with_entries es s) = transient s"
  "entries (journal_of (with_entries es s)) = es"
  "dirties (journal_of (with_entries es s)) = dirties (journal_of s)"
  by (simp_all add: with_entries_def)

lemma with_entries_push [simp]:
  "setStateObject obj (with_entries es s) = with_entries es (setStateObject obj s)"
  "(with_entries es s)\<lparr>stateObjects := x1\<rparr> = with_entries es (s\<lparr>stateObjects := x1\<rparr>)"
  "(with_entries es s)\<lparr>refund := x2\<rparr> = with_entries es (s\<lparr>refund := x2\<rparr>)"
  "(with_entries es s)\<lparr>logs := x3\<rparr> = with_entries es (s\<lparr>logs := x3\<rparr>)"
  "(with_entries es s)\<lparr>access := x4\<rparr> = with_entries es (s\<lparr>access := x4\<rparr>)"
  "(with_entries es s)\<lparr>transient := x5\<rparr> = with_entries es (s\<lparr>transient := x5\<rparr>)"
  by (simp_all add: with_entries_def setStateObject_def)

lemma getStateObject_with:
  "getStateObject K a (with_entries es s) = map_prod (\<lambda>x. x) (with_entries es) (getStateObject K a s)"
  by (auto simp: getStateObject_def Let_def split: option.splits)

lemma on_object_with:
  "on_object K a f (with_entries es s) = map_prod (\<lambda>x. x) (with_entries es) (on_object K a f s)"
  "on_object_if K a f (with_entries es s) = map_prod (\<lambda>x. x) (with_entries es) (on_object_if K a f s)"
  by (auto simp: on_object_def on_object_if_def getStateObject_with split: option.splits prod.splits)

lemma revert_entry_with:
  "revert_entry K e (with_entries es s) = map_prod (\<lambda>x. x) (with_entries es) (revert_entry K e s)"
  by (cases e) (auto simp: on_object_with setTransientState_def split: prod.splits)

definition drop_mark :: "JournalEntry \<Rightarrow> 'k StateDB \<Rightarrow> 'k StateDB" where
  "drop_mark e s = s\<lparr>journal_of := (journal_of s)\<lparr>dirties := unmark_dirty e (dirties (journal_of s))\<rparr>\<rparr>"

lemma revert_entries_with:
  "revert_entries K es (with_entries fs s) = map_prod (\<lambda>x. x) (with_entries fs) (revert_entries K es s)"
proof (induction es arbitrary: s)
  case (Cons e es)
  obtain r t where t: "revert_entry K e s = (r, t)" by fastforce
  have "drop_mark e (with_entries fs t) = with_entries fs (drop_mark e t)"
    by (simp add: drop_mark_def with_entries_def)
  with Cons t show ?case
    by (cases r) (simp_all add: revert_entry_with flip: drop_mark_def)
qed simp

lemma undo1_snoc:
  assumes "entries (journal_of s) = es @ [e]"
  shows "undo1 K s = andthen (revert_entry K e s) (\<lambda>_ t. (Ok (), with_entries es (drop_mark e t)))"
proof -
  obtain r t where t: "revert_entry K e s = (r, t)" by fastforce
  with revert_entry_frame [OF this] assms show ?thesis
    by (cases r) (simp_all add: undo1_def Let_def with_entries_def drop_mark_def same_frame_def)
qed

lemma revert_entries_frame:
  "revert_entries K es s = (r, t) \<Longrightarrow> entries (journal_of t) = entries (journal_of s)"
proof (induction es arbitrary: s)
  case (Cons e es)
  obtain r1 u where u: "revert_entry K e s = (r1, u)" by fastforce
  have "entries (journal_of (drop_mark e u)) = entries (journal_of s)"
    using revert_entry_frame [OF u] by (simp add: drop_mark_def same_frame_def)
  with Cons u revert_entry_frame [OF u] show ?case
    by (cases r1) (auto simp: same_frame_def simp flip: drop_mark_def)
qed simp

lemma revert_entries_undo:
  assumes "entries (journal_of s) = fs @ es" "undo K (length es) s = (Ok (), t)"
  shows "\<exists>u. revert_entries K (rev es) s = (Ok (), u) \<and> t = with_entries fs u"
  using assms
proof (induction es arbitrary: s rule: rev_induct)
  case Nil
  then show ?case by (simp add: with_entries_def)
next
  case (snoc e es)
  from snoc.prems undo1_snoc [of s "fs @ es" e K] obtain v where
    v: "revert_entry K e s = (Ok (), v)" "undo K (length es) (with_entries (fs @ es) (drop_mark e v)) = (Ok (), t)"
    by (auto simp: outcome_simps)
  from snoc.IH [OF _ v(2)] obtain u where
    "revert_entries K (rev es) (with_entries (fs @ es) (drop_mark e v)) = (Ok (), u)" "t = with_entries fs u"
    by auto
  moreover have "with_entries fs (with_entries (fs @ es) x) = with_entries fs x" for x :: "'a StateDB"
    by (simp add: with_entries_def)
  ultimately obtain w where "revert_entries K (rev es) (drop_mark e v) = (Ok (), w)" "t = with_entries fs w"
    by (cases "revert_entries K (rev es) (drop_mark e v)") (auto simp: revert_entries_with)
  with v(1) show ?case by (simp flip: drop_mark_def)
qed

lemma journal_Revert_undo:
  assumes "n \<le> length (entries (journal_of s))"
    and "undo K (length (entries (journal_of s)) - n) s = (Ok (), t)"
  shows "journal_Revert K n s = (Ok (), t)"
proof -
  let ?es = "entries (journal_of s)"
  from revert_entries_undo [of s "take n ?es" "drop n ?es" K t] assms obtain u where
    u: "revert_entries K (rev (drop n ?es)) s = (Ok (), u)" "t = with_entries (take n ?es) u"
    by auto
  with assms(1) revert_entries_frame [OF u(1)] show ?thesis
    by (simp add: journal_Revert_def with_entries_def)
qed


section \<open>Undoing respects similarity\<close>

lemma journal_ok_sim: "db_sim K s' s \<Longrightarrow> journal_ok K s \<Longrightarrow> journal_ok K s'"
proof -
  assume sim: "db_sim K s' s" and ok: "journal_ok K s"
  have "kv_has (stateObjects s') a" if "kv_has (stateObjects s) a" for a
    using sim that unfolding db_sim_def kv_has_def by fast
  with sim ok show "journal_ok K s'"
    unfolding db_sim_def journal_ok_def by simp
qed

lemma db_ok_sim: "db_sim K s' s \<Longrightarrow> db_ok K s \<Longrightarrow> objs_ok K s' \<Longrightarrow> db_ok K s'"
  using journal_ok_sim [of K s' s] by (auto simp: db_ok_def) (simp add: db_sim_def)

lemma db_sim_peek: "db_sim K s' s \<Longrightarrow> rel_option (obj_sim K (keeper s)) (peek K s' a) (peek K s a)"
  by (simp add: db_sim_def)

text \<open>The changes a journal entry makes to one object.\<close>

definition obj_change :: "'k Keeper \<Rightarrow> 'k \<Rightarrow> (stateObject \<Rightarrow> stateObject) \<Rightarrow> bool" where
  "obj_change K k f \<longleftrightarrow>
     (\<forall>o1 o2. obj_sim K k o1 o2 \<longrightarrow> obj_sim K k (f o1) (f o2)) \<and>
     (\<forall>obj. obj_address (f obj) = obj_address obj \<and> originStorage (f obj) = originStorage obj) \<and>
     (\<forall>o1 o2. obj_wf K k o1 \<longrightarrow> obj_wf K k (f o2) \<longrightarrow>
        dom (map_of (originStorage o2)) \<subseteq> dom (map_of (originStorage o1)) \<longrightarrow> obj_wf K k (f o1))"

lemmas obj_setters = setBalance_def setNonce_def setCode_def setState_def

lemma eff_committed_same:
  "obj_address o1 = obj_address o2 \<Longrightarrow> originStorage o1 = originStorage o2 \<Longrightarrow>
   eff_committed K k o1 = eff_committed K k o2"
  by (simp add: eff_committed_def fun_eq_iff cong: option.case_cong)

lemma eff_state_same:
  "obj_address o1 = obj_address o2 \<Longrightarrow> originStorage o1 = originStorage o2 \<Longrightarrow>
   dirtyStorage o1 = dirtyStorage o2 \<Longrightarrow> eff_state K k o1 = eff_state K k o2"
  using eff_committed_same [of o1 o2 K k] by (auto simp: eff_state_def fun_eq_iff split: option.splits)

lemma eff_code_same:
  "CodeHash (account o1) = CodeHash (account o2) \<Longrightarrow> code o1 = code o2 \<Longrightarrow>
   eff_code K k o1 = eff_code K k o2"
  by (simp add: eff_code_def cong: option.case_cong)

lemma eff_state_setters [simp]:
  "eff_state K k (setBalance b obj) = eff_state K k obj"
  "eff_state K k (setNonce n obj) = eff_state K k obj"
  "eff_state K k (setCode h c obj) = eff_state K k obj"
  "eff_state K k (obj\<lparr>suicided := p\<rparr>) = eff_state K k obj"
  "eff_state K k (obj\<lparr>selfDestructed := p\<rparr>) = eff_state K k obj"
  "eff_state K k (obj\<lparr>code := c\<rparr>) = eff_state K k obj"
  by (rule eff_state_same; simp add: obj_setters)+

lemma eff_state_setState [simp]: "eff_state K k (setState key v obj) = (eff_state K k obj)(key := v)"
  using eff_committed_same [of "setState key v obj" obj K k]
  by (auto simp: eff_state_def fun_eq_iff kv_simps setState_def split: option.splits)

lemma eff_code_setters [simp]:
  "eff_code K k (setBalance b obj) = eff_code K k obj"
  "eff_code K k (setNonce n obj) = eff_code K k obj"
  "eff_code K k (setState key v obj) = eff_code K k obj"
  "eff_code K k (obj\<lparr>suicided := p\<rparr>) = eff_code K k obj"
  "eff_code K k (obj\<lparr>selfDestructed := p\<rparr>) = eff_code K k obj"
  "eff_code K k (obj\<lparr>originStorage := x\<rparr>) = eff_code K k obj"
  by (rule eff_code_same; simp add: obj_setters)+

lemma eff_code_setCode [simp]:
  "eff_code K k (setCode h c obj) = (case c of Some c \<Rightarrow> Some c
     | None \<Rightarrow> if h = emptyCodeHash K then None else kGetCode K k h)"
  by (simp add: eff_code_def setCode_def split: option.splits)

lemma setter_fields [simp]:
  "obj_address (setBalance b obj) = obj_address obj" "originStorage (setBalance b obj) = originStorage obj"
  "obj_address (setNonce n obj) = obj_address obj" "originStorage (setNonce n obj) = originStorage obj"
  "obj_address (setCode h c obj) = obj_address obj" "originStorage (setCode h c obj) = originStorage obj"
  "obj_address (setState key v obj) = obj_address obj" "originStorage (setState key v obj) = originStorage obj"
  "account (setState key v obj) = account obj"
  "account (setBalance b obj) = (account obj)\<lparr>Balance := b\<rparr>"
  "account (setNonce n obj) = (account obj)\<lparr>Nonce := n\<rparr>"
  "account (setCode h c obj) = (account obj)\<lparr>CodeHash := h\<rparr>"
  by (simp_all add: obj_setters)

lemma setter_flags [simp]:
  "suicided (setBalance b obj) = suicided obj" "selfDestructed (setBalance b obj) = selfDestructed obj"
  "suicided (setNonce n obj) = suicided obj" "selfDestructed (setNonce n obj) = selfDestructed obj"
  "suicided (setCode h c obj) = suicided obj" "selfDestructed (setCode h c obj) = selfDestructed obj"
  "suicided (setState key v obj) = suicided obj" "selfDestructed (setState key v obj) = selfDestructed obj"
  "created (setBalance b obj) = created obj" "created (setNonce n obj) = created obj"
  "created (setCode h c obj) = created obj" "created (setState key v obj) = created obj"
  by (simp_all add: obj_setters)

lemma wf_setters [simp]:
  "obj_wf K k (setBalance b obj) = obj_wf K k obj"
  "obj_wf K k (setNonce n obj) = obj_wf K k obj"
  "obj_wf K k (obj\<lparr>suicided := p\<rparr>) = obj_wf K k obj"
  "obj_wf K k (obj\<lparr>selfDestructed := p\<rparr>) = obj_wf K k obj"
  by (simp_all add: obj_wf_def obj_setters)

lemma wf_setCode [simp]: "obj_wf K k obj \<Longrightarrow> obj_wf K k (setCode h c obj)"
  by (simp add: obj_wf_def obj_setters)

lemma wf_setState:
  "obj_wf K k obj \<Longrightarrow> obj_wf K k (setState key v obj) \<longleftrightarrow> key \<in> dom (map_of (originStorage obj))"
  by (auto simp: obj_wf_def setState_def kv_simps)

lemma obj_change_plain:
  "obj_change K k (setBalance b)" "obj_change K k (setNonce n)"
  "obj_change K k (\<lambda>obj. setBalance b (obj\<lparr>suicided := p\<rparr>))"
  "obj_change K k (\<lambda>obj. setBalance b (obj\<lparr>selfDestructed := p\<rparr>))"
  "obj_change K k (setCode h c)"
  by (simp_all add: obj_change_def obj_sim_def)

lemma obj_change_state: "obj_change K k (setState key v)"
  by (auto simp: obj_change_def obj_sim_def wf_setState) (auto simp: obj_wf_def setState_def kv_simps)

lemmas obj_changes = obj_change_plain obj_change_state

lemma getStateObject_map:
  assumes "getStateObject K a s = (r, s1)"
  shows "map_of (stateObjects s1) = (map_of (stateObjects s))(a := peek K s a)" "peek K s1 = peek K s"
    "same_frame s1 s" "refund s1 = refund s" "logs s1 = logs s" "access s1 = access s"
    "transient s1 = transient s"
  using assms
  by (auto simp: getStateObject_def peek_def same_frame_def loaded_def [symmetric] Let_def kv_simps
      fun_eq_iff split: option.splits if_splits)

lemma getStateObject_objs:
  assumes "getStateObject K a s = (r, s1)" "objs_ok K s"
  shows "objs_ok K s1"
  using assms
  by (auto simp: getStateObject_def loaded_def [symmetric] Let_def objs_ok_set split: option.splits)

lemma obj_changeD:
  assumes "obj_change K k f"
  shows "obj_sim K k o1 o2 \<Longrightarrow> obj_sim K k (f o1) (f o2)"
    and "obj_address (f obj) = obj_address obj" "originStorage (f obj) = originStorage obj"
    and "obj_wf K k o1 \<Longrightarrow> obj_wf K k (f o2) \<Longrightarrow>
      dom (map_of (originStorage o2)) \<subseteq> dom (map_of (originStorage o1)) \<Longrightarrow> obj_wf K k (f o1)"
  using assms unfolding obj_change_def by simp_all

lemma origin_sim:
  assumes "db_sim K s' s" "peek K s a = Some obj" "peek K s' a = Some obj'"
  shows "dom (map_of (originStorage obj)) \<subseteq> dom (map_of (originStorage obj'))"
proof (cases "map_of (stateObjects s) a")
  case None
  with assms(2) have "originStorage obj = []"
    by (auto simp: peek_def loaded_def newObject_def)
  then show ?thesis by simp
next
  case (Some o1)
  with assms(2) have "o1 = obj" by (simp add: peek_def)
  moreover from assms(1) Some obtain o2 where "map_of (stateObjects s') a = Some o2"
    "dom (map_of (originStorage o1)) \<subseteq> dom (map_of (originStorage o2))"
    unfolding db_sim_def by blast
  ultimately show ?thesis using assms(3) by (simp add: peek_def)
qed

text \<open>Replacing the object of one address by similar ones on both sides.\<close>

lemma db_sim_replace:
  assumes sim: "db_sim K s' s" and g: "getStateObject K a s = (r, s1)" "getStateObject K a s' = (r', s1')"
    and o1: "obj_sim K (keeper s) o2 o1" "obj_address o1 = a"
    and "dom (map_of (originStorage o1)) \<subseteq> dom (map_of (originStorage o2))"
  shows "db_sim K (setStateObject o2 s1') (setStateObject o1 s1)"
proof -
  note m = getStateObject_map [OF g(1)] getStateObject_map [OF g(2)]
  have a: "obj_address o2 = a" using o1 by (simp add: obj_sim_def)
  have "rel_option (obj_sim K (keeper s)) (peek K (setStateObject o2 s1') x) (peek K (setStateObject o1 s1) x)" for x
    using db_sim_peek [OF sim, of x] o1 a m by simp
  moreover have "\<exists>obj'. map_of (kv_set a o2 (stateObjects s1')) x = Some obj' \<and>
      dom (map_of (originStorage obj)) \<subseteq> dom (map_of (originStorage obj'))"
    if "map_of (kv_set a o1 (stateObjects s1)) x = Some obj" for x obj
    using that sim assms(6) m by (cases "x = a") (simp_all add: kv_simps db_sim_def)
  ultimately show ?thesis
    using sim m a o1(2) by (simp add: db_sim_def same_frame_def)
qed

lemma on_object_sim:
  assumes sim: "db_sim K s' s" and ok: "objs_ok K s'" and f: "obj_change K (keeper s) f"
    and t: "on_object K a f s = (Ok (), t)" "objs_ok K s" "objs_ok K t"
  shows "\<exists>t'. on_object K a f s' = (Ok (), t') \<and> db_sim K t' t \<and> objs_ok K t'"
proof -
  obtain r s1 where g: "getStateObject K a s = (r, s1)" by fastforce
  obtain r' s1' where g': "getStateObject K a s' = (r', s1')" by fastforce
  note m = getStateObject_map [OF g] and m' = getStateObject_map [OF g']
  from t(1) g obtain obj where obj: "r = Some obj" "t = setStateObject (f obj) s1"
    by (auto simp: on_object_def split: option.splits)
  then have p: "peek K s a = Some obj" using getStateObject_cases(1) [OF g] by simp
  with db_sim_peek [OF sim, of a] obtain obj' where
    p': "peek K s' a = Some obj'" "obj_sim K (keeper s) obj' obj"
    by (cases "peek K s' a") auto
  have dom: "dom (map_of (originStorage obj)) \<subseteq> dom (map_of (originStorage obj'))"
    by (rule origin_sim [OF sim p p'(1)])
  note fo = obj_changeD(1) [OF f p'(2)] obj_changeD(2,3) [OF f]
  have a: "obj_address obj = a" "obj_address obj' = a"
    using peek_address [OF t(2) p] peek_address [OF ok p'(1)] by simp_all
  have k: "keeper s' = keeper s" using sim by (simp add: db_sim_def)
  have wf: "obj_wf K (keeper s) (f obj)"
  proof -
    have "map_of (stateObjects t) a = Some (f obj)" "keeper t = keeper s"
      using m(3) by (simp_all add: obj(2) fo(2) a kv_simps same_frame_def)
    with t(3) show ?thesis unfolding objs_ok_def by metis
  qed
  have "obj_wf K (keeper s) (f obj')"
    by (rule obj_changeD(4) [OF f peek_wf [OF ok p'(1), unfolded k] wf dom])
  then have "objs_ok K (setStateObject (f obj') s1')"
    using objs_ok_set [OF getStateObject_objs [OF g' ok]] m'(3) k by (simp add: same_frame_def)
  moreover have "db_sim K (setStateObject (f obj') s1') t"
    unfolding obj(2) by (rule db_sim_replace [OF sim g g' fo(1)]) (simp_all add: fo(2,3) a dom)
  moreover have "on_object K a f s' = (Ok (), setStateObject (f obj') s1')"
    using g' getStateObject_cases(1) [OF g'] p'(1) by (simp add: on_object_def)
  ultimately show ?thesis by blast
qed

lemma on_object_if_eq:
  assumes "getStateObject K a s = (r, s1)"
  shows "on_object_if K a f s = (if peek K s a = None then (Ok (), s) else on_object K a f s)"
  using getStateObject_cases(1,9) [OF assms] assms
  by (auto simp: on_object_def on_object_if_def split: option.splits)

lemma on_object_if_sim:
  assumes sim: "db_sim K s' s" and ok: "objs_ok K s'" and f: "obj_change K (keeper s) f"
    and t: "on_object_if K a f s = (Ok (), t)" "objs_ok K s" "objs_ok K t"
  shows "\<exists>t'. on_object_if K a f s' = (Ok (), t') \<and> db_sim K t' t \<and> objs_ok K t'"
proof -
  obtain r s1 where g: "getStateObject K a s = (r, s1)" by fastforce
  obtain r' s1' where g': "getStateObject K a s' = (r', s1')" by fastforce
  from db_sim_peek [OF sim, of a] have "peek K s' a = None \<longleftrightarrow> peek K s a = None"
    by (cases "peek K s' a"; cases "peek K s a") auto
  then show ?thesis
    using on_object_sim [OF sim ok f _ t(2,3)] t(1) sim ok
    unfolding on_object_if_eq [OF g] on_object_if_eq [OF g'] by (auto split: if_splits)
qed

lemma transient_Get_Set:
  "transient_Get (transient_Set a k v t) b j = (if b = a \<and> j = k then v else transient_Get t b j)"
  by (auto simp: transient_Get_def transient_Set_def storage_read_def Let_def kv_simps kv_has_def
      split: option.splits)

lemma peek_del:
  "peek K (s\<lparr>stateObjects := kv_del a (stateObjects s)\<rparr>) b =
     (if b = a then map_option (loaded K a) (kGetAccount K (keeper s) a) else peek K s b)"
  by (auto simp: peek_def kv_simps split: option.splits)

lemma db_sim_del:
  assumes "db_sim K s' s"
  shows "db_sim K (s'\<lparr>stateObjects := kv_del a (stateObjects s')\<rparr>) (s\<lparr>stateObjects := kv_del a (stateObjects s)\<rparr>)"
proof -
  have "rel_option (obj_sim K (keeper s)) (peek K (s'\<lparr>stateObjects := kv_del a (stateObjects s')\<rparr>) x)
      (peek K (s\<lparr>stateObjects := kv_del a (stateObjects s)\<rparr>) x)" for x
    using db_sim_peek [OF assms, of x] assms
    by (auto simp: peek_del db_sim_def option.rel_map intro: option.rel_refl)
  with assms show ?thesis by (simp add: db_sim_def kv_simps)
qed

lemma db_sim_put:
  assumes "db_sim K s' s"
  shows "db_sim K (setStateObject p s') (setStateObject p s)"
  using assms by (auto simp: db_sim_def kv_simps)

lemma peek_upd [simp]:
  "peek K (s\<lparr>refund := x1\<rparr>) = peek K s" "peek K (s\<lparr>logs := x2\<rparr>) = peek K s"
  "peek K (s\<lparr>access := x3\<rparr>) = peek K s" "peek K (s\<lparr>transient := x4\<rparr>) = peek K s"
  "peek K (s\<lparr>journal_of := x5\<rparr>) = peek K s" "peek K (s\<lparr>validRevisions := x6\<rparr>) = peek K s"
  "peek K (s\<lparr>nextRevisionID := x7\<rparr>) = peek K s"
  by (simp_all add: peek_def fun_eq_iff cong: option.case_cong)

lemma objs_ok_upd [simp]:
  "objs_ok K (s\<lparr>refund := x1\<rparr>) = objs_ok K s" "objs_ok K (s\<lparr>logs := x2\<rparr>) = objs_ok K s"
  "objs_ok K (s\<lparr>access := x3\<rparr>) = objs_ok K s" "objs_ok K (s\<lparr>transient := x4\<rparr>) = objs_ok K s"
  "objs_ok K (s\<lparr>journal_of := x5\<rparr>) = objs_ok K s" "objs_ok K (s\<lparr>validRevisions := x6\<rparr>) = objs_ok K s"
  "objs_ok K (s\<lparr>nextRevisionID := x7\<rparr>) = objs_ok K s"
  by (simp_all add: objs_ok_def)

lemma db_sim_upd:
  assumes "db_sim K s' s"
  shows "db_sim K (s'\<lparr>refund := x1\<rparr>) (s\<lparr>refund := x1\<rparr>)" "db_sim K (s'\<lparr>logs := x2\<rparr>) (s\<lparr>logs := x2\<rparr>)"
    "db_sim K (s'\<lparr>access := x3\<rparr>) (s\<lparr>access := x3\<rparr>)"
    "db_sim K (s'\<lparr>journal_of := x4\<rparr>) (s\<lparr>journal_of := x4\<rparr>)"
    "db_sim K (setTransientState a k v s') (setTransientState a k v s)"
  using assms by (simp_all add: db_sim_def setTransientState_def transient_Get_Set fun_eq_iff)

lemma objs_ok_del: "objs_ok K s \<Longrightarrow> objs_ok K (s\<lparr>stateObjects := kv_del a (stateObjects s)\<rparr>)"
  by (auto simp: objs_ok_def kv_simps)

lemma revert_entry_sim:
  assumes "db_sim K s' s" "objs_ok K s'" "revert_entry K e s = (Ok (), t)" "objs_ok K s" "objs_ok K t"
  shows "\<exists>t'. revert_entry K e s' = (Ok (), t') \<and> db_sim K t' t \<and> objs_ok K t'"
proof -
  note sim = assms(1) and ok = assms(2) and t = assms(3)
  have f: "keeper s' = keeper s" "logs s' = logs s" "access s' = access s"
    using sim by (simp_all add: db_sim_def)
  show ?thesis
  proof (cases e)
  case (createObjectChange a)
  with t db_sim_del [OF sim, of a] objs_ok_del [OF ok, of a] show ?thesis by simp
next
  case (resetObjectChange p)
  then have tp: "t = setStateObject p s" using t by simp
  then have "map_of (stateObjects t) (obj_address p) = Some p" by (simp add: kv_simps)
  with assms(5) have "obj_wf K (keeper t) p" unfolding objs_ok_def by blast
  with objs_ok_set [OF ok, of p] db_sim_put [OF sim, of p] resetObjectChange tp f show ?thesis by simp
next
  case (suicideChange a p b)
  with on_object_if_sim [OF assms(1,2) obj_change_plain(3) _ assms(4,5)] assms(3) show ?thesis by simp
next
  case (selfDestructChange a p b)
  with on_object_if_sim [OF assms(1,2) obj_change_plain(4) _ assms(4,5)] assms(3) show ?thesis by simp
next
  case (balanceChange a b)
  with on_object_sim [OF assms(1,2) obj_change_plain(1) _ assms(4,5)] assms(3) show ?thesis by simp
next
  case (nonceChange a n)
  with on_object_sim [OF assms(1,2) obj_change_plain(2) _ assms(4,5)] assms(3) show ?thesis by simp
next
  case (storageChange a k v)
  with on_object_sim [OF assms(1,2) obj_change_state _ assms(4,5)] assms(3) show ?thesis by simp
next
  case (codeChange a c h)
  with on_object_sim [OF assms(1,2) obj_change_plain(5) _ assms(4,5)] assms(3) show ?thesis by simp
next
  case addLogChange
  with t f have "revert_entry K e s' = (Ok (), s'\<lparr>logs := butlast (logs s)\<rparr>)"
    "t = s\<lparr>logs := butlast (logs s)\<rparr>"
    by (simp_all split: if_splits)
  with db_sim_upd(2) [OF sim] ok show ?thesis by simp
next
  case (accessListAddAccountChange a)
  with t f db_sim_upd(3) [OF sim] ok show ?thesis by auto
next
  case (accessListAddSlotChange a h)
  obtain r al where "DeleteSlot a h (access s) = (r :: (evm_error, unit) outcome, al)" by fastforce
  with accessListAddSlotChange t f db_sim_upd(3) [OF sim] ok show ?thesis by auto
next
  case (refundChange r)
  with t db_sim_upd(1) [OF sim] ok show ?thesis by auto
next
  case (transientStorageChange a k v)
  moreover have "objs_ok K (setTransientState a k v s')"
    using ok by (simp add: setTransientState_def)
  ultimately show ?thesis using t db_sim_upd(5) [OF sim, of a k v] by simp
qed
qed

lemma undo1_sim:
  assumes sim: "db_sim K s' s" and ok: "db_ok K s'" "db_ok K s" and t: "undo1 K s = (Ok (), t)" "db_ok K t"
  shows "\<exists>t'. undo1 K s' = (Ok (), t') \<and> db_sim K t' t \<and> db_ok K t'"
proof (cases "entries (journal_of s)" rule: rev_cases)
  case Nil
  with assms show ?thesis by (auto simp: undo1_def db_sim_def)
next
  case (snoc es e)
  from t(1) undo1_snoc [OF snoc] obtain u where u: "revert_entry K e s = (Ok (), u)"
    "t = with_entries es (drop_mark e u)" by (auto simp: outcome_simps)
  have "objs_ok K u" using t(2) u(2) by (simp add: db_ok_def with_entries_def drop_mark_def)
  then obtain u' where u': "revert_entry K e s' = (Ok (), u')" "db_sim K u' u" "objs_ok K u'"
    using revert_entry_sim [OF sim _ u(1)] ok by (auto simp: db_ok_def)
  let ?t = "with_entries es (drop_mark e u')"
  have j: "journal_of u' = journal_of u" using u'(2) by (simp add: db_sim_def)
  have "db_sim K ?t t"
    using db_sim_upd(4) [OF u'(2)] by (simp add: u(2) with_entries_def drop_mark_def j)
  moreover from this have "db_ok K ?t"
    using db_ok_sim [OF _ t(2)] u'(3) by (simp add: with_entries_def drop_mark_def)
  moreover have "undo1 K s' = (Ok (), ?t)"
    using undo1_snoc [of s' es e K] snoc sim u'(1) by (simp add: db_sim_def)
  ultimately show ?thesis by blast
qed

lemma sound_sim: "sound K s \<Longrightarrow> db_sim K s' s \<Longrightarrow> db_ok K s' \<Longrightarrow> sound K s'"
proof (induction arbitrary: s' rule: sound.induct)
  case (sound0 s)
  then show ?case by (auto simp: db_sim_def intro: sound.sound0)
next
  case (sound1 s t)
  from undo1_sim [OF sound1.prems sound1.hyps(1,3) sound_db_ok [OF sound1.hyps(4)]]
  obtain t' where "undo1 K s' = (Ok (), t')" "db_sim K t' t" "db_ok K t'" by blast
  with sound1 show ?case
    by (intro sound.sound1 [of K s' t']) (simp_all add: db_sim_def)
qed

lemma undo_sim:
  assumes "sound K s" "db_sim K s' s" "db_ok K s'" "undo K m s = (Ok (), t)"
    "m \<le> length (entries (journal_of s))"
  shows "\<exists>t'. undo K m s' = (Ok (), t') \<and> db_sim K t' t"
  using assms
proof (induction m arbitrary: s s')
  case (Suc m)
  from Suc.prems(1) show ?case
  proof (cases rule: sound.cases)
    case (sound1 u)
    from undo1_sim [OF Suc.prems(2,3) sound1(1,3) sound_db_ok [OF sound1(4)]]
    obtain u' where u': "undo1 K s' = (Ok (), u')" "db_sim K u' u" "db_ok K u'" by blast
    have "undo K m u = (Ok (), t)" "m \<le> length (entries (journal_of u))"
      using Suc.prems(4,5) sound1(2,3) undo1_fields(2) [OF sound1(3)] by simp_all
    from Suc.IH [OF sound1(4) u'(2,3) this] u'(1) show ?thesis by simp
  qed (use Suc.prems in simp)
qed simp


section \<open>Journalled extensions\<close>

definition ext :: "'k Keeper \<Rightarrow> 'k StateDB \<Rightarrow> 'k StateDB \<Rightarrow> bool" where
  "ext K s s' \<longleftrightarrow> sound K s' \<and>
     validRevisions s' = validRevisions s \<and> nextRevisionID s' = nextRevisionID s \<and>
     (\<exists>m t. length (entries (journal_of s')) = length (entries (journal_of s)) + m \<and>
        undo K m s' = (Ok (), t) \<and> db_sim K t s)"

lemma extI:
  "sound K s' \<Longrightarrow> validRevisions s' = validRevisions s \<Longrightarrow> nextRevisionID s' = nextRevisionID s \<Longrightarrow>
   length (entries (journal_of s')) = length (entries (journal_of s)) + m \<Longrightarrow>
   undo K m s' = (Ok (), t) \<Longrightarrow> db_sim K t s \<Longrightarrow> ext K s s'"
  unfolding ext_def by blast

lemma ext_sound: "ext K s s' \<Longrightarrow> sound K s'"
  by (simp add: ext_def)

lemma ext_refl: "sound K s \<Longrightarrow> ext K s s"
  by (rule extI [where m = 0 and t = s]) simp_all

lemma ext_sim:
  "sound K s \<Longrightarrow> db_sim K s' s \<Longrightarrow> db_ok K s' \<Longrightarrow> validRevisions s' = validRevisions s \<Longrightarrow>
   nextRevisionID s' = nextRevisionID s \<Longrightarrow> ext K s s'"
  using sound_sim [of K s s'] by (intro extI [where m = 0 and t = s']) (simp_all add: db_sim_def)

lemma ext_trans:
  assumes "ext K s s'" "ext K s' s''"
  shows "ext K s s''"
proof -
  from assms(1) obtain m t where m: "length (entries (journal_of s')) = length (entries (journal_of s)) + m"
    "undo K m s' = (Ok (), t)" "db_sim K t s" unfolding ext_def by blast
  from assms(2) obtain n u where n: "length (entries (journal_of s'')) = length (entries (journal_of s')) + n"
    "undo K n s'' = (Ok (), u)" "db_sim K u s'" unfolding ext_def by blast
  have "sound K u"
    using sound_undo [OF ext_sound [OF assms(2)], of n] n(1,2) by auto
  from undo_sim [OF ext_sound [OF assms(1)] n(3) sound_db_ok [OF this] m(2)] m(1) obtain v
    where "undo K m u = (Ok (), v)" "db_sim K v t" by auto
  with n(2) have "undo K (n + m) s'' = (Ok (), v)" "db_sim K v s"
    using db_sim_trans [OF _ m(3)] by (simp_all add: undo_add)
  with m n assms show ?thesis
    by (intro extI [where m = "n + m" and t = v]) (simp_all add: ext_def)
qed

lemma marks_snoc: "marks (es @ [e]) a = marks es a + (if Dirtied e = Some a then 1 else 0)"
  by (simp add: marks_def)

lemma dirty_count_ok:
  "journal_ok K s \<Longrightarrow> dirty_count (dirties (journal_of s)) a = int (marks (entries (journal_of s)) a)"
  by (auto simp: journal_ok_def dirty_count_def Let_def)

lemma unmark_mark:
  assumes "journal_ok K s"
  shows "unmark_dirty e (mark_dirty e (dirties (journal_of s))) = dirties (journal_of s)"
proof (cases "Dirtied e")
  case None
  then show ?thesis by (simp add: unmark_dirty_def mark_dirty_def)
next
  case (Some a)
  let ?ds = "dirties (journal_of s)" and ?n = "marks (entries (journal_of s)) a"
  have kv: "kv_ok ?ds" and m: "map_of ?ds a = (if ?n = 0 then None else Some (int ?n))"
    using assms by (auto simp: journal_ok_def Let_def)
  have "mark_dirty e ?ds = kv_set a (int ?n + 1) ?ds"
    using Some by (simp add: mark_dirty_def dirty_count_ok [OF assms])
  with Some kv m show ?thesis
    by (auto simp: unmark_dirty_def dirty_count_def Let_def map_of_kv_set kv_set_set kv_del_set kv_set_same)
qed

lemma journal_ok_append:
  assumes "journal_ok K s" "journal_of s' = journal_of (journal_append e s)" "keeper s' = keeper s"
    and "\<And>a. kv_has (stateObjects s) a \<or> Dirtied e = Some a \<Longrightarrow> kv_has (stateObjects s') a"
    and "\<And>p. e = resetObjectChange p \<Longrightarrow> obj_wf K (keeper s) p"
  shows "journal_ok K s'"
proof -
  have "kv_ok (mark_dirty e (dirties (journal_of s)))"
    using assms(1) by (simp add: journal_ok_def mark_dirty_def kv_simps split: option.splits)
  moreover have "map_of (mark_dirty e (dirties (journal_of s))) a =
      (let n = marks (entries (journal_of s) @ [e]) a in if n = 0 then None else Some (int n))" for a
    using assms(1) dirty_count_ok [OF assms(1)]
    by (auto simp: journal_ok_def mark_dirty_def marks_snoc kv_simps Let_def split: option.splits)
  moreover have "kv_has (stateObjects s') a" if "0 < marks (entries (journal_of s) @ [e]) a" for a
    using assms(1,4) that by (auto simp: journal_ok_def marks_snoc split: if_splits)
  moreover have "\<And>p. resetObjectChange p \<in> set (entries (journal_of s)) \<Longrightarrow> obj_wf K (keeper s) p"
    using assms(1) by (simp add: journal_ok_def)
  ultimately show ?thesis
    using assms(2,3,5) by (auto simp: journal_ok_def)
qed

lemma ext_step:
  assumes s: "sound K s" and j: "journal_of s' = journal_of (journal_append e s)"
    and k: "keeper s' = keeper s" "validRevisions s' = validRevisions s" "nextRevisionID s' = nextRevisionID s"
    and ok: "objs_ok K s'" "al_ok (access s')"
    and live: "\<And>a. kv_has (stateObjects s) a \<or> Dirtied e = Some a \<Longrightarrow> kv_has (stateObjects s') a"
    and wf: "\<And>p. e = resetObjectChange p \<Longrightarrow> obj_wf K (keeper s) p"
    and t: "revert_entry K e s' = (Ok (), t)" "db_sim K (t\<lparr>journal_of := journal_of s\<rparr>) s" "objs_ok K t"
  shows "ext K s s'"
proof -
  note jok = sound_db_ok [OF s, unfolded db_ok_def, THEN conjunct2, THEN conjunct1]
  have ok': "db_ok K s'"
    using ok journal_ok_append [OF jok j k(1) live wf] by (simp add: db_ok_def)
  let ?t = "t\<lparr>journal_of := journal_of s\<rparr>"
  have es: "entries (journal_of s') = entries (journal_of s) @ [e]" using j by simp
  have "journal_of t = journal_of s'"
    using revert_entry_frame [OF t(1)] by (simp add: same_frame_def)
  then have "with_entries (entries (journal_of s)) (drop_mark e t) = ?t"
    using j unmark_mark [OF jok, of e] by (simp add: with_entries_def drop_mark_def)
  then have u: "undo1 K s' = (Ok (), ?t)" using undo1_snoc [OF es, of K] t(1) by simp
  have "db_ok K ?t" using db_ok_sim [OF t(2) sound_db_ok [OF s]] t(3) by simp
  then have "sound K ?t" by (rule sound_sim [OF s t(2)])
  with u ok' es have "sound K s'" by (intro sound1 [of K s' ?t]) simp_all
  then show ?thesis
    by (rule extI [where m = 1 and t = ?t]) (simp_all add: k es u t(2))
qed

text \<open>A journalled change of one live object, undone by a change of the same object.\<close>

lemma ext_object:
  assumes s: "sound K s" and live: "map_of (stateObjects s) a = Some obj"
    and e: "Dirtied e = Some a"
      "revert_entry K e = on_object K a g \<or> revert_entry K e = on_object_if K a g"
    and f: "obj_address (f obj) = a" "obj_wf K (keeper s) (f obj)" "obj_wf K (keeper s) (g (f obj))"
      "obj_sim K (keeper s) (g (f obj)) obj"
      "dom (map_of (originStorage obj)) \<subseteq> dom (map_of (originStorage (g (f obj))))"
  shows "ext K s (setStateObject (f obj) (journal_append e s))"
proof -
  let ?s = "setStateObject (f obj) (journal_append e s)"
  have ok: "db_ok K s" by (rule sound_db_ok [OF s])
  then have objs: "objs_ok K s" "al_ok (access s)" by (simp_all add: db_ok_def)
  have a: "obj_address obj = a" "obj_address (g (f obj)) = a"
    using live objs f(4) by (auto simp: objs_ok_def obj_sim_def)
  have "map_of (stateObjects ?s) a = Some (f obj)" by (simp add: f(1) kv_simps)
  then have "revert_entry K e ?s = (Ok (), setStateObject (g (f obj)) ?s)"
    using e(2) by (auto simp: on_object_def on_object_if_def getStateObject_def)
  moreover have "db_sim K ((setStateObject (g (f obj)) ?s)\<lparr>journal_of := journal_of s\<rparr>) s"
  proof -
    have "(setStateObject (g (f obj)) ?s)\<lparr>journal_of := journal_of s\<rparr> = setStateObject (g (f obj)) s"
      using objs a f(1) by (simp add: setStateObject_def journal_append_def kv_set_set objs_ok_def)
    moreover have "db_sim K (setStateObject (g (f obj)) s) s"
      using live f(4,5) by (intro db_sim_set [of K s _ obj]) (simp_all add: a peek_live)
    ultimately show ?thesis by simp
  qed
  moreover have jo: "objs_ok K (journal_append e s)"
    using objs by (simp add: journal_append_def)
  moreover have "objs_ok K ?s" "objs_ok K (setStateObject (g (f obj)) ?s)"
    using objs_ok_set [OF jo, of "f obj"] objs_ok_set [OF objs_ok_set [OF jo, of "f obj"], of "g (f obj)"] f
    by simp_all
  ultimately show ?thesis
    by (intro ext_step [OF s, of _ e "setStateObject (g (f obj)) ?s"])
      (use objs e f in \<open>auto simp: kv_simps setStateObject_def\<close>)
qed

end
