(* ===== verification/StateOps.thy ===== *)
theory StateOps
  imports StateJournal
begin

text \<open>
  Every operation of the state database extends its journal, and every getter answers what the
  observable part of the state says (\<open>observe\<close>), loading at most into the caches.
\<close>

section \<open>Operations on objects\<close>

lemma getStateObject_ext:
  assumes "sound K s" "getStateObject K a s = (r, s1)"
  shows "ext K s s1"
  using ext_sim [OF assms(1) getStateObject_cases(2) [OF assms(2)]]
    getStateObject_cases(3-5) [OF assms(2)] sound_db_ok [OF assms(1)] by simp

text \<open>An object that is in the live set of a sound state.\<close>

definition live :: "'k Keeper \<Rightarrow> address \<Rightarrow> stateObject \<Rightarrow> 'k StateDB \<Rightarrow> bool" where
  "live K a obj s \<longleftrightarrow> sound K s \<and> map_of (stateObjects s) a = Some obj"

lemma liveD:
  assumes "live K a obj s"
  shows "sound K s" "map_of (stateObjects s) a = Some obj" "obj_address obj = a"
    "obj_wf K (keeper s) obj" "peek K s a = Some obj"
  using assms sound_db_ok [of K s] by (auto simp: live_def db_ok_def objs_ok_def peek_def)

lemma getStateObject_live:
  assumes "sound K s" "getStateObject K a s = (Some obj, s1)"
  shows "live K a obj s1" "ext K s s1"
  using getStateObject_ext [OF assms] getStateObject_cases(8) [OF assms(2)]
  by (auto simp: live_def ext_def)

lemma ext_fresh:
  assumes s: "sound K s" and none: "peek K s a = None"
    and obj: "obj_address obj = a" "obj_wf K (keeper s) obj"
  shows "ext K s (setStateObject obj (journal_append (createObjectChange a) s))"
proof (rule ext_step [OF s, where e = "createObjectChange a" and t = "journal_append (createObjectChange a) s"])
  have ok: "objs_ok K s" "al_ok (access s)" using sound_db_ok [OF s] by (simp_all add: db_ok_def)
  have n: "map_of (stateObjects s) a = None" using none by (simp add: peek_def split: option.splits)
  have jo: "objs_ok K (journal_append (createObjectChange a) s)"
    using ok by (simp add: journal_append_def)
  then show "objs_ok K (journal_append (createObjectChange a) s)" .
  show "objs_ok K (setStateObject obj (journal_append (createObjectChange a) s))"
    using objs_ok_set [OF jo] obj by simp
  show "al_ok (access (setStateObject obj (journal_append (createObjectChange a) s)))" using ok by simp
  show "revert_entry K (createObjectChange a) (setStateObject obj (journal_append (createObjectChange a) s))
      = (Ok (), journal_append (createObjectChange a) s)"
    using n ok obj by (simp add: kv_del_set objs_ok_def setStateObject_def journal_append_def)
  show "db_sim K ((journal_append (createObjectChange a) s)\<lparr>journal_of := journal_of s\<rparr>) s"
    by (simp add: journal_append_def)
qed (use obj in \<open>auto simp: kv_simps\<close>)

lemma ext_reset:
  assumes p: "live K a p s" and obj: "obj_address obj = a" "obj_wf K (keeper s) obj"
  shows "ext K s (setStateObject obj (journal_append (resetObjectChange p) s))"
proof (rule ext_step [OF liveD(1) [OF p], where e = "resetObjectChange p"
      and t = "journal_append (resetObjectChange p) s"])
  note l = liveD [OF p]
  have ok: "objs_ok K s" "al_ok (access s)" using sound_db_ok [OF l(1)] by (simp_all add: db_ok_def)
  have jo: "objs_ok K (journal_append (resetObjectChange p) s)"
    using ok by (simp add: journal_append_def)
  then show "objs_ok K (journal_append (resetObjectChange p) s)" .
  show "objs_ok K (setStateObject obj (journal_append (resetObjectChange p) s))"
    using objs_ok_set [OF jo] obj by simp
  show "al_ok (access (setStateObject obj (journal_append (resetObjectChange p) s)))" using ok by simp
  show "revert_entry K (resetObjectChange p) (setStateObject obj (journal_append (resetObjectChange p) s))
      = (Ok (), journal_append (resetObjectChange p) s)"
    using l ok obj
    by (simp add: kv_set_set kv_set_same objs_ok_def setStateObject_def journal_append_def)
  show "db_sim K ((journal_append (resetObjectChange p) s)\<lparr>journal_of := journal_of s\<rparr>) s"
    by (simp add: journal_append_def)
qed (use obj liveD [OF p] in \<open>auto simp: kv_simps\<close>)

lemma newObject_wf [simp]:
  "obj_wf K k (newObject K a n b h)" "obj_wf K k ((newObject K a n b h)\<lparr>created := c\<rparr>)"
  "obj_address (newObject K a n b h) = a"
  by (simp_all add: newObject_def obj_wf_def)

lemma set_set:
  "objs_ok K s \<Longrightarrow> obj_address o1 = obj_address o2 \<Longrightarrow>
   setStateObject o1 (setStateObject o2 (journal_append e s)) = setStateObject o1 (journal_append e s)"
  by (simp add: setStateObject_def journal_append_def kv_set_set objs_ok_def)

lemma createObject_fresh:
  assumes s: "sound K s" and "peek K s a = None" "createObject K a s = ((obj, prev), s')"
  shows "ext K s s'" "live K a obj s'"
proof -
  obtain r s1 where g: "getStateObject K a s = (r, s1)" by fastforce
  have "r = None" "s1 = s" using getStateObject_cases(1,9) [OF g] assms(2) by auto
  with g assms(3) have o1: "obj = (newObject K a 0 None None)\<lparr>created := True\<rparr>"
    "s' = setStateObject obj (journal_append (createObjectChange a) s)"
    by (auto simp: createObject_def Let_def)
  show "ext K s s'"
    unfolding o1(2) by (rule ext_fresh [OF s assms(2)]) (simp_all add: o1(1))
  then show "live K a obj s'" by (simp add: live_def ext_def o1 kv_simps)
qed

lemma getOrNewStateObject_ext:
  assumes s: "sound K s" and "getOrNewStateObject K a s = (obj, s')"
  shows "ext K s s'" "live K a obj s'"
proof -
  obtain r s1 where g: "getStateObject K a s = (r, s1)" by fastforce
  have "ext K s s' \<and> live K a obj s'"
  proof (cases r)
    case None
    then have "s1 = s" "peek K s a = None" using getStateObject_cases(1,9) [OF g] by auto
    moreover obtain o1 prev s2 where c: "createObject K a s = ((o1, prev), s2)"
      by (metis prod.exhaust)
    ultimately show ?thesis
      using createObject_fresh [OF s _ c] assms(2) g None by (simp add: getOrNewStateObject_def)
  next
    case (Some o1)
    with getStateObject_live [OF s, of a o1 s1] g assms(2) show ?thesis
      by (simp add: getOrNewStateObject_def)
  qed
  then show "ext K s s'" "live K a obj s'" by simp_all
qed

lemma CreateAccount_ext:
  assumes s: "sound K s"
  shows "ext K s (CreateAccount K a s)"
proof -
  obtain r s1 where g: "getStateObject K a s = (r, s1)" by fastforce
  show ?thesis
  proof (cases r)
    case None
    then have n: "s1 = s" "peek K s a = None" using getStateObject_cases(1,9) [OF g] by auto
    obtain o1 prev s2 where c: "createObject K a s = ((o1, prev), s2)"
      by (metis prod.exhaust)
    from c g None have "prev = None" by (auto simp: createObject_def Let_def)
    with createObject_fresh [OF s n(2) c] c show ?thesis by (simp add: CreateAccount_def)
  next
    case (Some p)
    with g have l: "live K a p s1" "ext K s s1" using getStateObject_live [OF s] by simp_all
    let ?new = "newObject K a 0 None None"
    have "objs_ok K s1" using sound_db_ok [OF liveD(1) [OF l(1)]] by (simp add: db_ok_def)
    then have "CreateAccount K a s = setStateObject (setBalance (Balance (account p)) ?new)
        (journal_append (resetObjectChange p) s1)"
      using g Some by (simp add: CreateAccount_def createObject_def Let_def set_set)
    with ext_trans [OF l(2) ext_reset [OF l(1)]] show ?thesis by simp
  qed
qed

lemma revert_entry_object [simp]:
  "revert_entry K (balanceChange a b) = on_object K a (setBalance b)"
  "revert_entry K (nonceChange a n) = on_object K a (setNonce n)"
  "revert_entry K (storageChange a k v) = on_object K a (setState k v)"
  "revert_entry K (codeChange a c h) = on_object K a (setCode h c)"
  "revert_entry K (suicideChange a p b) = on_object_if K a (\<lambda>obj. setBalance b (obj\<lparr>suicided := p\<rparr>))"
  "revert_entry K (selfDestructChange a p b) = on_object_if K a (\<lambda>obj. setBalance b (obj\<lparr>selfDestructed := p\<rparr>))"
  by (simp_all add: fun_eq_iff)

lemma obj_SetBalance_ext:
  assumes l: "live K a obj s"
  shows "ext K s (obj_SetBalance b obj s)"
  unfolding obj_SetBalance_def
  by (rule ext_object [OF liveD(1,2) [OF l], where g = "setBalance (Balance (account obj))"])
    (use liveD [OF l] in \<open>simp_all add: obj_sim_def\<close>)

lemma obj_SetNonce_ext:
  assumes l: "live K a obj s"
  shows "ext K s (obj_SetNonce n obj s)"
  unfolding obj_SetNonce_def
  by (rule ext_object [OF liveD(1,2) [OF l], where g = "setNonce (Nonce (account obj))"])
    (use liveD [OF l] in \<open>simp_all add: obj_sim_def\<close>)

text \<open>Storing an object whose caches grew.\<close>

lemma ext_cache:
  assumes l: "live K a obj s" and "obj_wf K (keeper s) obj'" "obj_sim K (keeper s) obj' obj"
    "dom (map_of (originStorage obj)) \<subseteq> dom (map_of (originStorage obj'))"
  shows "ext K s (setStateObject obj' s)" "live K a obj' (setStateObject obj' s)"
proof -
  note d = liveD [OF l]
  have a: "obj_address obj' = a" using assms(3) d(3) by (simp add: obj_sim_def)
  have "db_sim K (setStateObject obj' s) s"
    using assms d by (intro db_sim_set [of K s _ obj]) (simp_all add: a)
  then show "ext K s (setStateObject obj' s)"
    using ext_sim [OF d(1)] db_ok_set [OF sound_db_ok [OF d(1)] assms(2)] by simp
  then show "live K a obj' (setStateObject obj' s)"
    by (simp add: live_def ext_def kv_simps a)
qed

lemma obj_Code_ext:
  assumes l: "live K a obj s" and c: "obj_Code K obj s = (c, obj', s')"
  shows "ext K s s'" "live K a obj' s'" "c = eff_code K (keeper s) obj" "c = eff_code K (keeper s) obj'"
    "code obj' = c"
proof -
  note d = liveD [OF l]
  have "ext K s s' \<and> live K a obj' s' \<and> c = eff_code K (keeper s) obj \<and>
      c = eff_code K (keeper s) obj' \<and> code obj' = c"
  proof (cases "code obj = None \<and> CodeHash (account obj) \<noteq> emptyCodeHash K")
    case True
    let ?o = "obj\<lparr>code := kGetCode K (keeper s) (CodeHash (account obj))\<rparr>"
    from True c have o1: "obj' = ?o" "s' = setStateObject ?o s" "c = kGetCode K (keeper s) (CodeHash (account obj))"
      by (auto simp: obj_Code_def Let_def)
    have e: "eff_code K (keeper s) ?o = c" "eff_code K (keeper s) obj = c"
      using True by (auto simp: eff_code_def o1(3) split: option.splits)
    with True d have "obj_wf K (keeper s) ?o" "obj_sim K (keeper s) ?o obj"
      by (auto simp: obj_wf_def obj_sim_def)
    with ext_cache [OF l, of ?o] o1 e show ?thesis by simp
  next
    case False
    with c have "obj' = obj" "s' = s" "c = code obj"
      by (auto simp: obj_Code_def Let_def split: option.splits if_splits)
    with False l ext_refl [OF d(1)] show ?thesis
      by (auto simp: eff_code_def split: option.splits)
  qed
  then show "ext K s s'" "live K a obj' s'" "c = eff_code K (keeper s) obj"
    "c = eff_code K (keeper s) obj'" "code obj' = c" by blast+
qed

lemma ext_keeper: "ext K s s' \<Longrightarrow> keeper s' = keeper s"
  unfolding ext_def db_sim_def using undo_fields by metis

lemma obj_SetCode_ext:
  assumes l: "live K a obj s"
  shows "ext K s (obj_SetCode K h c obj s)"
proof -
  obtain p obj' s' where c: "obj_Code K obj s = (p, obj', s')" by (metis prod.exhaust)
  note o1 = obj_Code_ext [OF l c] and d = liveD [OF obj_Code_ext(2) [OF l c]]
  have k: "keeper s' = keeper s" by (rule ext_keeper [OF o1(1)])
  have "eff_code K (keeper s') (setCode (CodeHash (account obj')) p (setCode h c obj'))
      = eff_code K (keeper s') obj'"
    using o1(5) by (cases p) (simp_all add: eff_code_def [of K _ obj'])
  then have "ext K s' (setStateObject (setCode h c obj')
      (journal_append (codeChange (obj_address obj') p (CodeHash (account obj'))) s'))"
    by (intro ext_object [OF d(1,2), where g = "setCode (CodeHash (account obj')) p"])
      (use d in \<open>simp_all add: obj_sim_def\<close>)
  with ext_trans [OF o1(1)] c show ?thesis by (simp add: obj_SetCode_def)
qed

lemma obj_GetCommittedState_ext:
  assumes l: "live K a obj s" and g: "obj_GetCommittedState K key obj s = (v, obj', s')"
  shows "ext K s s'" "live K a obj' s'" "v = eff_committed K (keeper s) obj key"
    "key \<in> dom (map_of (originStorage obj'))" "dirtyStorage obj' = dirtyStorage obj"
    "v = eff_committed K (keeper s) obj' key"
proof -
  note d = liveD [OF l]
  have "ext K s s' \<and> live K a obj' s' \<and> v = eff_committed K (keeper s) obj key \<and>
      key \<in> dom (map_of (originStorage obj')) \<and> dirtyStorage obj' = dirtyStorage obj \<and>
      v = eff_committed K (keeper s) obj' key"
  proof (cases "map_of (originStorage obj) key")
    case None
    let ?v = "kGetState K (keeper s) (obj_address obj) key"
    let ?o = "obj\<lparr>originStorage := kv_set key ?v (originStorage obj)\<rparr>"
    from None g have o1: "obj' = ?o" "s' = setStateObject ?o s" "v = ?v"
      by (auto simp: obj_GetCommittedState_def Let_def)
    have wf: "obj_wf K (keeper s) ?o"
      using d(4) by (auto simp: obj_wf_def kv_simps)
    have "eff_committed K (keeper s) ?o x = eff_committed K (keeper s) obj x" for x
      using eff_committed_wf [OF wf, of x] eff_committed_wf [OF d(4), of x] by simp
    then have "obj_sim K (keeper s) ?o obj"
      by (simp add: obj_sim_def eff_state_def fun_eq_iff cong: option.case_cong)
    with ext_cache [OF l wf] have "ext K s s'" "live K a obj' s'"
      by (auto simp: o1 kv_simps)
    moreover have "v = eff_committed K (keeper s) obj key" "v = eff_committed K (keeper s) ?o key"
      using eff_committed_wf [OF wf] eff_committed_wf [OF d(4)] o1(3) by simp_all
    ultimately show ?thesis by (simp add: o1 kv_simps)
  next
    case (Some w)
    with g have "obj' = obj" "s' = s" "v = w" by (auto simp: obj_GetCommittedState_def)
    with Some l ext_refl [OF d(1)] show ?thesis by (auto simp: eff_committed_def)
  qed
  then show "ext K s s'" "live K a obj' s'" "v = eff_committed K (keeper s) obj key"
    "key \<in> dom (map_of (originStorage obj'))" "dirtyStorage obj' = dirtyStorage obj"
    "v = eff_committed K (keeper s) obj' key" by blast+
qed

lemma obj_GetState_ext:
  assumes l: "live K a obj s" and g: "obj_GetState K key obj s = (v, obj', s')"
  shows "ext K s s'" "live K a obj' s'" "v = eff_state K (keeper s) obj key"
    "key \<in> dom (map_of (originStorage obj'))" "v = eff_state K (keeper s) obj' key"
proof -
  note d = liveD [OF l]
  have "ext K s s' \<and> live K a obj' s' \<and> v = eff_state K (keeper s) obj key \<and>
      key \<in> dom (map_of (originStorage obj')) \<and> v = eff_state K (keeper s) obj' key"
  proof (cases "map_of (dirtyStorage obj) key")
    case None
    with g have "obj_GetCommittedState K key obj s = (v, obj', s')" by (simp add: obj_GetState_def)
    from obj_GetCommittedState_ext [OF l this] None show ?thesis by (simp add: eff_state_def)
  next
    case (Some w)
    with g have o1: "obj' = obj" "s' = s" "v = w" by (auto simp: obj_GetState_def)
    from Some d(4) have "key \<in> dom (map_of (originStorage obj))" by (auto simp: obj_wf_def)
    with o1 Some l ext_refl [OF d(1)] show ?thesis by (simp add: eff_state_def)
  qed
  then show "ext K s s'" "live K a obj' s'" "v = eff_state K (keeper s) obj key"
    "key \<in> dom (map_of (originStorage obj'))" "v = eff_state K (keeper s) obj' key" by blast+
qed

lemma obj_SetState_ext:
  assumes l: "live K a obj s"
  shows "ext K s (obj_SetState K key v obj s)"
proof -
  obtain p obj' s' where g: "obj_GetState K key obj s = (p, obj', s')" by (metis prod.exhaust)
  note o1 = obj_GetState_ext [OF l g] and d = liveD [OF obj_GetState_ext(2) [OF l g]]
  have k: "keeper s' = keeper s" by (rule ext_keeper [OF o1(1)])
  have wf: "obj_wf K (keeper s') (setState key v obj')" "obj_wf K (keeper s') (setState key p (setState key v obj'))"
    using wf_setState [OF d(4)] o1(4) wf_setState [of K "keeper s'" "setState key v obj'" key p]
    by simp_all
  have "ext K s' (setStateObject (setState key v obj')
      (journal_append (storageChange (obj_address obj') key p) s'))"
    by (rule ext_object [OF d(1,2), where g = "setState key p"])
      (use d o1(5) k wf in \<open>simp_all add: obj_sim_def\<close>)
  with ext_trans [OF o1(1)] o1(1) g show ?thesis by (simp add: obj_SetState_def)
qed

section \<open>Every operation extends the journal\<close>

lemma with_object_ext:
  assumes "sound K s" and "\<And>obj s'. live K a obj s' \<Longrightarrow> ext K s' (f obj s')"
  shows "ext K s (case getOrNewStateObject K a s of (obj, s) \<Rightarrow> f obj s)"
proof -
  obtain obj s' where g: "getOrNewStateObject K a s = (obj, s')" by fastforce
  with getOrNewStateObject_ext [OF assms(1) g] assms(2) ext_trans show ?thesis by fastforce
qed

lemma live_refl: "live K a obj s \<Longrightarrow> ext K s s"
  by (simp add: ext_refl live_def)

lemma AddBalance_ext: "sound K s \<Longrightarrow> ext K s (AddBalance K a n s)"
  unfolding AddBalance_def
  by (rule with_object_ext) (simp_all add: obj_AddBalance_def obj_SetBalance_ext live_refl)

lemma SubBalance_ext: "sound K s \<Longrightarrow> ext K s (SubBalance K a n s)"
  unfolding SubBalance_def
  by (rule with_object_ext) (simp_all add: obj_SubBalance_def obj_SetBalance_ext live_refl)

lemma SetNonce_ext: "sound K s \<Longrightarrow> ext K s (SetNonce K a n s)"
  unfolding SetNonce_def by (rule with_object_ext) (simp_all add: obj_SetNonce_ext)

lemma SetCode_ext: "sound K s \<Longrightarrow> ext K s (SetCode K a c s)"
  unfolding SetCode_def by (rule with_object_ext) (simp_all add: obj_SetCode_ext)

lemma SetState_ext: "sound K s \<Longrightarrow> ext K s (SetState K a k v s)"
  unfolding SetState_def by (rule with_object_ext) (simp_all add: obj_SetState_ext)

lemma destroy_ext:
  assumes l: "live K a obj s"
  shows "ext K s (setStateObject (setBalance 0 (markSuicided obj))
           (journal_append (suicideChange a (suicided obj) (Balance (account obj))) s))"
    and "ext K s (setStateObject (setBalance 0 (markSelfdestructed obj))
           (journal_append (selfDestructChange a (selfDestructed obj) (Balance (account obj))) s))"
  by (rule ext_object [OF liveD(1,2) [OF l], where f = "\<lambda>obj. setBalance 0 (markSuicided obj)"
        and g = "\<lambda>x. setBalance (Balance (account obj)) (x\<lparr>suicided := suicided obj\<rparr>)"],
      (use liveD [OF l] in \<open>simp_all add: obj_sim_def markSuicided_def\<close>)[7],
      rule ext_object [OF liveD(1,2) [OF l], where f = "\<lambda>obj. setBalance 0 (markSelfdestructed obj)"
        and g = "\<lambda>x. setBalance (Balance (account obj)) (x\<lparr>selfDestructed := selfDestructed obj\<rparr>)"])
    (use liveD [OF l] in \<open>simp_all add: obj_sim_def markSelfdestructed_def\<close>)

lemma with_getState_ext:
  assumes "sound K s" and "\<And>obj s'. live K a obj s' \<Longrightarrow> ext K s' (f obj s')"
  shows "ext K s (case getStateObject K a s of (None, s') \<Rightarrow> s' | (Some obj, s') \<Rightarrow> f obj s')"
proof -
  obtain r s' where g: "getStateObject K a s = (r, s')" by fastforce
  show ?thesis
  proof (cases r)
    case None
    with g getStateObject_ext [OF assms(1) g] show ?thesis by simp
  next
    case (Some obj)
    with g getStateObject_live [OF assms(1), of a obj s'] assms(2) ext_trans show ?thesis by fastforce
  qed
qed

lemma Suicide_ext: "sound K s \<Longrightarrow> ext K s (snd (Suicide K a s))"
  using with_getState_ext [of K s a "\<lambda>obj s. setStateObject (setBalance 0 (markSuicided obj))
           (journal_append (suicideChange a (suicided obj) (Balance (account obj))) s)"]
  by (simp add: Suicide_def destroy_ext split: prod.splits option.splits)

lemma SelfDestruct_ext: "sound K s \<Longrightarrow> ext K s (SelfDestruct K a s)"
  unfolding SelfDestruct_def by (rule with_getState_ext) (simp_all add: destroy_ext)

lemma Selfdestruct6780_ext: "sound K s \<Longrightarrow> ext K s (Selfdestruct6780 K a s)"
  unfolding Selfdestruct6780_def
  by (rule with_getState_ext) (auto simp: SelfDestruct_ext live_refl dest: liveD(1))

text \<open>Changes that touch no object.\<close>

lemma ext_other:
  assumes s: "sound K s" and e: "Dirtied e = None" "\<And>p. e \<noteq> resetObjectChange p"
    and s': "journal_of s' = journal_of (journal_append e s)" "stateObjects s' = stateObjects s"
      "keeper s' = keeper s" "validRevisions s' = validRevisions s" "nextRevisionID s' = nextRevisionID s"
      "al_ok (access s')"
    and t: "revert_entry K e s' = (Ok (), t)" "db_sim K (t\<lparr>journal_of := journal_of s\<rparr>) s"
      "stateObjects t = stateObjects s"
  shows "ext K s s'"
proof -
  have ok: "objs_ok K s" using sound_db_ok [OF s] by (simp add: db_ok_def)
  moreover have "keeper t = keeper s" using t(2) by (simp add: db_sim_def)
  ultimately show ?thesis
    by (intro ext_step [OF s s'(1,3-5) _ s'(6) _ _ t(1,2)]) (use e s'(2,3) t(3) in \<open>simp_all add: objs_ok_def\<close>)
qed

lemma AddLog_ext: "sound K s \<Longrightarrow> ext K s (AddLog lg s)"
  by (rule ext_other [where e = addLogChange and t = "journal_append addLogChange s"])
    (auto simp: AddLog_def Let_def journal_append_def db_ok_def dest: sound_db_ok)

lemma refund_ext:
  assumes "sound K s"
  shows "ext K s ((journal_append (refundChange (refund s)) s)\<lparr>refund := r\<rparr>)"
  using assms sound_db_ok [OF assms]
  by (intro ext_other [where e = "refundChange (refund s)" and t = "journal_append (refundChange (refund s)) s"])
    (auto simp: journal_append_def db_ok_def)

lemma SetTransientState_ext:
  assumes "sound K s"
  shows "ext K s (SetTransientState a k v s)"
proof (cases "GetTransientState a k s = v")
  case True
  with assms show ?thesis by (simp add: SetTransientState_def ext_refl)
next
  case False
  let ?e = "transientStorageChange a k (GetTransientState a k s)"
  let ?s = "setTransientState a k v (journal_append ?e s)"
  let ?t = "setTransientState a k (GetTransientState a k s) ?s"
  have "db_sim K (?t\<lparr>journal_of := journal_of s\<rparr>) s"
    by (auto simp: db_sim_def setTransientState_def GetTransientState_def fun_eq_iff transient_Get_Set
        peek_def journal_append_def intro: option.rel_refl split: option.splits)
  then have "ext K s ?s"
    using assms sound_db_ok [OF assms]
    by (intro ext_other [where e = ?e and t = ?t]) (simp_all add: setTransientState_def db_ok_def)
  with False show ?thesis by (simp add: SetTransientState_def Let_def)
qed

lemma AddAddress_ext:
  assumes s: "sound K s"
  shows "ext K s (AddAddressToAccessList a s)"
proof -
  obtain n l where l: "AddAddress a (access s) = (n, l)" by fastforce
  have ok: "al_ok (access s)" using sound_db_ok [OF s] by (simp add: db_ok_def)
  show ?thesis
  proof (cases n)
    case True
    from al.undo_addr [OF ok] l True have u: "DeleteAddress a l = access s" by simp
    have "al_ok l" using al.add_addr_ok [OF ok l] by simp
    with u show ?thesis
      unfolding AddAddressToAccessList_def l using True s
      by (intro ext_other [where e = "accessListAddAccountChange a"
            and t = "journal_append (accessListAddAccountChange a) s"])
        (simp_all add: journal_append_def)
  next
    case False
    with l have "l = access s" by (auto simp: AddAddress_def split: if_splits)
    with False l s show ?thesis by (simp add: AddAddressToAccessList_def ext_refl)
  qed
qed

lemma slot_step_ext:
  assumes s: "sound K s" and l: "al_ok l" "DeleteSlot a h l = (Ok () :: (evm_error, unit) outcome, access s)"
  shows "ext K s (journal_append (accessListAddSlotChange a h) (s\<lparr>access := l\<rparr>))"
  using s l by (intro ext_other [where e = "accessListAddSlotChange a h"
        and t = "journal_append (accessListAddSlotChange a h) s"]) (simp_all add: journal_append_def)

lemma AddSlot_ext:
  assumes s: "sound K s"
  shows "fst (AddSlotToAccessList a h s) = Ok ()" "ext K s (snd (AddSlotToAccessList a h s))"
proof -
  have ok: "al_ok (access s)" using sound_db_ok [OF s] by (simp add: db_ok_def)
  from al.add_slot_ok [OF ok, of a h] obtain l where
    l: "AddSlot a h (access s) =
      (Ok (\<not> ContainsAddress (access s) a, \<not> has_slot (access s) a h) :: (evm_error, bool \<times> bool) outcome, l)"
    "al_ok l" by blast
  then show "fst (AddSlotToAccessList a h s) = Ok ()" by (simp add: AddSlotToAccessList_def Let_def)
  consider (known) "ContainsAddress (access s) a" "has_slot (access s) a h"
    | (slot) "ContainsAddress (access s) a" "\<not> has_slot (access s) a h"
    | (both) "\<not> ContainsAddress (access s) a" "\<not> has_slot (access s) a h"
    using al.slot_addr [OF ok] by blast
  then show "ext K s (snd (AddSlotToAccessList a h s))"
  proof cases
    case known
    with l(1) have "l = access s"
      by (auto simp: AddSlot_def has_slot_def ContainsAddress_def kv_has_def split: option.splits if_splits)
    with known l s show ?thesis by (simp add: AddSlotToAccessList_def ext_refl)
  next
    case slot
    with al.undo_slot [OF ok slot(1)] l(1) have "DeleteSlot a h l = (Ok () :: (evm_error, unit) outcome, access s)"
      by simp
    from slot_step_ext [OF s l(2) this] slot l(1) show ?thesis by (simp add: AddSlotToAccessList_def)
  next
    case both
    with l(1) have "AddSlot a h (access s) = (Ok (True, True) :: (evm_error, bool \<times> bool) outcome, l)"
      by simp
    from al.undo_both [OF ok this] obtain m where
      m: "DeleteSlot a h l = (Ok () :: (evm_error, unit) outcome, m)" "AddAddress a (access s) = (True, m)" by auto
    let ?s = "AddAddressToAccessList a s"
    have "access ?s = m" using m(2) by (simp add: AddAddressToAccessList_def)
    with m(1) have "ext K ?s (journal_append (accessListAddSlotChange a h) (?s\<lparr>access := l\<rparr>))"
      using slot_step_ext [OF ext_sound [OF AddAddress_ext [OF s]] l(2)] by simp
    from ext_trans [OF AddAddress_ext [OF s] this] both l(1) m(2) show ?thesis
      by (simp add: AddSlotToAccessList_def AddAddressToAccessList_def journal_append_def)
  qed
qed

section \<open>Queries\<close>

text \<open>What a query answers, as a function of the observable part of the state alone.\<close>

fun observe :: "'k Keeper \<Rightarrow> 'k StateDB \<Rightarrow> db_query \<Rightarrow> answer" where
  "observe K s (QExist a) = ABool (peek K s a \<noteq> None)"
| "observe K s (QEmpty a) = ABool (case peek K s a of None \<Rightarrow> True | Some obj \<Rightarrow> obj_empty K obj)"
| "observe K s (QBalance a) = AInt (case peek K s a of None \<Rightarrow> 0 | Some obj \<Rightarrow> Balance (account obj))"
| "observe K s (QNonce a) = AWord (case peek K s a of None \<Rightarrow> 0 | Some obj \<Rightarrow> Nonce (account obj))"
| "observe K s (QCode a) =
     ABytes (case peek K s a of None \<Rightarrow> None | Some obj \<Rightarrow> eff_code K (keeper s) obj)"
| "observe K s (QCodeSize a) = ANat (case peek K s a of None \<Rightarrow> 0
     | Some obj \<Rightarrow> (case eff_code K (keeper s) obj of None \<Rightarrow> 0 | Some c \<Rightarrow> length c))"
| "observe K s (QCodeHash a) = AHash (case peek K s a of None \<Rightarrow> 0 | Some obj \<Rightarrow> CodeHash (account obj))"
| "observe K s (QState a k) =
     AHash (case peek K s a of None \<Rightarrow> 0 | Some obj \<Rightarrow> eff_state K (keeper s) obj k)"
| "observe K s (QCommittedState a k) =
     AHash (case peek K s a of None \<Rightarrow> 0 | Some obj \<Rightarrow> kGetState K (keeper s) a k)"
| "observe K s (QSuicided a) = ABool (case peek K s a of None \<Rightarrow> False | Some obj \<Rightarrow> suicided obj)"
| "observe K s QRefund = AWord (refund s)"
| "observe K s QLogs = ALogs (logs s)"
| "observe K s (QAddress a) = ABool (ContainsAddress (access s) a)"
| "observe K s (QSlot a h) = APair (Contains (access s) a h)"
| "observe K s (QTransient a k) = AHash (transient_Get (transient s) a k)"

lemma rel_case_option:
  "rel_option R x y \<Longrightarrow> (\<And>a b. R a b \<Longrightarrow> f a = g b) \<Longrightarrow> case_option z f x = case_option z g y"
  by (cases x; cases y) auto

lemma observe_sim:
  assumes "db_sim K s' s"
  shows "observe K s' q = observe K s q"
proof -
  have k: "keeper s' = keeper s" "refund s' = refund s" "logs s' = logs s" "access s' = access s"
    "transient_Get (transient s') = transient_Get (transient s)"
    using assms by (simp_all add: db_sim_def)
  have p: "rel_option (obj_sim K (keeper s)) (peek K s' a) (peek K s a)" for a
    by (rule db_sim_peek [OF assms])
  then have "peek K s' a = None \<longleftrightarrow> peek K s a = None" for a
    by (cases "peek K s' a"; cases "peek K s a") (metis option.rel_distinct(1,2) option.distinct(1))+
  with k show ?thesis
    by (cases q) (auto intro!: rel_case_option [OF p] simp: obj_sim_def obj_empty_def)
qed

text \<open>Every getter answers so, and extends its state at most by what it loaded.\<close>

lemma getStateObject_get:
  assumes s: "sound K s"
  obtains s1 where "getStateObject K a s = (peek K s a, s1)" "ext K s s1" "keeper s1 = keeper s"
    "\<And>obj. peek K s a = Some obj \<Longrightarrow> live K a obj s1"
proof -
  obtain r s1 where g: "getStateObject K a s = (r, s1)" by fastforce
  then have "r = peek K s a" by (rule getStateObject_cases(1))
  with g getStateObject_ext [OF s g] getStateObject_cases(6) [OF g] getStateObject_live(1) [OF s]
  show ?thesis by (intro that [of s1]) auto
qed

lemma GetCode_spec:
  assumes s: "sound K s"
  shows "ask K (QCode a) s = (observe K s (QCode a), snd (GetCode K a s)) \<and> ext K s (snd (GetCode K a s))"
    and "ask K (QCodeSize a) s = (observe K s (QCodeSize a), snd (GetCodeSize K a s)) \<and>
      ext K s (snd (GetCodeSize K a s))"
proof -
  obtain s1 where g: "getStateObject K a s = (peek K s a, s1)" "ext K s s1" "keeper s1 = keeper s"
    "\<And>obj. peek K s a = Some obj \<Longrightarrow> live K a obj s1" by (rule getStateObject_get [OF s, where a = a]) blast
  have "ask K (QCode a) s = (observe K s (QCode a), snd (GetCode K a s)) \<and> ext K s (snd (GetCode K a s)) \<and>
    ask K (QCodeSize a) s = (observe K s (QCodeSize a), snd (GetCodeSize K a s)) \<and>
      ext K s (snd (GetCodeSize K a s))"
  proof (cases "peek K s a")
    case None
    with g show ?thesis by (simp add: GetCode_def GetCodeSize_def)
  next
    case (Some obj)
    obtain c o1 s2 where c: "obj_Code K obj s1 = (c, o1, s2)" by (metis prod.exhaust)
    from obj_Code_ext [OF g(4) [OF Some] c] ext_trans [OF g(2)] Some c g(1,3) show ?thesis
      by (simp add: GetCode_def GetCodeSize_def obj_CodeSize_def)
  qed
  then show "ask K (QCode a) s = (observe K s (QCode a), snd (GetCode K a s)) \<and> ext K s (snd (GetCode K a s))"
    "ask K (QCodeSize a) s = (observe K s (QCodeSize a), snd (GetCodeSize K a s)) \<and>
      ext K s (snd (GetCodeSize K a s))"
    by simp_all
qed

lemma GetState_spec:
  assumes s: "sound K s"
  shows "ask K (QState a k) s = (observe K s (QState a k), snd (GetState K a k s)) \<and>
      ext K s (snd (GetState K a k s))"
proof -
  obtain s1 where g: "getStateObject K a s = (peek K s a, s1)" "ext K s s1" "keeper s1 = keeper s"
    "\<And>obj. peek K s a = Some obj \<Longrightarrow> live K a obj s1" by (rule getStateObject_get [OF s, where a = a]) blast
  show ?thesis
  proof (cases "peek K s a")
    case None
    with g show ?thesis by (simp add: GetState_def)
  next
    case (Some obj)
    obtain v o1 s2 where v: "obj_GetState K k obj s1 = (v, o1, s2)" by (metis prod.exhaust)
    from obj_GetState_ext [OF g(4) [OF Some] v] ext_trans [OF g(2)] Some v g(1,3) show ?thesis
      by (simp add: GetState_def)
  qed
qed

lemma GetCommittedState_spec:
  assumes s: "sound K s"
  shows "ask K (QCommittedState a k) s = (observe K s (QCommittedState a k), snd (GetCommittedState K a k s)) \<and>
      ext K s (snd (GetCommittedState K a k s))"
proof -
  obtain s1 where g: "getStateObject K a s = (peek K s a, s1)" "ext K s s1" "keeper s1 = keeper s"
    "\<And>obj. peek K s a = Some obj \<Longrightarrow> live K a obj s1" by (rule getStateObject_get [OF s, where a = a]) blast
  show ?thesis
  proof (cases "peek K s a")
    case None
    with g show ?thesis by (simp add: GetCommittedState_def)
  next
    case (Some obj)
    obtain v o1 s2 where v: "obj_GetCommittedState K k obj s1 = (v, o1, s2)" by (metis prod.exhaust)
    note l = g(4) [OF Some]
    from obj_GetCommittedState_ext [OF l v] ext_trans [OF g(2)] Some v g(1,3)
      eff_committed_wf [OF liveD(4) [OF l], of k] liveD(3) [OF l] show ?thesis
      by (simp add: GetCommittedState_def)
  qed
qed

lemmas getter_defs = Exist_def Empty_def GetBalance_def GetNonce_def GetCodeHash_def HasSuicided_def
  AddressInAccessList_def SlotInAccessList_def GetTransientState_def

lemma ask_simple:
  assumes s: "sound K s" and q: "q \<in> {QExist a, QEmpty a, QBalance a, QNonce a, QCodeHash a, QSuicided a}"
  shows "fst (ask K q s) = observe K s q \<and> ext K s (snd (ask K q s))"
proof -
  obtain s1 where "getStateObject K a s = (peek K s a, s1)" "ext K s s1"
    by (rule getStateObject_get [OF s, where a = a]) blast
  with q show ?thesis by (auto simp: getter_defs split: option.splits)
qed

lemma ask_spec:
  assumes s: "sound K s"
  shows "fst (ask K q s) = observe K s q" "ext K s (snd (ask K q s))"
proof -
  have "fst (ask K q s) = observe K s q \<and> ext K s (snd (ask K q s))"
  proof (cases q)
    case (QCode a)
    with GetCode_spec(1) [OF s, of a] show ?thesis by simp
  next
    case (QCodeSize a)
    with GetCode_spec(2) [OF s, of a] show ?thesis by simp
  next
    case (QState a k)
    with GetState_spec [OF s, of a k] show ?thesis by simp
  next
    case (QCommittedState a k)
    with GetCommittedState_spec [OF s, of a k] show ?thesis by simp
  next
    case (QExist a)
    then show ?thesis by (intro ask_simple [OF s, where a = a]) simp
  next
    case (QEmpty a)
    then show ?thesis by (intro ask_simple [OF s, where a = a]) simp
  next
    case (QBalance a)
    then show ?thesis by (intro ask_simple [OF s, where a = a]) simp
  next
    case (QNonce a)
    then show ?thesis by (intro ask_simple [OF s, where a = a]) simp
  next
    case (QCodeHash a)
    then show ?thesis by (intro ask_simple [OF s, where a = a]) simp
  next
    case (QSuicided a)
    then show ?thesis by (intro ask_simple [OF s, where a = a]) simp
  qed (use s in \<open>simp_all add: ext_refl getter_defs(7-9)\<close>)
  then show "fst (ask K q s) = observe K s q" "ext K s (snd (ask K q s))" by simp_all
qed

end
