(* ===== verification/StateRuns.thy ===== *)
theory StateRuns
  imports StateOps
begin

text \<open>
  Runs of the state database: any run of operations stays sound, and a snapshot that is still
  valid can be reverted, without a panic, to a state that answers every query as the state at the
  snapshot did.
\<close>

section \<open>Runs\<close>

lemma foreach_ext:
  assumes "\<And>x s. sound K s \<Longrightarrow> fst (f x s) = Ok () \<and> ext K s (snd (f x s))" and "sound K s"
  shows "fst (foreach f xs s) = Ok () \<and> ext K s (snd (foreach f xs s))"
  using assms(2)
proof (induction xs arbitrary: s)
  case Nil
  then show ?case by (simp add: ext_refl)
next
  case (Cons x xs)
  obtain t where t: "f x s = (Ok (), t)" "ext K s t"
    using assms(1) [OF Cons.prems, of x] by (metis prod.collapse)
  with Cons.IH [OF ext_sound [OF t(2)]] ext_trans [OF t(2)] show ?case by simp
qed

lemma fold_ext: "sound K s \<Longrightarrow> (\<And>x s. sound K s \<Longrightarrow> ext K s (f x s)) \<Longrightarrow> ext K s (fold f xs s)"
proof (induction xs arbitrary: s)
  case (Cons x xs)
  then show ?case using ext_trans [of K s "f x s"] by (auto intro: ext_sound)
qed (simp add: ext_refl)

lemma tuple_ext:
  assumes s: "sound K s"
  shows "fst (foreach (AddSlotToAccessList b) ks (AddAddressToAccessList b s)) = Ok () \<and>
      ext K s (snd (foreach (AddSlotToAccessList b) ks (AddAddressToAccessList b s)))"
proof -
  have e: "ext K s (AddAddressToAccessList b s)" by (rule AddAddress_ext [OF s])
  have "fst (foreach (AddSlotToAccessList b) ks (AddAddressToAccessList b s)) = Ok () \<and>
      ext K (AddAddressToAccessList b s) (snd (foreach (AddSlotToAccessList b) ks (AddAddressToAccessList b s)))"
    by (rule foreach_ext [OF _ ext_sound [OF e]]) (simp add: AddSlot_ext)
  with ext_trans [OF e] show ?thesis by blast
qed

lemma PrepareAccessList_ext:
  assumes s: "sound K s"
  shows "fst (PrepareAccessList a d ps al s) = Ok () \<and> ext K s (snd (PrepareAccessList a d ps al s))"
proof -
  let ?s1 = "AddAddressToAccessList a s"
  let ?s2 = "case d of None \<Rightarrow> ?s1 | Some b \<Rightarrow> AddAddressToAccessList b ?s1"
  let ?s3 = "fold AddAddressToAccessList ps ?s2"
  have e1: "ext K s ?s1" by (rule AddAddress_ext [OF s])
  have e2: "ext K s ?s2"
    using e1 ext_trans [OF e1 AddAddress_ext [OF ext_sound [OF e1]]] by (simp split: option.splits)
  have e3: "ext K s ?s3"
    by (rule ext_trans [OF e2 fold_ext [OF ext_sound [OF e2]]]) (rule AddAddress_ext)
  have "fst (foreach (\<lambda>(b, ks) t. foreach (AddSlotToAccessList b) ks (AddAddressToAccessList b t)) al ?s3) = Ok () \<and>
      ext K ?s3 (snd (foreach (\<lambda>(b, ks) t. foreach (AddSlotToAccessList b) ks (AddAddressToAccessList b t)) al ?s3))"
    by (intro foreach_ext ext_sound [OF e3]) (auto simp: tuple_ext)
  with ext_trans [OF e3] show ?thesis
    unfolding PrepareAccessList_def Let_def by blast
qed

definition journalled :: "db_op \<Rightarrow> bool" where
  "journalled d \<longleftrightarrow> d \<noteq> DoSnapshot \<and> (\<forall>n. d \<noteq> DoRevert n)"

lemma exec_ext:
  assumes s: "sound K s" and op: "journalled d" and e: "exec K d s = (Ok (), s')"
  shows "ext K s s'"
proof (cases d)
  case (DoSubRefund g)
  with e have "s' = (journal_append (refundChange (refund s)) s)\<lparr>refund := refund s - g\<rparr>"
    by (auto simp: SubRefund_def Let_def split: if_splits)
  with refund_ext [OF s] show ?thesis by simp
next
  case (DoAddRefund g)
  with e refund_ext [OF s, of "refund s + g"] show ?thesis by (auto simp: AddRefund_def)
next
  case (DoPrepareAccessList a d ps al)
  with e PrepareAccessList_ext [OF s, of a d ps al] show ?thesis by simp
next
  case (DoAddSlot a h)
  with e AddSlot_ext [OF s, of a h] show ?thesis by simp
qed (use assms in \<open>auto simp: journalled_def ask_spec AddLog_ext CreateAccount_ext AddBalance_ext
    SubBalance_ext SetNonce_ext SetCode_ext SetState_ext Suicide_ext SelfDestruct_ext
    Selfdestruct6780_ext AddAddress_ext SetTransientState_ext\<close>)

text \<open>The binary search of \<open>sort.Search\<close> finds the first index whose element satisfies the test.\<close>

lemma search_spec:
  assumes "\<forall>i j. i \<le> j \<and> j < n \<and> f i \<longrightarrow> f j" and "i \<le> j" "j \<le> n"
  shows "i \<le> search f i j \<and> search f i j \<le> j \<and> (\<forall>m. i \<le> m \<and> m < search f i j \<longrightarrow> \<not> f m)
    \<and> (search f i j < j \<longrightarrow> f (search f i j))"
  using assms
proof (induction f i j rule: search.induct)
  case (1 f i j)
  note mono = "1.prems"(1) and jn = "1.prems"(3)
  show ?case
  proof (cases "i < j")
    case False
    then have "search f i j = i" by (simp add: search.simps)
    with False "1.prems"(2) show ?thesis by auto
  next
    case ij: True
    define h where "h = (i + j) div 2"
    have h: "i \<le> h" "h < j" "h \<le> n" using ij jn by (auto simp: h_def)
    show ?thesis
    proof (cases "f h")
      case True
      then have r: "search f i j = search f i h"
        using ij by (subst search.simps) (simp add: h_def Let_def)
      from True have "\<not> \<not> f h" by simp
      from "1.IH"(2) [OF ij h_def this mono h(1,3)] True h r show ?thesis
        by (cases "search f i h = h") auto
    next
      case False
      then have r: "search f i j = search f (h + 1) j"
        using ij by (subst search.simps) (simp add: h_def Let_def)
      have "h + 1 \<le> j" using h by simp
      note IH = "1.IH"(1) [OF ij h_def False mono this jn]
      moreover have "\<not> f m" if "m \<le> h" for m
        using mono that False h jn by (metis less_le_trans)
      ultimately show ?thesis using h unfolding r by (metis Suc_eq_plus1 le_trans not_less_eq_eq le_add1)
    qed
  qed
qed

section \<open>Revisions\<close>

definition rev_ok :: "'k StateDB \<Rightarrow> bool" where
  "rev_ok s \<longleftrightarrow>
     sorted_wrt (\<lambda>r q. rev_id r < rev_id q \<and> journalIndex r \<le> journalIndex q) (validRevisions s) \<and>
     (\<forall>r \<in> set (validRevisions s).
        rev_id r < nextRevisionID s \<and> journalIndex r \<le> length (entries (journal_of s)))"

lemma rev_ok_less: "rev_ok s \<Longrightarrow> i < j \<Longrightarrow> j < length (validRevisions s) \<Longrightarrow>
    rev_id (validRevisions s ! i) < rev_id (validRevisions s ! j) \<and>
    journalIndex (validRevisions s ! i) \<le> journalIndex (validRevisions s ! j)"
  unfolding rev_ok_def by (blast dest: sorted_wrt_nth_less)

lemma rev_ok_nth: "rev_ok s \<Longrightarrow> i < length (validRevisions s) \<Longrightarrow>
    rev_id (validRevisions s ! i) < nextRevisionID s \<and>
    journalIndex (validRevisions s ! i) \<le> length (entries (journal_of s))"
  unfolding rev_ok_def by simp

lemma rev_ok_unique:
  assumes "rev_ok s" "i < length (validRevisions s)" "j < length (validRevisions s)"
    "rev_id (validRevisions s ! i) = rev_id (validRevisions s ! j)"
  shows "i = j"
  using rev_ok_less [OF assms(1), of i j] rev_ok_less [OF assms(1), of j i] assms(2-4)
  by (cases i j rule: linorder_cases) auto

text \<open>The search of \<open>RevertToSnapshot\<close> finds a valid revision.\<close>

lemma search_revision:
  assumes ok: "rev_ok s" and i: "i < length (validRevisions s)" "rev_id (validRevisions s ! i) = n"
  shows "search (\<lambda>i. n \<le> rev_id (validRevisions s ! i)) 0 (length (validRevisions s)) = i"
proof -
  let ?f = "\<lambda>i. n \<le> rev_id (validRevisions s ! i)" and ?l = "length (validRevisions s)"
  have mono: "\<forall>i j. i \<le> j \<and> j < ?l \<and> ?f i \<longrightarrow> ?f j"
    using rev_ok_less [OF ok] by (metis le_neq_implies_less order_less_le order_trans)
  note sp = search_spec [OF mono, of 0 ?l, simplified]
  then have le: "search ?f 0 ?l \<le> i" using i(2) by (metis linorder_not_le order_refl)
  moreover have "\<not> ?f m" if "m < i" for m
    using rev_ok_less [OF ok that i(1)] i(2) by simp
  ultimately show ?thesis using sp i(1) by (metis le_neq_implies_less order_le_less_trans)
qed

lemma RevertToSnapshot_valid:
  assumes s: "sound K s" "rev_ok s" and i: "i < length (validRevisions s)" "rev_id (validRevisions s ! i) = n"
  shows "\<exists>t. undo K (length (entries (journal_of s)) - journalIndex (validRevisions s ! i)) s = (Ok (), t) \<and>
    sound K t \<and> RevertToSnapshot K n s = (Ok (), t\<lparr>validRevisions := take i (validRevisions s)\<rparr>)"
proof -
  let ?m = "journalIndex (validRevisions s ! i)"
  have m: "?m \<le> length (entries (journal_of s))" using rev_ok_nth [OF s(2) i(1)] by simp
  obtain t where t: "undo K (length (entries (journal_of s)) - ?m) s = (Ok (), t)" "sound K t"
    using sound_undo [OF s(1)] by (meson diff_le_self)
  with journal_Revert_undo [OF m] have "journal_Revert K ?m s = (Ok (), t)" by simp
  moreover have "validRevisions t = validRevisions s" using undo_fields [OF t(1)] by simp
  ultimately show ?thesis
    using t i search_revision [OF s(2) i] by (simp add: RevertToSnapshot_def Let_def)
qed

lemma RevertToSnapshot_invalid:
  assumes "rev_ok s" "\<forall>r \<in> set (validRevisions s). rev_id r \<noteq> n"
  shows "RevertToSnapshot K n s = (Panic, s)"
proof -
  let ?f = "\<lambda>i. n \<le> rev_id (validRevisions s ! i)" and ?l = "length (validRevisions s)"
  have mono: "\<forall>i j. i \<le> j \<and> j < ?l \<and> ?f i \<longrightarrow> ?f j"
    using rev_ok_less [OF assms(1)] by (metis le_neq_implies_less order_less_le order_trans)
  have "search ?f 0 ?l \<le> ?l" using search_spec [OF mono, of 0 ?l] by simp
  then have "search ?f 0 ?l = ?l \<or> rev_id (validRevisions s ! search ?f 0 ?l) \<noteq> n"
    using assms(2) by (metis le_neq_implies_less nth_mem)
  then show ?thesis by (simp add: RevertToSnapshot_def Let_def)
qed

lemma rev_ok_ext: "rev_ok s \<Longrightarrow> ext K s s' \<Longrightarrow> rev_ok s'"
  unfolding rev_ok_def ext_def by fastforce

lemma rev_ok_snapshot: "rev_ok s \<Longrightarrow> rev_ok (snd (Snapshot s))"
  unfolding rev_ok_def Snapshot_def
  by (auto simp: sorted_wrt_append journal_length_def Let_def)

lemma db_sim_revisions:
  "db_sim K (s\<lparr>validRevisions := v\<rparr>) s" "db_sim K (s\<lparr>nextRevisionID := n, validRevisions := v\<rparr>) s"
  by (auto simp: db_sim_def intro: option.rel_refl)

lemma db_ok_revisions:
  "db_ok K (s\<lparr>validRevisions := v\<rparr>) = db_ok K s"
  "db_ok K (s\<lparr>nextRevisionID := n\<rparr>) = db_ok K s"
  by (simp_all add: db_ok_def journal_ok_def)

lemma sound_revisions:
  "sound K s \<Longrightarrow> sound K (s\<lparr>validRevisions := v\<rparr>)"
  "sound K s \<Longrightarrow> sound K (s\<lparr>nextRevisionID := n, validRevisions := v\<rparr>)"
  by (rule sound_sim [OF _ db_sim_revisions(1)] sound_sim [OF _ db_sim_revisions(2)];
      simp add: db_ok_revisions sound_db_ok)+

text \<open>Every operation keeps the journal sound and the stack of revisions ordered.\<close>

lemma rev_ok_revert:
  assumes s: "sound K s" "rev_ok s" and i: "i < length (validRevisions s)"
    and t: "undo K (length (entries (journal_of s)) - journalIndex (validRevisions s ! i)) s = (Ok (), t)"
  shows "rev_ok (t\<lparr>validRevisions := take i (validRevisions s)\<rparr>)"
proof -
  note f = undo_fields [OF t]
  have m: "journalIndex (validRevisions s ! i) \<le> length (entries (journal_of s))"
    using rev_ok_nth [OF s(2) i] by simp
  have "rev_id r < nextRevisionID s \<and> journalIndex r \<le> journalIndex (validRevisions s ! i)"
    if r: "r \<in> set (take i (validRevisions s))" for r
  proof -
    obtain j where "j < i" "r = validRevisions s ! j" using r i by (auto simp: in_set_conv_nth)
    with rev_ok_less [OF s(2) _ i, of j] rev_ok_nth [OF s(2), of j] i show ?thesis by simp
  qed
  moreover have "sorted_wrt (\<lambda>r q. rev_id r < rev_id q \<and> journalIndex r \<le> journalIndex q)
      (take i (validRevisions s))"
    using s(2) by (auto simp: rev_ok_def intro: sorted_wrt_take)
  ultimately show ?thesis using f m by (simp add: rev_ok_def)
qed

lemma revert_cases:
  assumes s: "sound K s" "rev_ok s" and r: "RevertToSnapshot K n s = (Ok (), s')"
  obtains i t where "i < length (validRevisions s)" "rev_id (validRevisions s ! i) = n"
    "undo K (length (entries (journal_of s)) - journalIndex (validRevisions s ! i)) s = (Ok (), t)"
    "sound K t" "s' = t\<lparr>validRevisions := take i (validRevisions s)\<rparr>"
proof -
  have "\<not> (\<forall>r \<in> set (validRevisions s). rev_id r \<noteq> n)"
    using RevertToSnapshot_invalid [OF s(2), of n K] r by auto
  then obtain i where i: "i < length (validRevisions s)" "rev_id (validRevisions s ! i) = n"
    by (auto simp: in_set_conv_nth)
  with RevertToSnapshot_valid [OF s i] r show ?thesis by (auto intro: that)
qed

lemma exec_sound:
  assumes s: "sound K s" "rev_ok s" and e: "exec K d s = (Ok (), s')"
  shows "sound K s' \<and> rev_ok s'"
proof (cases "journalled d")
  case True
  from exec_ext [OF s(1) this e] rev_ok_ext [OF s(2)] show ?thesis by (blast intro: ext_sound)
next
  case False
  then consider "d = DoSnapshot" | n where "d = DoRevert n" by (auto simp: journalled_def)
  then show ?thesis
  proof cases
    case 1
    with e rev_ok_snapshot [OF s(2)] sound_revisions(2) [OF s(1)] show ?thesis
      by (auto simp: Snapshot_def Let_def)
  next
    case 2
    with e have "RevertToSnapshot K n s = (Ok (), s')" by simp
    from revert_cases [OF s this] rev_ok_revert [OF s] sound_revisions(1) show ?thesis by metis
  qed
qed

lemma sound_New: "sound K (New k cfg)" "rev_ok (New k cfg)"
  by (rule sound0)
    (simp_all add: New_def db_ok_def objs_ok_def journal_ok_def newJournal_def marks_def kv_has_def rev_ok_def)

lemma run_sound:
  assumes "run K ops s = (Ok (), s')" "sound K s" "rev_ok s"
  shows "sound K s' \<and> rev_ok s'"
  by (rule foreach_invariant [OF assms(1) [unfolded run_def]]) (use assms exec_sound in blast)+


section \<open>Reverting to a snapshot\<close>

text \<open>
  The state \<open>s\<close> was reached after the snapshot taken in \<open>s0\<close>: while the revision of that snapshot is
  on the stack, undoing the journal down to its index leads to a state similar to \<open>s0\<close>.
\<close>

definition snapshot_entry :: "'k StateDB \<Rightarrow> revision" where
  "snapshot_entry s = \<lparr>rev_id = nextRevisionID s, journalIndex = length (entries (journal_of s))\<rparr>"

definition undoes_to :: "'k Keeper \<Rightarrow> 'k StateDB \<Rightarrow> 'k StateDB \<Rightarrow> bool" where
  "undoes_to K s0 s \<longleftrightarrow> length (entries (journal_of s0)) \<le> length (entries (journal_of s)) \<and>
     (\<exists>t. undo K (length (entries (journal_of s)) - length (entries (journal_of s0))) s = (Ok (), t) \<and>
        db_sim K t s0)"

definition after_snapshot :: "'k Keeper \<Rightarrow> 'k StateDB \<Rightarrow> 'k StateDB \<Rightarrow> bool" where
  "after_snapshot K s0 s \<longleftrightarrow> nextRevisionID s0 < nextRevisionID s \<and>
     ((\<forall>r \<in> set (validRevisions s). rev_id r \<noteq> nextRevisionID s0) \<or>
      (\<exists>rs. validRevisions s = validRevisions s0 @ snapshot_entry s0 # rs) \<and> undoes_to K s0 s)"

lemma undoes_to_ext:
  assumes "sound K s" "undoes_to K s0 s" "ext K s s'"
  shows "undoes_to K s0 s'"
proof -
  let ?n = "length (entries (journal_of s)) - length (entries (journal_of s0))"
  from assms(2) obtain t where t: "undo K ?n s = (Ok (), t)" "db_sim K t s0"
    and le: "length (entries (journal_of s0)) \<le> length (entries (journal_of s))"
    unfolding undoes_to_def by blast
  from assms(3) obtain m u where m: "length (entries (journal_of s')) = length (entries (journal_of s)) + m"
    "undo K m s' = (Ok (), u)" "db_sim K u s" unfolding ext_def by blast
  have "sound K u" using sound_undo [OF ext_sound [OF assms(3)], of m] m by auto
  from undo_sim [OF assms(1) m(3) sound_db_ok [OF this] t(1)] obtain v where
    v: "undo K ?n u = (Ok (), v)" "db_sim K v t" by auto
  then have "undo K (m + ?n) s' = (Ok (), v)" using m(2) by (simp add: undo_add)
  moreover have "m + ?n = length (entries (journal_of s')) - length (entries (journal_of s0))"
    using m(1) le by simp
  ultimately show ?thesis
    using db_sim_trans [OF v(2) t(2)] m(1) le unfolding undoes_to_def by auto
qed

lemma undoes_to_revisions:
  assumes "sound K s" "undoes_to K s0 s"
  shows "undoes_to K s0 (s\<lparr>nextRevisionID := n, validRevisions := v\<rparr>)"
    and "undoes_to K s0 (s\<lparr>validRevisions := v\<rparr>)"
proof -
  have "undoes_to K s0 s'" if "db_sim K s' s" "db_ok K s'" for s'
    using assms(2) undo_sim [OF assms(1) that] db_sim_trans that(1)
    unfolding undoes_to_def by (metis (no_types, lifting) db_sim_def diff_le_self)
  then show "undoes_to K s0 (s\<lparr>nextRevisionID := n, validRevisions := v\<rparr>)" "undoes_to K s0 (s\<lparr>validRevisions := v\<rparr>)"
    using sound_db_ok [OF assms(1)] by (simp_all add: db_sim_revisions db_ok_revisions)
qed

lemma undoes_to_undo:
  assumes "undoes_to K s0 s" "length (entries (journal_of s0)) \<le> n" "n \<le> length (entries (journal_of s))"
    and t: "undo K (length (entries (journal_of s)) - n) s = (Ok (), t)"
  shows "undoes_to K s0 t"
proof -
  let ?l = "length (entries (journal_of s))" and ?k = "length (entries (journal_of s0))"
  have "?l - ?k = (?l - n) + (n - ?k)" using assms(2,3) by arith
  with assms(1) t obtain u where "undo K (n - ?k) t = (Ok (), u)" "db_sim K u s0"
    unfolding undoes_to_def by (auto simp: undo_add)
  moreover have "length (entries (journal_of t)) = n" using undo_fields [OF t] assms(3) by simp
  ultimately show ?thesis using assms(2) unfolding undoes_to_def by auto
qed

lemma after_snapshot_start:
  assumes "sound K s0" "rev_ok s0"
  shows "after_snapshot K s0 (snd (Snapshot s0))"
proof -
  have "undoes_to K s0 s0" unfolding undoes_to_def by simp
  from undoes_to_revisions(1) [OF assms(1) this] show ?thesis
    by (simp add: after_snapshot_def Snapshot_def Let_def snapshot_entry_def journal_length_def)
qed

lemma after_snapshot_revert:
  assumes s: "sound K s" "rev_ok s" and a: "after_snapshot K s0 s"
    and r: "RevertToSnapshot K n s = (Ok (), s')"
  shows "after_snapshot K s0 s'"
  using s r
proof (rule revert_cases)
  fix i t
  assume i: "i < length (validRevisions s)" "rev_id (validRevisions s ! i) = n"
    and t: "undo K (length (entries (journal_of s)) - journalIndex (validRevisions s ! i)) s = (Ok (), t)"
    "sound K t" and s': "s' = t\<lparr>validRevisions := take i (validRevisions s)\<rparr>"
  have nx: "nextRevisionID s0 < nextRevisionID s'" using a undo_fields [OF t(1)] s' by (simp add: after_snapshot_def)
  let ?L = "length (validRevisions s0)"
  consider (gone) "\<forall>r \<in> set (validRevisions s). rev_id r \<noteq> nextRevisionID s0"
    | (on) rs where "validRevisions s = validRevisions s0 @ snapshot_entry s0 # rs" "undoes_to K s0 s"
    using a unfolding after_snapshot_def by blast
  then show ?thesis
  proof cases
    case gone
    then show ?thesis using nx s' by (auto simp: after_snapshot_def dest: in_set_takeD)
  next
    case on
    have at: "validRevisions s ! ?L = snapshot_entry s0" "?L < length (validRevisions s)" using on(1) by simp_all
    show ?thesis
    proof (cases "i \<le> ?L")
      case True
      have "rev_id (validRevisions s ! j) \<noteq> nextRevisionID s0" if "j < i" for j
        using rev_ok_less [OF s(2), of j ?L] that True at by (simp add: snapshot_entry_def)
      then show ?thesis using nx s' i(1) by (auto simp: after_snapshot_def in_set_conv_nth)
    next
      case False
      then have "length (entries (journal_of s0)) \<le> journalIndex (validRevisions s ! i)"
        using rev_ok_less [OF s(2), of ?L i] i(1) at(1) by (simp add: snapshot_entry_def)
      from undoes_to_undo [OF on(2) this _ t(1)] rev_ok_nth [OF s(2) i(1)]
      have "undoes_to K s0 s'" using undoes_to_revisions(2) [OF t(2)] s' by simp
      moreover have "take i (validRevisions s) = validRevisions s0 @ snapshot_entry s0 # take (i - Suc ?L) rs"
        using False on(1) by (simp add: take_Cons' Suc_diff_Suc)
      ultimately show ?thesis using nx s' by (auto simp: after_snapshot_def)
    qed
  qed
qed

lemma after_snapshot_exec:
  assumes s: "sound K s" "rev_ok s" and a: "after_snapshot K s0 s" and e: "exec K d s = (Ok (), s')"
  shows "after_snapshot K s0 s'"
proof (cases "journalled d")
  case True
  from exec_ext [OF s(1) this e] have "ext K s s'" .
  moreover from this have "validRevisions s' = validRevisions s" "nextRevisionID s' = nextRevisionID s"
    by (simp_all add: ext_def)
  ultimately show ?thesis using a undoes_to_ext [OF s(1)] by (auto simp: after_snapshot_def)
next
  case False
  then consider "d = DoSnapshot" | n where "d = DoRevert n" by (auto simp: journalled_def)
  then show ?thesis
  proof cases
    case 1
    with e have s': "s' = s\<lparr>nextRevisionID := nextRevisionID s + 1,
        validRevisions := validRevisions s @ [snapshot_entry s]\<rparr>"
      by (auto simp: Snapshot_def Let_def snapshot_entry_def journal_length_def)
    show ?thesis
      using a undoes_to_revisions(1) [OF s(1)] unfolding s' after_snapshot_def
      by (auto simp: snapshot_entry_def)
  next
    case 2
    with e after_snapshot_revert [OF s a] show ?thesis by simp
  qed
qed

lemma after_snapshot_run:
  assumes "sound K s0" "rev_ok s0" "run K ops (snd (Snapshot s0)) = (Ok (), s)"
  shows "sound K s \<and> rev_ok s \<and> after_snapshot K s0 s"
proof -
  have start: "sound K (snd (Snapshot s0)) \<and> rev_ok (snd (Snapshot s0)) \<and> after_snapshot K s0 (snd (Snapshot s0))"
    using exec_sound [OF assms(1,2), of DoSnapshot] after_snapshot_start [OF assms(1,2)] by simp
  have step: "sound K u \<and> rev_ok u \<and> after_snapshot K s0 u"
    if "sound K t \<and> rev_ok t \<and> after_snapshot K s0 t" "exec K d t = (Ok (), u)" for d t u
    using exec_sound [of K t d u] after_snapshot_exec [of K t s0 d u] that by blast
  show ?thesis
    by (rule foreach_invariant [OF assms(3) [unfolded run_def], of "\<lambda>s. sound K s \<and> rev_ok s \<and> after_snapshot K s0 s"])
      (fact start, erule (1) step)
qed

lemma revert_restores:
  assumes s0: "sound K s0" "rev_ok s0" and s: "run K ops (snd (Snapshot s0)) = (Ok (), s)"
    and v: "\<exists>r \<in> set (validRevisions s). rev_id r = nextRevisionID s0"
  shows "\<exists>s'. RevertToSnapshot K (nextRevisionID s0) s = (Ok (), s') \<and> sound K s' \<and>
    observe K s' = observe K s0 \<and> journal_of s' = journal_of s0 \<and> validRevisions s' = validRevisions s0"
proof -
  from after_snapshot_run [OF s0 s] have a: "sound K s" "rev_ok s" "after_snapshot K s0 s" by simp_all
  with v obtain rs t where rs: "validRevisions s = validRevisions s0 @ snapshot_entry s0 # rs"
    and t: "undo K (length (entries (journal_of s)) - length (entries (journal_of s0))) s = (Ok (), t)"
      "db_sim K t s0"
    unfolding after_snapshot_def undoes_to_def by blast
  let ?L = "length (validRevisions s0)"
  have "?L < length (validRevisions s)" "rev_id (validRevisions s ! ?L) = nextRevisionID s0"
    "journalIndex (validRevisions s ! ?L) = length (entries (journal_of s0))"
    using rs by (simp_all add: snapshot_entry_def)
  from RevertToSnapshot_valid [OF a(1,2) this(1,2)] this(3) t(1)
  have r: "RevertToSnapshot K (nextRevisionID s0) s = (Ok (), t\<lparr>validRevisions := take ?L (validRevisions s)\<rparr>)"
    "sound K t" by auto
  let ?s = "t\<lparr>validRevisions := take ?L (validRevisions s)\<rparr>"
  have sim: "db_sim K ?s s0" by (rule db_sim_trans [OF db_sim_revisions(1) t(2)])
  have "observe K ?s = observe K s0" using observe_sim [OF sim] by (simp add: fun_eq_iff)
  then show ?thesis
    using r sound_revisions(1) [OF r(2)] sim rs by (auto simp: db_sim_def)
qed


section \<open>Which operations panic\<close>

fun panics :: "db_op \<Rightarrow> 'k StateDB \<Rightarrow> bool" where
  "panics (DoSubRefund g) s = (refund s < g)"
| "panics (DoRevert n) s = (n \<notin> rev_id ` set (validRevisions s))"
| "panics d s = False"

lemma exec_outcome:
  assumes s: "sound K s" "rev_ok s"
  shows "fst (exec K d s) = (if panics d s then Panic else Ok ())"
proof (cases d)
  case (DoSubRefund g)
  then show ?thesis by (simp add: SubRefund_def Let_def)
next
  case (DoRevert n)
  show ?thesis
  proof (cases "n \<in> rev_id ` set (validRevisions s)")
    case True
    then obtain i where "i < length (validRevisions s)" "rev_id (validRevisions s ! i) = n"
      by (auto simp: in_set_conv_nth)
    from RevertToSnapshot_valid [OF s this] DoRevert True show ?thesis by auto
  next
    case False
    then have "\<forall>r \<in> set (validRevisions s). rev_id r \<noteq> n" by auto
    from RevertToSnapshot_invalid [OF s(2) this] DoRevert False show ?thesis by simp
  qed
qed (use AddSlot_ext(1) [OF s(1)] PrepareAccessList_ext [OF s(1)] in simp_all)

end
