(* ===== verification/StateCommit.thy ===== *)
theory StateCommit
  imports StateRuns
begin

text \<open>
  What the setters write is what the getters read, and what \<open>Commit\<close> leaves in the keeper.

  The locale \<open>statedb_keeper\<close> is the contract of the \<open>Keeper\<close> interface: what the reads return
  after each of the four writes, for keeper states that satisfy an invariant and accounts that
  fit (an account that is no Ethereum account cannot hold a code hash).
\<close>

section \<open>Setters and getters\<close>

definition fresh_object :: "'k Keeper \<Rightarrow> address \<Rightarrow> stateObject" where
  "fresh_object K a = (newObject K a 0 None None)\<lparr>created := True\<rparr>"

lemma peek_append [simp]: "peek K (journal_append e s) = peek K s"
  by (simp add: journal_append_def)

lemma getOrNew_peek:
  assumes "getOrNewStateObject K a s = (obj, s')"
  shows "obj = (case peek K s a of Some o1 \<Rightarrow> o1 | None \<Rightarrow> fresh_object K a)"
    "peek K s' = (peek K s)(a := Some obj)" "keeper s' = keeper s"
proof -
  obtain r s1 where g: "getStateObject K a s = (r, s1)" by fastforce
  note r = getStateObject_cases(1) [OF g] getStateObject_cases(6) [OF g]
    getStateObject_cases(9) [OF g] getStateObject_map(2) [OF g]
  have "obj = (case peek K s a of Some o1 \<Rightarrow> o1 | None \<Rightarrow> fresh_object K a) \<and>
      peek K s' = (peek K s)(a := Some obj) \<and> keeper s' = keeper s"
  proof (cases r)
    case None
    with r(1,3) have "s1 = s" "peek K s a = None" by simp_all
    with None g assms show ?thesis
      by (auto simp: getOrNewStateObject_def createObject_def Let_def fresh_object_def fun_eq_iff
          newObject_def)
  next
    case (Some o1)
    then have "peek K s a = Some o1" "obj = o1" "s' = s1"
      using r(1) g assms by (simp_all add: getOrNewStateObject_def)
    with r show ?thesis by (simp add: fun_eq_iff)
  qed
  then show "obj = (case peek K s a of Some o1 \<Rightarrow> o1 | None \<Rightarrow> fresh_object K a)"
    "peek K s' = (peek K s)(a := Some obj)" "keeper s' = keeper s" by simp_all
qed

lemma getOrNew_address:
  assumes "sound K s" "getOrNewStateObject K a s = (obj, s')"
  shows "obj_address obj = a"
  using liveD(3) [OF getOrNewStateObject_ext(2) [OF assms]] .

text \<open>
  A write that replaces the object of one account: every getter answers from the new object for that
  account and as before for every other one.
\<close>

definition objects_only :: "'k StateDB \<Rightarrow> 'k StateDB \<Rightarrow> bool" where
  "objects_only s t \<longleftrightarrow> keeper t = keeper s \<and> refund t = refund s \<and> logs t = logs s \<and>
     access t = access s \<and> transient t = transient s"

lemma objects_only_step [simp]:
  "objects_only s s" "objects_only s (setStateObject obj t) = objects_only s t"
  "objects_only s (journal_append e t) = objects_only s t"
  by (simp_all add: objects_only_def setStateObject_def journal_append_def)

lemma objects_only_get:
  "objects_only s (snd (getStateObject K a s))" "objects_only s (snd (getOrNewStateObject K a s))"
  "objects_only s (snd (snd (obj_Code K obj s)))" "objects_only s (snd (snd (obj_GetState K key obj s)))"
  by (simp_all add: getStateObject_def getOrNewStateObject_def createObject_def obj_Code_def obj_GetState_def
      obj_GetCommittedState_def Let_def split: option.splits prod.splits)

lemma objects_only_trans: "objects_only s t \<Longrightarrow> objects_only t u \<Longrightarrow> objects_only s u"
  by (simp add: objects_only_def)

lemma observe_write:
  assumes "peek K s a = Some obj" "peek K t = (peek K s)(a \<mapsto> o1)" "objects_only s t" "suicided o1 = suicided obj"
  shows "observe K t q =
    (if q = QEmpty a then ABool (obj_empty K o1)
     else if q = QBalance a then AInt (Balance (account o1))
     else if q = QNonce a then AWord (Nonce (account o1))
     else if q = QCode a then ABytes (eff_code K (keeper s) o1)
     else if q = QCodeSize a then ANat (length (code_bytes (eff_code K (keeper s) o1)))
     else if q = QCodeHash a then AHash (CodeHash (account o1))
     else (case q of QState b j \<Rightarrow> if b = a then AHash (eff_state K (keeper s) o1 j) else observe K s q
           | _ \<Rightarrow> observe K s q))"
  using assms by (cases q) (auto simp: objects_only_def code_bytes_def split: option.splits)

lemma observe_account_write:
  assumes ex: "peek K s a = Some obj" and pk: "peek K t = (peek K s)(a \<mapsto> o1)" "objects_only s t"
    and same: "suicided o1 = suicided obj" "CodeHash (account o1) = CodeHash (account obj)"
    "eff_code K (keeper s) o1 = eff_code K (keeper s) obj" "eff_state K (keeper s) o1 = eff_state K (keeper s) obj"
  shows "observe K t q =
    (if q = QEmpty a then ABool (obj_empty K o1)
     else if q = QBalance a then AInt (Balance (account o1))
     else if q = QNonce a then AWord (Nonce (account o1)) else observe K s q)"
  unfolding observe_write [OF ex pk same(1)]
  by (cases q) (auto simp: ex same(2-4) code_bytes_def split: option.splits)

lemma setters_observe:
  assumes s: "sound K s" and ex: "peek K s a = Some obj"
  shows "observe K (AddBalance K a n s) q =
      (if q = QBalance a then AInt (Balance (account obj) + n)
       else if q = QEmpty a then ABool (obj_empty K (setBalance (Balance (account obj) + n) obj)) else observe K s q)"
    and "observe K (SubBalance K a n s) q =
      (if q = QBalance a then AInt (Balance (account obj) - n)
       else if q = QEmpty a then ABool (obj_empty K (setBalance (Balance (account obj) - n) obj)) else observe K s q)"
    and "observe K (SetNonce K a m s) q =
      (if q = QNonce a then AWord m
       else if q = QEmpty a then ABool (obj_empty K (setNonce m obj)) else observe K s q)"
proof -
  obtain o1 s' where g: "getOrNewStateObject K a s = (o1, s')" by fastforce
  note p = getOrNew_peek [OF g] and a = getOrNew_address [OF s g]
  have o1: "o1 = obj" using p(1) ex by simp
  have only: "objects_only s s'" using objects_only_get(2) [of s K a] g by simp
  have pk: "peek K s' = peek K s" using p(2) o1 ex by (simp add: fun_upd_idem)
  have same: "setBalance (Balance (account obj)) obj = obj" by (simp add: setBalance_def)
  have add: "peek K (AddBalance K a n s) = (peek K s)(a \<mapsto> setBalance (Balance (account obj) + n) obj)"
    "objects_only s (AddBalance K a n s)"
    using g o1 a only pk same ex
    by (auto simp: AddBalance_def obj_AddBalance_def obj_SetBalance_def fun_eq_iff obj_setters)
  have sub: "peek K (SubBalance K a n s) = (peek K s)(a \<mapsto> setBalance (Balance (account obj) - n) obj)"
    "objects_only s (SubBalance K a n s)"
    using g o1 a only pk same ex
    by (auto simp: SubBalance_def obj_SubBalance_def obj_SetBalance_def fun_eq_iff obj_setters)
  have nonce: "peek K (SetNonce K a m s) = (peek K s)(a \<mapsto> setNonce m obj)" "objects_only s (SetNonce K a m s)"
    using g o1 a only pk by (auto simp: SetNonce_def obj_SetNonce_def fun_eq_iff obj_setters)
  have acc: "Balance (account (setBalance x obj)) = x" "Nonce (account (setBalance x obj)) = Nonce (account obj)"
    "Balance (account (setNonce y obj)) = Balance (account obj)" "Nonce (account (setNonce y obj)) = y"
    "suicided (setBalance x obj) = suicided obj" "suicided (setNonce y obj) = suicided obj"
    "CodeHash (account (setBalance x obj)) = CodeHash (account obj)" "CodeHash (account (setNonce y obj)) = CodeHash (account obj)"
    for x y by (simp_all add: obj_setters)
  have st: "eff_state K (keeper s) (setBalance x obj) = eff_state K (keeper s) obj"
    "eff_state K (keeper s) (setNonce y obj) = eff_state K (keeper s) obj" for x y
    by (rule eff_state_same; simp add: obj_setters)+
  note w = observe_account_write [OF ex add acc(5,7) eff_code_setters(1) st(1)]
    observe_account_write [OF ex sub acc(5,7) eff_code_setters(1) st(1)]
    observe_account_write [OF ex nonce acc(6,8) eff_code_setters(2) st(2)]
  have nb: "observe K s (QNonce a) = AWord (Nonce (account obj))" "observe K s (QBalance a) = AInt (Balance (account obj))"
    using ex by simp_all
  show "observe K (AddBalance K a n s) q =
      (if q = QBalance a then AInt (Balance (account obj) + n)
       else if q = QEmpty a then ABool (obj_empty K (setBalance (Balance (account obj) + n) obj)) else observe K s q)"
    unfolding w(1)
    by (auto simp: acc nb simp del: observe.simps)
  show "observe K (SubBalance K a n s) q =
      (if q = QBalance a then AInt (Balance (account obj) - n)
       else if q = QEmpty a then ABool (obj_empty K (setBalance (Balance (account obj) - n) obj)) else observe K s q)"
    unfolding w(2)
    by (auto simp: acc nb simp del: observe.simps)
  show "observe K (SetNonce K a m s) q =
      (if q = QNonce a then AWord m
       else if q = QEmpty a then ABool (obj_empty K (setNonce m obj)) else observe K s q)"
    unfolding w(3)
    by (auto simp: acc nb simp del: observe.simps)
qed

lemma SetCode_observe:
  assumes s: "sound K s" and ex: "peek K s a = Some obj"
  shows "observe K (SetCode K a c s) q =
    (if q = QCode a then ABytes c
     else if q = QCodeSize a then ANat (length (code_bytes c))
     else if q = QCodeHash a then AHash (Keccak K (code_bytes c))
     else if q = QEmpty a then ABool (obj_empty K (setCode (Keccak K (code_bytes c)) c obj)) else observe K s q)"
proof -
  obtain o1 s' where g: "getOrNewStateObject K a s = (o1, s')" by fastforce
  note p = getOrNew_peek [OF g] and l = getOrNewStateObject_ext(2) [OF s g]
  have o1: "o1 = obj" using p(1) ex by simp
  obtain pc o2 s2 where c: "obj_Code K o1 s' = (pc, o2, s2)" by (metis prod.exhaust)
  have st: "(s2 = s' \<or> s2 = setStateObject o2 s') \<and> account o2 = account obj \<and> suicided o2 = suicided obj \<and>
      obj_address o2 = obj_address obj \<and> originStorage o2 = originStorage obj \<and> dirtyStorage o2 = dirtyStorage obj"
    using c o1 by (auto simp: obj_Code_def Let_def split: option.splits if_splits)
  have a: "obj_address obj = a" using getOrNew_address [OF s g] o1 by simp
  let ?h = "Keccak K (code_bytes c)"
  let ?o = "setCode ?h c o2"
  have pk: "peek K (SetCode K a c s) = (peek K s)(a \<mapsto> ?o)"
    using g c st a p(2) o1 ex by (auto simp: SetCode_def obj_SetCode_def fun_eq_iff obj_setters)
  have only: "objects_only s (SetCode K a c s)"
    using objects_only_trans [OF objects_only_get(2) [of s K a] ] objects_only_get(3) [of s' K o1] g c
    by (simp add: SetCode_def obj_SetCode_def)
  have o: "suicided ?o = suicided obj" "CodeHash (account ?o) = ?h" "Balance (account ?o) = Balance (account obj)"
    "Nonce (account ?o) = Nonce (account obj)" "obj_empty K ?o = obj_empty K (setCode ?h c obj)"
    using st by (simp_all add: obj_setters obj_empty_def)
  have cd: "eff_code K (keeper s) ?o = c"
    by (cases c) (simp_all add: emptyCodeHash_def code_bytes_def)
  have stt: "eff_state K (keeper s) ?o = eff_state K (keeper s) obj"
    by (rule eff_state_same) (use st in \<open>simp_all add: obj_setters\<close>)
  show ?thesis unfolding observe_write [OF ex pk only o(1)] o(2-5) cd stt
    by (cases q) (auto simp: ex)
qed

lemma SetState_observe:
  assumes s: "sound K s" and ex: "peek K s a = Some obj"
  shows "observe K (SetState K a key v s) q = (if q = QState a key then AHash v else observe K s q)"
proof -
  obtain o1 s' where g: "getOrNewStateObject K a s = (o1, s')" by fastforce
  note p = getOrNew_peek [OF g] and l = getOrNewStateObject_ext(2) [OF s g]
  have o1: "o1 = obj" using p(1) ex by simp
  obtain pv o2 s2 where c: "obj_GetState K key o1 s' = (pv, o2, s2)" by (metis prod.exhaust)
  note e = obj_GetState_ext [OF l c]
  have a: "obj_address obj = a" "obj_address o2 = a" using getOrNew_address [OF s g] o1 liveD(3) [OF e(2)] by simp_all
  have st: "(s2 = s' \<and> o2 = obj \<or> s2 = setStateObject o2 s' \<and> dirtyStorage o2 = dirtyStorage obj) \<and>
      account o2 = account obj \<and> suicided o2 = suicided obj \<and> code o2 = code obj"
    using c o1 by (auto simp: obj_GetState_def obj_GetCommittedState_def Let_def split: option.splits)
  have k: "keeper s2 = keeper s'" "keeper s' = keeper s" using ext_keeper [OF e(1)] p(3) by simp_all
  have ef: "eff_state K (keeper s) o2 = eff_state K (keeper s) obj"
    using st eff_committed_wf [OF liveD(4) [OF e(2)]] eff_committed_wf [OF liveD(4) [OF l]] k a o1
    by (auto simp: eff_state_def fun_eq_iff split: option.splits)
  let ?o = "if pv = v then o2 else setState key v o2"
  have pk: "peek K (SetState K a key v s) = (peek K s)(a \<mapsto> ?o)"
    using g c st a p(2) o1 ex by (auto simp: SetState_def obj_SetState_def fun_eq_iff obj_setters)
  have only: "objects_only s (SetState K a key v s)"
    using objects_only_trans [OF objects_only_get(2) [of s K a]] objects_only_get(4) [of s' K key o1] g c
    by (simp add: SetState_def obj_SetState_def)
  have o: "suicided ?o = suicided obj" "account ?o = account obj" "obj_empty K ?o = obj_empty K obj"
    using st by (simp_all add: obj_setters obj_empty_def)
  have cd: "eff_code K (keeper s) ?o = eff_code K (keeper s) obj"
    by (rule eff_code_same) (use st in \<open>simp_all add: obj_setters\<close>)
  have pv: "pv = eff_state K (keeper s) obj key" using e(3) k(2) o1 by simp
  have stt: "eff_state K (keeper s) ?o = (eff_state K (keeper s) obj)(key := v)"
    using ef pv eff_state_setState by (auto simp: fun_eq_iff)
  show ?thesis unfolding observe_write [OF ex pk only o(1)]
    by (cases q) (auto simp: ex o cd stt code_bytes_def split: option.splits)
qed


section \<open>The contract of the keeper\<close>

text \<open>
  The keeper holds what the state database shows of an account.  Deleting an account that the keeper
  does not hold leaves its storage as it is.
\<close>

definition commits :: "'k Keeper \<Rightarrow> 'k StateDB \<Rightarrow> address \<Rightarrow> 'k \<Rightarrow> bool" where
  "commits K s a k \<longleftrightarrow> (case map_of (stateObjects s) a of
      None \<Rightarrow> False
    | Some obj \<Rightarrow>
        if suicided obj \<or> selfDestructed obj
        then kGetAccount K k a = None \<and> kGetState K k a =
          (if kGetAccount K (keeper s) a = None then kGetState K (keeper s) a else (\<lambda>_. 0))
        else kGetAccount K k a = Some (account obj) \<and>
          kGetState K k a = eff_state K (keeper s) obj)"

text \<open>The code an account has to write, and what the writes of some accounts leave in the store of codes.\<close>

definition code_written :: "'k StateDB \<Rightarrow> address \<Rightarrow> hash \<Rightarrow> bytes \<Rightarrow> bool" where
  "code_written s a h c \<longleftrightarrow> (case map_of (stateObjects s) a of
      None \<Rightarrow> False
    | Some obj \<Rightarrow> \<not> suicided obj \<and> \<not> selfDestructed obj \<and> dirtyCode obj \<and> code obj = Some c \<and>
        CodeHash (account obj) = h)"

definition stored_code :: "bytes \<Rightarrow> bytes option" where
  "stored_code c = (if c = [] then None else Some c)"

definition codes_after :: "'k Keeper \<Rightarrow> 'k StateDB \<Rightarrow> address set \<Rightarrow> 'k \<Rightarrow> 'k \<Rightarrow> bool" where
  "codes_after K s A k k' \<longleftrightarrow> (\<forall>h.
     (\<exists>a \<in> A. \<exists>c. code_written s a h c \<and> kGetCode K k' h = stored_code c) \<or>
     (\<forall>a \<in> A. \<forall>c. \<not> code_written s a h c) \<and> kGetCode K k' h = kGetCode K k h)"

lemma codes_after_step:
  assumes "codes_after K s {a} k k1" "codes_after K s A k1 k'"
  shows "codes_after K s (insert a A) k k'"
  unfolding codes_after_def
proof
  fix h
  show "(\<exists>a \<in> insert a A. \<exists>c. code_written s a h c \<and> kGetCode K k' h = stored_code c) \<or>
     (\<forall>a \<in> insert a A. \<forall>c. \<not> code_written s a h c) \<and> kGetCode K k' h = kGetCode K k h"
    using assms [unfolded codes_after_def, THEN spec, of h] by auto
qed

locale statedb_keeper =
  fixes K :: "'k Keeper"
    and kok :: "'k \<Rightarrow> bool"
    and fits :: "'k \<Rightarrow> address \<Rightarrow> Account \<Rightarrow> bool"
  assumes set_account: "kok k \<Longrightarrow> fits k a acct \<Longrightarrow> kSetAccount K a acct k = (Ok (), k') \<Longrightarrow>
      kok k' \<and> kGetAccount K k' = (kGetAccount K k)(a \<mapsto> acct) \<and> kGetState K k' = kGetState K k \<and>
      kGetCode K k' = kGetCode K k \<and> fits k' = fits k"
    and set_state: "kok k \<Longrightarrow> kok (kSetState K a key (hash_bytes v) k) \<and>
      kGetAccount K (kSetState K a key (hash_bytes v) k) = kGetAccount K k \<and>
      kGetState K (kSetState K a key (hash_bytes v) k) = (kGetState K k)(a := (kGetState K k a)(key := v)) \<and>
      kGetCode K (kSetState K a key (hash_bytes v) k) = kGetCode K k \<and>
      fits (kSetState K a key (hash_bytes v) k) = fits k"
    and set_code: "kok k \<Longrightarrow> kok (kSetCode K h c k) \<and>
      kGetAccount K (kSetCode K h c k) = kGetAccount K k \<and>
      kGetState K (kSetCode K h c k) = kGetState K k \<and>
      kGetCode K (kSetCode K h c k) = (kGetCode K k)(h := stored_code c) \<and> fits (kSetCode K h c k) = fits k"
    and delete_account: "kok k \<Longrightarrow> kDeleteAccount K a k = (Ok (), k') \<Longrightarrow>
      kok k' \<and> kGetAccount K k' = (kGetAccount K k)(a := None) \<and> kGetCode K k' = kGetCode K k \<and>
      kGetState K k' = (kGetState K k)(a := if kGetAccount K k a = None then kGetState K k a else (\<lambda>_. 0)) \<and>
      (\<forall>b c. b \<noteq> a \<longrightarrow> fits k' b c = fits k b c)"
begin

text \<open>Writing the dirty slots of an object leaves its effective storage in the keeper.\<close>

lemma commit_slots:
  assumes "kok k" "obj_address obj = a"
    and "\<And>key. key \<in> set keys \<Longrightarrow> storage_read (originStorage obj) key = kGetState K k a key"
    and "distinct keys"
  shows "kok (fold (commit_slot K obj) keys k) \<and>
    kGetAccount K (fold (commit_slot K obj) keys k) = kGetAccount K k \<and>
    kGetCode K (fold (commit_slot K obj) keys k) = kGetCode K k \<and>
    fits (fold (commit_slot K obj) keys k) = fits k \<and>
    kGetState K (fold (commit_slot K obj) keys k) = (kGetState K k)(a :=
      (\<lambda>key. if key \<in> set keys then storage_read (dirtyStorage obj) key else kGetState K k a key))"
  using assms
proof (induction keys arbitrary: k)
  case (Cons x keys)
  let ?v = "storage_read (dirtyStorage obj) x" and ?k = "commit_slot K obj x k"
  have k: "kok ?k" "kGetAccount K ?k = kGetAccount K k" "fits ?k = fits k" "kGetCode K ?k = kGetCode K k"
    "kGetState K ?k = (kGetState K k)(a := (kGetState K k a)(x := ?v))"
    using set_state [OF Cons.prems(1), of a x ?v] Cons.prems(1-3) by (auto simp: commit_slot_def Let_def)
  have "storage_read (originStorage obj) key = kGetState K ?k a key" if "key \<in> set keys" for key
    using Cons.prems(3,4) that by (auto simp: k(5))
  from Cons.IH [OF k(1) Cons.prems(2) this] Cons.prems(4) show ?case
    by (auto simp: k fun_eq_iff)
qed simp

text \<open>Committing one object changes the keeper at its address and at its code hash only.\<close>

lemma commit_live:
  assumes s: "objs_ok K s" "kok k" "kGetState K k a = kGetState K (keeper s) a"
    and fit: "fits k a (account obj)" and obj: "map_of (stateObjects s) a = Some obj"
    and live: "\<not> suicided obj" "\<not> selfDestructed obj"
    and c: "commit_object K a (s\<lparr>keeper := k\<rparr>) = (Ok (), s')"
  shows "\<exists>k'. s' = s\<lparr>keeper := k'\<rparr> \<and> kok k' \<and> kGetAccount K k' = (kGetAccount K k)(a \<mapsto> account obj) \<and>
    fits k' = fits k \<and> kGetState K k' = (kGetState K k)(a := eff_state K (keeper s) obj) \<and>
    codes_after K s {a} k k'"
proof -
  have a: "obj_address obj = a" "obj_wf K (keeper s) obj" using s(1) obj by (auto simp: objs_ok_def)
  define k1 where "k1 = commit_code K obj k"
  have k1: "kok k1" "kGetAccount K k1 = kGetAccount K k" "kGetState K k1 = kGetState K k" "fits k1 = fits k"
    "codes_after K s {a} k k1"
    using set_code [OF s(2)] s(2) obj live
    by (auto simp: k1_def commit_code_def codes_after_def code_written_def split: option.splits)
  from c obj a live obtain k2 where k2: "kSetAccount K a (account obj) k1 = (Ok (), k2)"
    "s' = s\<lparr>keeper := fold (commit_slot K obj) (SortedKeys (dirtyStorage obj)) k2\<rparr>"
    by (auto simp: commit_object_def k1_def Let_def outcome_simps split: prod.splits)
  note e2 = set_account [OF k1(1) _ k2(1), unfolded k1(4), OF fit]
  let ?keys = "SortedKeys (dirtyStorage obj)"
  have keys: "set ?keys = dom (map_of (dirtyStorage obj))" "distinct ?keys"
    using a(2) kv.iter_distinct [of "dirtyStorage obj"]
    by (auto simp: SortedKeys_def dom_map_of_conv_image_fst obj_wf_def)
  have "storage_read (originStorage obj) key = kGetState K k2 a key" if "key \<in> set ?keys" for key
  proof -
    have "map_of (originStorage obj) key = Some (kGetState K k a key)"
      using that keys(1) a s(3) by (auto simp: obj_wf_def)
    then show ?thesis using e2 k1(3) by (simp add: storage_read_def)
  qed
  from commit_slots [OF _ a(1) this keys(2)] e2
  have e3: "kok (keeper s')" "kGetAccount K (keeper s') = (kGetAccount K k)(a \<mapsto> account obj)"
    "fits (keeper s') = fits k" "kGetCode K (keeper s') = kGetCode K k1"
    "kGetState K (keeper s') = (kGetState K k)(a := (\<lambda>key. if key \<in> set ?keys
       then storage_read (dirtyStorage obj) key else kGetState K k a key))"
    by (simp_all add: k2(2) k1 cong: if_cong)
  have "kGetState K (keeper s') = (kGetState K k)(a := eff_state K (keeper s) obj)"
    using e3(5) keys(1) s(3) eff_committed_wf [OF a(2)] a(1)
    by (auto simp: fun_eq_iff eff_state_def storage_read_def split: option.splits)
  moreover have "codes_after K s {a} k (keeper s')" using k1(5) e3(4) by (simp add: codes_after_def)
  ultimately show ?thesis using e3(1-3) k2(2) by auto
qed

lemma commit_object_effect:
  assumes s: "objs_ok K s" "kok k" "kGetState K k a = kGetState K (keeper s) a"
    "kGetAccount K k a = kGetAccount K (keeper s) a"
    and fit: "\<And>obj. map_of (stateObjects s) a = Some obj \<Longrightarrow> fits k a (account obj)"
    and c: "commit_object K a (s\<lparr>keeper := k\<rparr>) = (Ok (), s')"
  shows "\<exists>k'. s' = s\<lparr>keeper := k'\<rparr> \<and> kok k' \<and> commits K s a k' \<and> codes_after K s {a} k k' \<and>
    (\<forall>b. b \<noteq> a \<longrightarrow> kGetAccount K k' b = kGetAccount K k b \<and> kGetState K k' b = kGetState K k b \<and> fits k' b = fits k b)"
proof -
  from c obtain obj where obj: "map_of (stateObjects s) a = Some obj"
    by (auto simp: commit_object_def split: option.splits)
  then have a: "obj_address obj = a" using s(1) by (auto simp: objs_ok_def)
  show ?thesis
  proof (cases "suicided obj \<or> selfDestructed obj")
    case True
    with c obj a obtain k' where k': "kDeleteAccount K a k = (Ok (), k')" "s' = s\<lparr>keeper := k'\<rparr>"
      by (auto simp: commit_object_def map_err_eq_Ok split: prod.splits)
    note d = delete_account [OF s(2) k'(1)]
    have "codes_after K s {a} k k'" using True obj d by (auto simp: codes_after_def code_written_def)
    with d k'(2) True obj s(3,4) show ?thesis
      by (intro exI [of _ k']) (auto simp: commits_def fun_eq_iff)
  next
    case False
    then obtain k' where "s' = s\<lparr>keeper := k'\<rparr>" "kok k'" "kGetAccount K k' = (kGetAccount K k)(a \<mapsto> account obj)"
      "fits k' = fits k" "kGetState K k' = (kGetState K k)(a := eff_state K (keeper s) obj)" "codes_after K s {a} k k'"
      using commit_live [OF s(1-3) fit [OF obj] obj _ _ c] by blast
    with False obj show ?thesis by (intro exI [of _ k']) (auto simp: commits_def)
  qed
qed

lemma commit_all:
  assumes s: "objs_ok K s" "kok k" "distinct as"
    and st: "\<And>a. a \<in> set as \<Longrightarrow> kGetState K k a = kGetState K (keeper s) a \<and> kGetAccount K k a = kGetAccount K (keeper s) a"
    and fit: "\<And>a obj. a \<in> set as \<Longrightarrow> map_of (stateObjects s) a = Some obj \<Longrightarrow> fits k a (account obj)"
    and c: "foreach (commit_object K) as (s\<lparr>keeper := k\<rparr>) = (Ok (), s')"
  shows "\<exists>k'. s' = s\<lparr>keeper := k'\<rparr> \<and> (\<forall>a \<in> set as. commits K s a k') \<and> codes_after K s (set as) k k' \<and>
    (\<forall>b. b \<notin> set as \<longrightarrow> kGetAccount K k' b = kGetAccount K k b \<and> kGetState K k' b = kGetState K k b)"
  using s(2,3) st fit c
proof (induction as arbitrary: k)
  case Nil
  then show ?case by (auto simp: codes_after_def)
next
  case (Cons a as)
  from Cons.prems(5) obtain s1 where s1: "commit_object K a (s\<lparr>keeper := k\<rparr>) = (Ok (), s1)"
    "foreach (commit_object K) as s1 = (Ok (), s')" by (auto simp: outcome_simps)
  have a: "kGetState K k a = kGetState K (keeper s) a" "kGetAccount K k a = kGetAccount K (keeper s) a"
    using Cons.prems(3) [of a] by auto
  from commit_object_effect [OF s(1) Cons.prems(1) a Cons.prems(4) s1(1)]
  obtain k1 where k1: "s1 = s\<lparr>keeper := k1\<rparr>" "kok k1" "commits K s a k1" "codes_after K s {a} k k1"
    "\<And>b. b \<noteq> a \<Longrightarrow> kGetAccount K k1 b = kGetAccount K k b \<and> kGetState K k1 b = kGetState K k b \<and> fits k1 b = fits k b"
    by auto
  have na: "b \<noteq> a" if "b \<in> set as" for b using Cons.prems(2) that by auto
  from Cons.IH [OF k1(2)] obtain k' where k': "s' = s\<lparr>keeper := k'\<rparr>" "\<forall>a \<in> set as. commits K s a k'"
    "codes_after K s (set as) k1 k'"
    "\<And>b. b \<notin> set as \<Longrightarrow> kGetAccount K k' b = kGetAccount K k1 b \<and> kGetState K k' b = kGetState K k1 b"
    using Cons.prems(2-4) s1(2) k1(1,5) na by auto
  have "commits K s a k'"
    using k1(3) k'(4) [of a] Cons.prems(2) by (auto simp: commits_def split: option.splits)
  moreover have "codes_after K s (set (a # as)) k k'" using codes_after_step [OF k1(4) k'(3)] by simp
  ultimately show ?case using k'(1,2,4) k1(5) by auto
qed

lemma Commit_effect:
  assumes "sound K s" "kok (keeper s)"
    and "\<And>a obj. map_of (stateObjects s) a = Some obj \<Longrightarrow> fits (keeper s) a (account obj)"
    and "Commit K s = (Ok (), s')"
  shows "\<exists>k'. s' = s\<lparr>keeper := k'\<rparr> \<and> (\<forall>a \<in> dom (map_of (dirties (journal_of s))). commits K s a k') \<and>
    codes_after K s (dom (map_of (dirties (journal_of s)))) (keeper s) k' \<and>
    (\<forall>b. b \<notin> dom (map_of (dirties (journal_of s))) \<longrightarrow>
       kGetAccount K k' b = kGetAccount K (keeper s) b \<and> kGetState K k' b = kGetState K (keeper s) b)"
proof -
  have ok: "objs_ok K s" "kv_ok (dirties (journal_of s))"
    using sound_db_ok [OF assms(1)] by (simp_all add: db_ok_def journal_ok_def)
  let ?as = "sortedDirties (journal_of s)"
  have as: "set ?as = dom (map_of (dirties (journal_of s)))" "distinct ?as"
    using kv.iter_distinct [OF ok(2)] by (simp_all add: sortedDirties_def dom_map_of_conv_image_fst)
  have c: "foreach (commit_object K) ?as (s\<lparr>keeper := keeper s\<rparr>) = (Ok (), s')"
    using assms(4) by (simp add: Commit_def)
  show ?thesis
    using commit_all [OF ok(1) assms(2) as(2) _ _ c] assms(3) unfolding as(1) by blast
qed

end

section \<open>Codes and their hashes\<close>

text \<open>
  The codes around a state agree with their hashes: objects with the same code hash show the same
  code, the hash of empty code stands for no code, and a code the keeper stores under the hash of an
  object is the code of the object.  This holds as long as no two of these codes collide under the
  hash function.
\<close>

definition codes_agree :: "'k Keeper \<Rightarrow> 'k StateDB \<Rightarrow> bool" where
  "codes_agree K s \<longleftrightarrow> list_all (\<lambda>(_, o1).
     (let h = CodeHash (account o1); c = code_bytes (eff_code K (keeper s) o1) in
      (h = emptyCodeHash K \<longrightarrow> c = []) \<and>
      (case kGetCode K (keeper s) h of None \<Rightarrow> True | Some c0 \<Rightarrow> c0 = c) \<and>
      list_all (\<lambda>(_, o2). CodeHash (account o2) = h \<longrightarrow> code_bytes (eff_code K (keeper s) o2) = c) (stateObjects s)))
     (stateObjects s)"

lemma codes_agreeD:
  assumes "codes_agree K s" "map_of (stateObjects s) a = Some o1"
  shows "CodeHash (account o1) = emptyCodeHash K \<Longrightarrow> code_bytes (eff_code K (keeper s) o1) = []"
    "kGetCode K (keeper s) (CodeHash (account o1)) = Some c \<Longrightarrow> c = code_bytes (eff_code K (keeper s) o1)"
    "map_of (stateObjects s) b = Some o2 \<Longrightarrow> CodeHash (account o2) = CodeHash (account o1) \<Longrightarrow>
       code_bytes (eff_code K (keeper s) o2) = code_bytes (eff_code K (keeper s) o1)"
  using assms map_of_SomeD [OF assms(2)] map_of_SomeD [of "stateObjects s" b o2]
  by (fastforce simp: codes_agree_def Let_def list_all_iff)+

lemma stored_code_bytes [simp]: "code_bytes (stored_code c) = c"
  by (simp add: stored_code_def code_bytes_def)

lemma code_writtenD:
  assumes "code_written s a h c"
  obtains obj where "map_of (stateObjects s) a = Some obj" "CodeHash (account obj) = h" "eff_code K k obj = Some c"
  using assms by (auto simp: code_written_def eff_code_def split: option.splits)

text \<open>What a fresh state database over the new keeper shows: old codes are kept, and an object's code is its own.\<close>

lemma codes_after_kept:
  assumes "codes_after K s A (keeper s) k'" "codes_agree K s" "kGetCode K (keeper s) h = Some c"
  shows "code_bytes (kGetCode K k' h) = c"
proof (cases "kGetCode K k' h = kGetCode K (keeper s) h")
  case True
  with assms(3) show ?thesis by (simp add: code_bytes_def)
next
  case False
  then obtain a c1 where w: "code_written s a h c1" "kGetCode K k' h = stored_code c1"
    using assms(1) [unfolded codes_after_def, THEN spec, of h] by auto
  obtain obj where "map_of (stateObjects s) a = Some obj" "CodeHash (account obj) = h" "eff_code K (keeper s) obj = Some c1"
    by (rule code_writtenD [OF w(1)])
  with codes_agreeD(2) [OF assms(2), of a obj c] assms(3) w(2) show ?thesis by (simp add: code_bytes_def [of "Some _"])
qed

lemma codes_after_own:
  assumes "codes_after K s A (keeper s) k'" "codes_agree K s" "a \<in> A" "objs_ok K s"
    and obj: "map_of (stateObjects s) a = Some obj" "\<not> suicided obj" "\<not> selfDestructed obj"
  shows "code_bytes (if CodeHash (account obj) = emptyCodeHash K then None else kGetCode K k' (CodeHash (account obj)))
    = code_bytes (eff_code K (keeper s) obj)"
proof (cases "CodeHash (account obj) = emptyCodeHash K")
  case True
  with codes_agreeD(1) [OF assms(2) obj(1)] show ?thesis by (simp add: code_bytes_def)
next
  case ne: False
  let ?h = "CodeHash (account obj)"
  consider b c where "code_written s b ?h c" "kGetCode K k' ?h = stored_code c"
    | "\<forall>c. \<not> code_written s a ?h c" "kGetCode K k' ?h = kGetCode K (keeper s) ?h"
    using assms(1,3) [unfolded codes_after_def] by blast
  then show ?thesis
  proof cases
    case 1
    obtain o2 where "map_of (stateObjects s) b = Some o2" "CodeHash (account o2) = ?h" "eff_code K (keeper s) o2 = Some c"
      by (rule code_writtenD [OF 1(1)])
    with codes_agreeD(3) [OF assms(2) obj(1), of b o2] 1(2) ne show ?thesis by (simp add: code_bytes_def [of "Some _"])
  next
    case 2
    have wf: "obj_wf K (keeper s) obj" using assms(4) obj(1) by (auto simp: objs_ok_def)
    have "eff_code K (keeper s) obj = kGetCode K (keeper s) ?h"
    proof (cases "code obj")
      case (Some c)
      then have "\<not> dirtyCode obj" using 2(1) obj by (auto simp: code_written_def)
      with wf Some show ?thesis by (auto simp: obj_wf_def eff_code_def)
    qed (simp add: eff_code_def ne)
    with 2(2) ne show ?thesis by simp
  qed
qed

text \<open>Every dirty account has a live object, so that \<open>Commit\<close> dereferences no nil object.\<close>

lemma dirty_live:
  assumes "sound K s" "a \<in> set (sortedDirties (journal_of s))"
  shows "kv_has (stateObjects s) a"
proof -
  have j: "journal_ok K s" using sound_db_ok [OF assms(1)] by (simp add: db_ok_def)
  moreover have "map_of (dirties (journal_of s)) a \<noteq> None"
    using assms(2) by (simp add: sortedDirties_def map_of_eq_None_iff)
  ultimately show ?thesis unfolding journal_ok_def Let_def by (metis gr0I)
qed

end
