(* ===== verification/EvmKeeper.thy ===== *)
theory EvmKeeper
  imports StateCommit
begin

text \<open>
  The EVM keeper behind the state database (\<open>x/evm/keeper/statedb.go\<close> and the account, storage and
  gas functions of \<open>x/evm/keeper/keeper.go\<close>).  The auth and bank modules of the SDK are
  parameters: a record of functions over an abstract state, with what the keeper relies on in
  \<open>evm_laws\<close>.  An account of the auth module is its sequence number and, when it implements
  \<open>EthAccountI\<close> (\<open>types/account.go\<close>), its code hash.

  The theory ends with the interpretation of \<open>statedb_keeper\<close> on these definitions.
\<close>

record evm_account =
  acc_Sequence :: "64 word"
  acc_CodeHash :: "hash option"

record 'x evm_env =
  aGetAccount :: "'x \<Rightarrow> address \<Rightarrow> evm_account option"
  aNewAccount :: "address \<Rightarrow> 'x \<Rightarrow> evm_account \<times> 'x"
  aSetAccount :: "address \<Rightarrow> evm_account \<Rightarrow> 'x \<Rightarrow> 'x"
  aRemoveAccount :: "address \<Rightarrow> 'x \<Rightarrow> 'x"
  bBalance :: "'x \<Rightarrow> address \<Rightarrow> string \<Rightarrow> int"
  bMint :: "string \<Rightarrow> int \<Rightarrow> 'x \<Rightarrow> string + 'x"
  bBurn :: "string \<Rightarrow> int \<Rightarrow> 'x \<Rightarrow> string + 'x"
  bToAccount :: "address \<Rightarrow> string \<Rightarrow> int \<Rightarrow> 'x \<Rightarrow> string + 'x"
  bToModule :: "address \<Rightarrow> string \<Rightarrow> int \<Rightarrow> 'x \<Rightarrow> string + 'x"
  eModule :: address
  eValidDenom :: "string \<Rightarrow> bool"
  eKeccak :: "bytes \<Rightarrow> hash"

record 'x evm_keeper =
  modules :: 'x
  EvmDenom :: string
  storage :: "((address \<times> hash) \<times> bytes) list"
  codes :: "(hash \<times> bytes) list"
  transientGasUsed :: "64 word option"
  transientTxIndex :: "64 word option"
  transientLogSize :: "64 word option"

definition EmptyCodeHash :: "'x evm_env \<Rightarrow> hash" where
  "EmptyCodeHash E = eKeccak E []"


section \<open>Reads\<close>

definition evm_GetBalance :: "'x evm_env \<Rightarrow> 'x evm_keeper \<Rightarrow> address \<Rightarrow> int" where
  "evm_GetBalance E k a =
     (if EvmDenom k = [] then -1 else bBalance E (modules k) a (EvmDenom k))"

definition GetAccountWithoutBalance ::
  "'x evm_env \<Rightarrow> 'x evm_keeper \<Rightarrow> address \<Rightarrow> (64 word \<times> hash) option" where
  "GetAccountWithoutBalance E k a = (case aGetAccount E (modules k) a of
      None \<Rightarrow> None
    | Some acct \<Rightarrow>
        Some (acc_Sequence acct,
              case acc_CodeHash acct of None \<Rightarrow> EmptyCodeHash E | Some h \<Rightarrow> h))"

definition evm_GetAccount :: "'x evm_env \<Rightarrow> 'x evm_keeper \<Rightarrow> address \<Rightarrow> Account option" where
  "evm_GetAccount E k a = (case GetAccountWithoutBalance E k a of
      None \<Rightarrow> None
    | Some (n, h) \<Rightarrow> Some \<lparr>Nonce = n, Balance = evm_GetBalance E k a, CodeHash = h\<rparr>)"

definition GetAccountOrEmpty :: "'x evm_env \<Rightarrow> 'x evm_keeper \<Rightarrow> address \<Rightarrow> Account" where
  "GetAccountOrEmpty E k a = (case evm_GetAccount E k a of
      Some acct \<Rightarrow> acct
    | None \<Rightarrow> \<lparr>Nonce = 0, Balance = 0, CodeHash = EmptyCodeHash E\<rparr>)"

definition evm_GetNonce :: "'x evm_env \<Rightarrow> 'x evm_keeper \<Rightarrow> address \<Rightarrow> 64 word" where
  "evm_GetNonce E k a = (case aGetAccount E (modules k) a of
      None \<Rightarrow> 0 | Some acct \<Rightarrow> acc_Sequence acct)"

definition evm_GetState :: "'x evm_keeper \<Rightarrow> address \<Rightarrow> hash \<Rightarrow> hash" where
  "evm_GetState k a key = (case map_of (storage k) (a, key) of
      None \<Rightarrow> 0
    | Some v \<Rightarrow> if v = [] then 0 else BytesToHash v)"

definition evm_GetCode :: "'x evm_keeper \<Rightarrow> hash \<Rightarrow> bytes option" where
  "evm_GetCode k h = map_of (codes k) h"

text \<open>The keys and values an iteration over the storage prefix of an address visits, in order.\<close>

definition evm_ForEachStorage :: "'x evm_keeper \<Rightarrow> address \<Rightarrow> (hash \<times> hash) list" where
  "evm_ForEachStorage k a =
     map (\<lambda>((b, key), v). (key, BytesToHash v)) (filter (\<lambda>((b, key), v). b = a) (storage k))"

definition GetAccountStorage :: "'x evm_keeper \<Rightarrow> address \<Rightarrow> (hash \<times> hash) list" where
  "GetAccountStorage k a =
     visit (\<lambda>key v st. (True, st @ [(key, v)])) (evm_ForEachStorage k a) []"


section \<open>Writes\<close>

text \<open>\<open>sdk.NewCoin\<close> panics on a malformed denomination; the amounts passed here are positive.\<close>

definition bank_step ::
  "('x \<Rightarrow> string + 'x) \<Rightarrow> 'x evm_keeper \<Rightarrow> (evm_error, unit) outcome \<times> 'x evm_keeper" where
  "bank_step f k = (case f (modules k) of
      Inl e \<Rightarrow> (Err (BankError e), k)
    | Inr x \<Rightarrow> (Ok (), k\<lparr>modules := x\<rparr>))"

definition evm_SetBalance ::
  "'x evm_env \<Rightarrow> address \<Rightarrow> int \<Rightarrow> 'x evm_keeper \<Rightarrow> (evm_error, unit) outcome \<times> 'x evm_keeper" where
  "evm_SetBalance E a amount k =
     (let delta = amount - bBalance E (modules k) a (EvmDenom k) in
      if 0 < delta then
        (if \<not> eValidDenom E (EvmDenom k) then (Panic, k)
         else andthen (bank_step (bMint E (EvmDenom k) delta) k) (\<lambda>_ k.
                bank_step (bToAccount E a (EvmDenom k) delta) k))
      else if delta < 0 then
        (if \<not> eValidDenom E (EvmDenom k) then (Panic, k)
         else andthen (bank_step (bToModule E a (EvmDenom k) (- delta)) k) (\<lambda>_ k.
                bank_step (bBurn E (EvmDenom k) (- delta)) k))
      else (Ok (), k))"

definition evm_SetAccount ::
  "'x evm_env \<Rightarrow> address \<Rightarrow> Account \<Rightarrow> 'x evm_keeper \<Rightarrow> (evm_error, unit) outcome \<times> 'x evm_keeper" where
  "evm_SetAccount E a acct k =
     (let (acc, x) = (case aGetAccount E (modules k) a of
             None \<Rightarrow> aNewAccount E a (modules k)
           | Some acc \<Rightarrow> (acc, modules k));
          acc = acc\<lparr>acc_Sequence := Nonce acct\<rparr>;
          acc = (case acc_CodeHash acc of
             None \<Rightarrow> acc
           | Some _ \<Rightarrow> acc\<lparr>acc_CodeHash := Some (CodeHash acct)\<rparr>)
      in evm_SetBalance E a (Balance acct) (k\<lparr>modules := aSetAccount E a acc x\<rparr>))"

definition evm_SetState :: "address \<Rightarrow> hash \<Rightarrow> bytes \<Rightarrow> 'x evm_keeper \<Rightarrow> 'x evm_keeper" where
  "evm_SetState a key v k =
     (if v = [] then k\<lparr>storage := kv_del (a, key) (storage k)\<rparr>
      else k\<lparr>storage := kv_set (a, key) v (storage k)\<rparr>)"

definition evm_SetCode :: "hash \<Rightarrow> bytes \<Rightarrow> 'x evm_keeper \<Rightarrow> 'x evm_keeper" where
  "evm_SetCode h c k =
     (if c = [] then k\<lparr>codes := kv_del h (codes k)\<rparr>
      else k\<lparr>codes := kv_set h c (codes k)\<rparr>)"

definition clear_storage :: "address \<Rightarrow> 'x evm_keeper \<Rightarrow> 'x evm_keeper" where
  "clear_storage a k =
     visit (\<lambda>key _ k. (True, evm_SetState a key [] k)) (evm_ForEachStorage k a) k"

definition evm_DeleteAccount ::
  "'x evm_env \<Rightarrow> address \<Rightarrow> 'x evm_keeper \<Rightarrow> (evm_error, unit) outcome \<times> 'x evm_keeper" where
  "evm_DeleteAccount E a k = (case aGetAccount E (modules k) a of
      None \<Rightarrow> (Ok (), k)
    | Some acct \<Rightarrow>
        if acc_CodeHash acct = None then (Err (ErrInvalidAccount a), k)
        else andthen (evm_SetBalance E a 0 k) (\<lambda>_ k.
               (let k = clear_storage a k in
                (Ok (), k\<lparr>modules := aRemoveAccount E a (modules k)\<rparr>))))"

definition evm_Keeper :: "'x evm_env \<Rightarrow> 'x evm_keeper Keeper" where
  "evm_Keeper E =
     \<lparr>kGetAccount = evm_GetAccount E, kGetState = evm_GetState, kGetCode = evm_GetCode,
      kForEachStorage = evm_ForEachStorage, kSetAccount = evm_SetAccount E,
      kSetState = evm_SetState, kSetCode = evm_SetCode, kDeleteAccount = evm_DeleteAccount E,
      Keccak = eKeccak E\<rparr>"


lemma evm_Keeper_fields [simp]:
  "kGetAccount (evm_Keeper E) = evm_GetAccount E" "kGetState (evm_Keeper E) = evm_GetState"
  "kSetAccount (evm_Keeper E) = evm_SetAccount E" "kSetState (evm_Keeper E) = evm_SetState"
  "kGetCode (evm_Keeper E) = evm_GetCode" "kSetCode (evm_Keeper E) = evm_SetCode" "kDeleteAccount (evm_Keeper E) = evm_DeleteAccount E"
  by (simp_all add: evm_Keeper_def)


section \<open>Gas, transaction and log counters\<close>

definition GetTransientGasUsed :: "'x evm_keeper \<Rightarrow> 64 word" where
  "GetTransientGasUsed k = (case transientGasUsed k of None \<Rightarrow> 0 | Some g \<Rightarrow> g)"

definition SetTransientGasUsed :: "64 word \<Rightarrow> 'x evm_keeper \<Rightarrow> 'x evm_keeper" where
  "SetTransientGasUsed g k = k\<lparr>transientGasUsed := Some g\<rparr>"

definition ResetTransientGasUsed :: "'x evm_keeper \<Rightarrow> 'x evm_keeper" where
  "ResetTransientGasUsed k = k\<lparr>transientGasUsed := None\<rparr>"

definition AddTransientGasUsed :: "64 word \<Rightarrow> 'x evm_keeper \<Rightarrow> 64 word option \<times> 'x evm_keeper" where
  "AddTransientGasUsed g k =
     (let result = GetTransientGasUsed k + g in
      if result < g then (None, k) else (Some result, SetTransientGasUsed result k))"

definition GetTxIndexTransient :: "'x evm_keeper \<Rightarrow> 64 word" where
  "GetTxIndexTransient k = (case transientTxIndex k of None \<Rightarrow> 0 | Some n \<Rightarrow> n)"

definition SetTxIndexTransient :: "64 word \<Rightarrow> 'x evm_keeper \<Rightarrow> 'x evm_keeper" where
  "SetTxIndexTransient n k = k\<lparr>transientTxIndex := Some n\<rparr>"

definition GetLogSizeTransient :: "'x evm_keeper \<Rightarrow> 64 word" where
  "GetLogSizeTransient k = (case transientLogSize k of None \<Rightarrow> 0 | Some n \<Rightarrow> n)"

definition SetLogSizeTransient :: "64 word \<Rightarrow> 'x evm_keeper \<Rightarrow> 'x evm_keeper" where
  "SetLogSizeTransient n k = k\<lparr>transientLogSize := Some n\<rparr>"

lemma AddTransientGasUsed_spec:
  "AddTransientGasUsed g k =
     (if unat (GetTransientGasUsed k) + unat g < 2 ^ 64
      then (Some (GetTransientGasUsed k + g), k\<lparr>transientGasUsed := Some (GetTransientGasUsed k + g)\<rparr>)
      else (None, k))"
proof -
  let ?u = "GetTransientGasUsed k"
  have "?u + g < g \<longleftrightarrow> \<not> unat ?u + unat g < 2 ^ 64"
    using unsigned_less [of ?u, where ?'a = nat] unsigned_less [of g, where ?'a = nat]
    by (auto simp: word_less_nat_alt unat_word_ariths le_mod_geq)
  then show ?thesis by (simp add: AddTransientGasUsed_def SetTransientGasUsed_def Let_def)
qed


section \<open>What the keeper relies on\<close>

text \<open>
  The auth module returns the account last set, and new accounts are Ethereum accounts
  (\<open>ProtoAccount\<close>).  The bank module moves, mints and burns exactly the amount, on success; it
  leaves the accounts alone, given that the accounts involved exist (it would create a missing
  recipient or module account).
\<close>

definition bank_effect ::
  "'x evm_env \<Rightarrow> 'x \<Rightarrow> 'x \<Rightarrow> string \<Rightarrow> (address \<Rightarrow> int) \<Rightarrow> bool" where
  "bank_effect E x x' d change \<longleftrightarrow>
     (\<forall>b e. bBalance E x' b e = bBalance E x b e + (if e = d then change b else 0)) \<and>
     aGetAccount E x' = aGetAccount E x"

definition evm_laws :: "'x evm_env \<Rightarrow> bool" where
  "evm_laws E \<longleftrightarrow>
     (\<forall>a acc x. aGetAccount E (aSetAccount E a acc x) = (aGetAccount E x)(a \<mapsto> acc) \<and>
        bBalance E (aSetAccount E a acc x) = bBalance E x) \<and>
     (\<forall>a x. aGetAccount E (aRemoveAccount E a x) = (aGetAccount E x)(a := None) \<and>
        bBalance E (aRemoveAccount E a x) = bBalance E x) \<and>
     (\<forall>a x acc x'. aNewAccount E a x = (acc, x') \<longrightarrow>
        aGetAccount E x' = aGetAccount E x \<and> bBalance E x' = bBalance E x \<and> acc_CodeHash acc \<noteq> None) \<and>
     (\<forall>d n x x'. aGetAccount E x (eModule E) \<noteq> None \<and> bMint E d n x = Inr x' \<longrightarrow>
        bank_effect E x x' d (\<lambda>b. if b = eModule E then n else 0)) \<and>
     (\<forall>d n x x'. aGetAccount E x (eModule E) \<noteq> None \<and> bBurn E d n x = Inr x' \<longrightarrow>
        bank_effect E x x' d (\<lambda>b. if b = eModule E then - n else 0)) \<and>
     (\<forall>a d n x x'. aGetAccount E x (eModule E) \<noteq> None \<and> aGetAccount E x a \<noteq> None \<and>
        bToAccount E a d n x = Inr x' \<longrightarrow>
        bank_effect E x x' d (\<lambda>b. (if b = a then n else 0) - (if b = eModule E then n else 0))) \<and>
     (\<forall>a d n x x'. aGetAccount E x (eModule E) \<noteq> None \<and> aGetAccount E x a \<noteq> None \<and>
        bToModule E a d n x = Inr x' \<longrightarrow>
        bank_effect E x x' d (\<lambda>b. (if b = eModule E then n else 0) - (if b = a then n else 0)))"

lemma evm_lawsD:
  assumes "evm_laws E"
  shows "aGetAccount E (aSetAccount E a acc x) = (aGetAccount E x)(a \<mapsto> acc)"
    "bBalance E (aSetAccount E a acc x) = bBalance E x"
    "aGetAccount E (aRemoveAccount E a x) = (aGetAccount E x)(a := None)"
    "bBalance E (aRemoveAccount E a x) = bBalance E x"
    "aNewAccount E a x = (acc, x') \<Longrightarrow>
       aGetAccount E x' = aGetAccount E x \<and> bBalance E x' = bBalance E x \<and> acc_CodeHash acc \<noteq> None"
    "aGetAccount E x (eModule E) \<noteq> None \<Longrightarrow> bMint E d n x = Inr x' \<Longrightarrow>
       bank_effect E x x' d (\<lambda>b. if b = eModule E then n else 0)"
    "aGetAccount E x (eModule E) \<noteq> None \<Longrightarrow> bBurn E d n x = Inr x' \<Longrightarrow>
       bank_effect E x x' d (\<lambda>b. if b = eModule E then - n else 0)"
    "aGetAccount E x (eModule E) \<noteq> None \<Longrightarrow> aGetAccount E x a \<noteq> None \<Longrightarrow> bToAccount E a d n x = Inr x' \<Longrightarrow>
       bank_effect E x x' d (\<lambda>b. (if b = a then n else 0) - (if b = eModule E then n else 0))"
    "aGetAccount E x (eModule E) \<noteq> None \<Longrightarrow> aGetAccount E x a \<noteq> None \<Longrightarrow> bToModule E a d n x = Inr x' \<Longrightarrow>
       bank_effect E x x' d (\<lambda>b. (if b = eModule E then n else 0) - (if b = a then n else 0))"
  using assms unfolding evm_laws_def by fastforce+

text \<open>A keeper whose parameters name a denomination and whose module account exists.\<close>

definition evm_ok :: "'x evm_env \<Rightarrow> 'x evm_keeper \<Rightarrow> bool" where
  "evm_ok E k \<longleftrightarrow> EvmDenom k \<noteq> [] \<and> kv_ok (storage k) \<and>
     (\<exists>acc. aGetAccount E (modules k) (eModule E) = Some acc \<and> acc_CodeHash acc = None)"

definition evm_fits :: "'x evm_env \<Rightarrow> 'x evm_keeper \<Rightarrow> address \<Rightarrow> Account \<Rightarrow> bool" where
  "evm_fits E k a acct \<longleftrightarrow> (case aGetAccount E (modules k) a of
      None \<Rightarrow> True
    | Some acc \<Rightarrow> acc_CodeHash acc \<noteq> None \<or> CodeHash acct = EmptyCodeHash E)"

text \<open>\<open>SetBalance\<close> sets the balance of its address to the amount and no other.\<close>

lemma SetBalance_effect:
  assumes E: "evm_laws E" and m: "aGetAccount E (modules k) (eModule E) \<noteq> None"
    and a: "aGetAccount E (modules k) a \<noteq> None" and s: "evm_SetBalance E a amount k = (Ok (), k')"
  shows "\<exists>x. k' = k\<lparr>modules := x\<rparr> \<and> aGetAccount E x = aGetAccount E (modules k) \<and>
    (\<forall>b d. bBalance E x b d = (if b = a \<and> d = EvmDenom k then amount else bBalance E (modules k) b d))"
proof -
  let ?d = "amount - bBalance E (modules k) a (EvmDenom k)" and ?m = "modules k"
  consider (mint) "0 < ?d" | (burn) "?d < 0" | (same) "?d = 0" by linarith
  then show ?thesis
  proof cases
    case mint
    with s obtain x1 x2 where x: "bMint E (EvmDenom k) ?d ?m = Inr x1"
      "bToAccount E a (EvmDenom k) ?d x1 = Inr x2" "k' = k\<lparr>modules := x2\<rparr>"
      by (auto simp: evm_SetBalance_def bank_step_def Let_def outcome_simps split: if_splits sum.splits)
    note e1 = evm_lawsD(6) [OF E m x(1)]
    from evm_lawsD(8) [OF E _ _ x(2)] e1 m a
    have "bank_effect E x1 x2 (EvmDenom k) (\<lambda>b. (if b = a then ?d else 0) - (if b = eModule E then ?d else 0))"
      by (simp add: bank_effect_def)
    with e1 x(3) show ?thesis by (auto simp: bank_effect_def)
  next
    case burn
    with s obtain x1 x2 where x: "bToModule E a (EvmDenom k) (- ?d) ?m = Inr x1"
      "bBurn E (EvmDenom k) (- ?d) x1 = Inr x2" "k' = k\<lparr>modules := x2\<rparr>"
      by (auto simp: evm_SetBalance_def bank_step_def Let_def outcome_simps split: if_splits sum.splits)
    note e1 = evm_lawsD(9) [OF E m a x(1)]
    from evm_lawsD(7) [OF E _ x(2)] e1 m
    have "bank_effect E x1 x2 (EvmDenom k) (\<lambda>b. if b = eModule E then - (- ?d) else 0)"
      by (simp add: bank_effect_def)
    with e1 x(3) show ?thesis by (auto simp: bank_effect_def)
  next
    case same
    with s have "k' = k" by (auto simp: evm_SetBalance_def Let_def)
    with same show ?thesis by (intro exI [of _ ?m]) auto
  qed
qed

lemma SetAccount_effect:
  assumes E: "evm_laws E" and k: "evm_ok E k" "evm_fits E k a acct"
    and s: "evm_SetAccount E a acct k = (Ok (), k')"
  shows "evm_ok E k' \<and> evm_GetAccount E k' = (evm_GetAccount E k)(a \<mapsto> acct) \<and>
    evm_GetState k' = evm_GetState k \<and> evm_GetCode k' = evm_GetCode k \<and> evm_fits E k' = evm_fits E k"
proof -
  obtain acc x where acc: "(case aGetAccount E (modules k) a of None \<Rightarrow> aNewAccount E a (modules k)
      | Some acc \<Rightarrow> (acc, modules k)) = (acc, x)" by fastforce
  have x: "aGetAccount E x = aGetAccount E (modules k)" "bBalance E x = bBalance E (modules k)"
    "aGetAccount E (modules k) a = None \<Longrightarrow> acc_CodeHash acc \<noteq> None"
    "\<And>c. aGetAccount E (modules k) a = Some c \<Longrightarrow> acc = c"
    using acc evm_lawsD(5) [OF E, of a "modules k" acc x] by (auto split: option.splits)
  define acc' where "acc' = (case acc_CodeHash acc of None \<Rightarrow> acc\<lparr>acc_Sequence := Nonce acct\<rparr>
     | Some _ \<Rightarrow> acc\<lparr>acc_Sequence := Nonce acct, acc_CodeHash := Some (CodeHash acct)\<rparr>)"
  let ?x = "aSetAccount E a acc' x"
  note set = evm_lawsD(1,2) [OF E, of a acc' x]
  have sb: "evm_SetBalance E a (Balance acct) (k\<lparr>modules := ?x\<rparr>) = (Ok (), k')"
    using s acc by (cases "acc_CodeHash acc") (simp_all add: evm_SetAccount_def Let_def acc'_def)
  have "aGetAccount E (modules (k\<lparr>modules := ?x\<rparr>)) (eModule E) \<noteq> None"
    "aGetAccount E (modules (k\<lparr>modules := ?x\<rparr>)) a \<noteq> None"
    using k(1) set x(1) by (auto simp: evm_ok_def)
  from SetBalance_effect [OF E this sb]
  obtain y where y: "k' = k\<lparr>modules := y\<rparr>" "aGetAccount E y = (aGetAccount E (modules k))(a \<mapsto> acc')"
    "\<And>b d. bBalance E y b d = (if b = a \<and> d = EvmDenom k then Balance acct else bBalance E (modules k) b d)"
    using set x(1,2) by (auto cong: if_cong)
  have code: "(case acc_CodeHash acc' of None \<Rightarrow> EmptyCodeHash E | Some h \<Rightarrow> h) = CodeHash acct"
    "acc_CodeHash acc' = None \<longleftrightarrow> acc_CodeHash acc = None" "acc_Sequence acc' = Nonce acct"
    using k(2) x(3,4) by (auto simp: acc'_def evm_fits_def split: option.splits)
  have "evm_GetAccount E k' b = ((evm_GetAccount E k)(a \<mapsto> acct)) b" for b
    using k(1) code(1,3)
    by (simp add: evm_GetAccount_def GetAccountWithoutBalance_def evm_GetBalance_def y evm_ok_def
        cong: option.case_cong)
  moreover have "evm_ok E k'" using k(1) code(2) x(4) by (auto simp: evm_ok_def y)
  moreover have "evm_GetState k' = evm_GetState k" "evm_GetCode k' = evm_GetCode k"
    by (simp_all add: evm_GetState_def evm_GetCode_def y(1) fun_eq_iff)
  moreover have "evm_fits E k' b c = evm_fits E k b c" for b c
    using code(2) x(3,4) by (auto simp: evm_fits_def y split: option.splits)
  ultimately show ?thesis by (simp add: fun_eq_iff)
qed

lemma SetState_effect:
  assumes "kv_ok (storage k)"
  shows "evm_GetState (evm_SetState a key (hash_bytes v) k) =
    (evm_GetState k)(a := (evm_GetState k a)(key := v))"
proof -
  have "hash_bytes v \<noteq> []" by (metis length_hash_bytes list.size(3) zero_neq_numeral)
  then show ?thesis
    by (auto simp: evm_SetState_def evm_GetState_def fun_eq_iff kv_simps)
qed

text \<open>Deleting each visited key empties the storage of the address and no other.\<close>

lemma clear_visit:
  "visit (\<lambda>key v k. (True, evm_SetState a key [] k)) kvs k =
     k\<lparr>storage := fold (\<lambda>(key, v). kv_del (a, key)) kvs (storage k)\<rparr>"
  by (induction kvs arbitrary: k) (auto simp: evm_SetState_def)

lemma fold_del:
  "map_of (fold (\<lambda>(key, v). kv_del (a, key)) kvs st) =
     (\<lambda>p. if p \<in> (\<lambda>(key, v). (a, key)) ` set kvs then None else map_of st p)"
  by (induction kvs arbitrary: st) (auto simp: kv_simps fun_eq_iff)

lemma clear_storage_effect:
  "clear_storage a k = k\<lparr>storage := storage (clear_storage a k)\<rparr>"
  "kv_ok (storage k) \<Longrightarrow> kv_ok (storage (clear_storage a k))"
  "map_of (storage (clear_storage a k)) (b, key) = (if b = a then None else map_of (storage k) (b, key))"
proof -
  have ok: "kv_ok (fold (\<lambda>(key, v). kv_del (a, key)) kvs st)" if "kv_ok st"
    for kvs :: "(hash \<times> hash) list" and st :: "((address \<times> hash) \<times> bytes) list"
    using that by (induction kvs arbitrary: st) (auto simp: kv_ok_del)
  have "(a, key) \<in> (\<lambda>(key, v). (a, key)) ` set (evm_ForEachStorage k a)"
    if "map_of (storage k) (a, key) = Some v" for v
    using map_of_SomeD [OF that] by (force simp: evm_ForEachStorage_def)
  then show "map_of (storage (clear_storage a k)) (b, key) =
      (if b = a then None else map_of (storage k) (b, key))"
    by (cases "map_of (storage k) (a, key)") (auto simp: clear_storage_def clear_visit fold_del)
  show "clear_storage a k = k\<lparr>storage := storage (clear_storage a k)\<rparr>"
    "kv_ok (storage k) \<Longrightarrow> kv_ok (storage (clear_storage a k))"
    by (simp_all add: clear_storage_def clear_visit ok)
qed

lemma DeleteAccount_effect:
  assumes E: "evm_laws E" and k: "evm_ok E k" and d: "evm_DeleteAccount E a k = (Ok (), k')"
  shows "evm_ok E k' \<and> evm_GetAccount E k' = (evm_GetAccount E k)(a := None) \<and> evm_GetCode k' = evm_GetCode k \<and>
    evm_GetState k' = (evm_GetState k)(a := if evm_GetAccount E k a = None then evm_GetState k a else (\<lambda>_. 0)) \<and>
    (\<forall>b c. b \<noteq> a \<longrightarrow> evm_fits E k' b c = evm_fits E k b c)"
proof (cases "aGetAccount E (modules k) a")
  case None
  then have "k' = k" "evm_GetAccount E k a = None"
    using d by (simp_all add: evm_DeleteAccount_def evm_GetAccount_def GetAccountWithoutBalance_def)
  with k show ?thesis by (simp add: fun_upd_idem)
next
  case (Some acc)
  with d obtain k1 where c: "acc_CodeHash acc \<noteq> None" "evm_SetBalance E a 0 k = (Ok (), k1)"
    and k1: "k' = (clear_storage a k1)\<lparr>modules := aRemoveAccount E a (modules (clear_storage a k1))\<rparr>"
    by (auto simp: evm_DeleteAccount_def Let_def outcome_simps split: if_splits)
  from SetBalance_effect [OF E _ _ c(2)] k Some obtain x where x: "k1 = k\<lparr>modules := x\<rparr>"
    "aGetAccount E x = aGetAccount E (modules k)"
    "\<And>b d. bBalance E x b d = (if b = a \<and> d = EvmDenom k then 0 else bBalance E (modules k) b d)"
    by (auto simp: evm_ok_def)
  define st where "st = storage (clear_storage a k1)"
  have k': "k' = k\<lparr>modules := aRemoveAccount E a x, storage := st\<rparr>"
    using clear_storage_effect(1) [where a = a and k = k1] x(1) unfolding k1 st_def
    by (metis (no_types, lifting) evm_keeper.select_convs evm_keeper.surjective evm_keeper.update_convs)
  have st: "kv_ok st" "\<And>b key. map_of st (b, key) = (if b = a then None else map_of (storage k) (b, key))"
    using clear_storage_effect(2,3) [where a = a and k = k1] k x(1) by (simp_all add: st_def evm_ok_def)
  note rm = evm_lawsD(3,4) [OF E, of a x]
  have "evm_GetAccount E k' b = ((evm_GetAccount E k)(a := None)) b" for b
    using x by (simp add: evm_GetAccount_def GetAccountWithoutBalance_def evm_GetBalance_def k' rm
        cong: option.case_cong)
  moreover have "evm_ok E k'" using k c(1) Some st(1) by (auto simp: evm_ok_def k' rm x(2))
  moreover have "evm_GetState k' b = (if b = a then (\<lambda>_. 0) else evm_GetState k b)" for b
    by (simp add: evm_GetState_def k' st(2) fun_eq_iff)
  moreover have "evm_fits E k' b c = evm_fits E k b c" if "b \<noteq> a" for b c
    using that by (simp add: evm_fits_def k' rm x(2) cong: option.case_cong)
  moreover have "evm_GetCode k' = evm_GetCode k" by (simp add: evm_GetCode_def k' fun_eq_iff)
  moreover have "evm_GetAccount E k a \<noteq> None"
    using Some by (simp add: evm_GetAccount_def GetAccountWithoutBalance_def)
  ultimately show ?thesis by (auto simp: fun_eq_iff)
qed

text \<open>The keeper provides the interface of the state database, over modules that meet the laws.\<close>

definition evm_ready :: "'x evm_env \<Rightarrow> 'x evm_keeper \<Rightarrow> bool" where
  "evm_ready E k \<longleftrightarrow> evm_laws E \<and> evm_ok E k"

lemma SetState_frame:
  "evm_ok E k \<Longrightarrow> evm_ok E (evm_SetState a key v k)"
  "evm_GetAccount E (evm_SetState a key v k) = evm_GetAccount E k"
  "evm_fits E (evm_SetState a key v k) = evm_fits E k"
  "evm_GetCode (evm_SetState a key v k) = evm_GetCode k"
  "evm_ok E k \<Longrightarrow> evm_ok E (evm_SetCode h c k)"
  "evm_GetAccount E (evm_SetCode h c k) = evm_GetAccount E k"
  "evm_GetState (evm_SetCode h c k) = evm_GetState k"
  "evm_fits E (evm_SetCode h c k) = evm_fits E k"
  "evm_GetCode (evm_SetCode h c k) = (evm_GetCode k)(h := stored_code c)"
  by (simp_all add: evm_SetState_def evm_GetCode_def stored_code_def evm_SetCode_def evm_ok_def evm_GetAccount_def evm_GetState_def
      GetAccountWithoutBalance_def evm_GetBalance_def evm_fits_def kv_simps fun_eq_iff
      cong: option.case_cong)

interpretation ek: statedb_keeper "evm_Keeper E" "evm_ready E" "evm_fits E" for E :: "'x evm_env"
proof (unfold_locales, goal_cases)
  case (1 k a acct k')
  then show ?case using SetAccount_effect [of E k a acct k'] by (simp add: evm_ready_def)
next
  case (2 k a key v)
  then have "kv_ok (storage k)" by (simp add: evm_ready_def evm_ok_def)
  with 2 show ?case using SetState_effect [of k a key v]
    by (simp add: evm_ready_def SetState_frame)
next
  case (3 k h c)
  then show ?case by (simp add: evm_ready_def SetState_frame)
next
  case (4 k a k')
  then show ?case using DeleteAccount_effect [of E k a k'] by (simp add: evm_ready_def)
qed

end
