(* ===== verification/EvmSample.thy ===== *)
theory EvmSample
  imports EvmKeeper
begin

text \<open>
  A small chain state for the examples of the EVM theorems: modules with one table of accounts and
  one of balances, an account 1 with balance 100 and the module account 99.
\<close>

type_synonym sample_modules = "(address \<rightharpoonup> evm_account) \<times> (address \<Rightarrow> string \<Rightarrow> int)"

definition shift_balance :: "address \<Rightarrow> string \<Rightarrow> int \<Rightarrow> sample_modules \<Rightarrow> sample_modules" where
  "shift_balance a d n x = (fst x, (snd x)(a := ((snd x) a)(d := snd x a d + n)))"

definition sample_evm :: "sample_modules evm_env" where
  "sample_evm =
     \<lparr>aGetAccount = fst,
      aNewAccount = (\<lambda>a x. (\<lparr>acc_Sequence = 0, acc_CodeHash = Some 0\<rparr>, x)),
      aSetAccount = (\<lambda>a acc x. ((fst x)(a \<mapsto> acc), snd x)),
      aRemoveAccount = (\<lambda>a x. ((fst x)(a := None), snd x)),
      bBalance = snd,
      bMint = (\<lambda>d n x. Inr (shift_balance 99 d n x)),
      bBurn = (\<lambda>d n x. Inr (shift_balance 99 d (- n) x)),
      bToAccount = (\<lambda>a d n x. Inr (shift_balance a d n (shift_balance 99 d (- n) x))),
      bToModule = (\<lambda>a d n x. Inr (shift_balance 99 d n (shift_balance a d (- n) x))),
      eModule = 99, eValidDenom = (\<lambda>d. d \<noteq> []), eKeccak = (\<lambda>bs. of_nat (length bs))\<rparr>"

definition sample_chain :: "sample_modules evm_keeper" where
  "sample_chain =
     \<lparr>modules = ([1 \<mapsto> \<lparr>acc_Sequence = 4, acc_CodeHash = Some 0\<rparr>, 99 \<mapsto> \<lparr>acc_Sequence = 0, acc_CodeHash = None\<rparr>],
        \<lambda>a d. if a = 1 \<and> d = ''amoca'' then 100 else 0),
      EvmDenom = ''amoca'', storage = [((1, 5), hash_bytes 3)], codes = [],
      transientGasUsed = None, transientTxIndex = None, transientLogSize = None\<rparr>"

definition sample_cfg :: TxConfig where
  "sample_cfg = \<lparr>BlockHash = 0, TxHash = 0, TxIndex = 0, LogIndex = 0\<rparr>"

definition sample_ops1 :: "db_op list" where
  "sample_ops1 = [DoAddBalance 2 7, DoSetState 1 5 9, DoAddAddress 1, DoSetCode 2 (Some [6, 7])]"

definition sample_ops2 :: "db_op list" where
  "sample_ops2 = [DoSetState 1 5 0, DoCreateAccount 3, DoSnapshot, DoSetCode 3 (Some [1, 2]), DoAddSlot 3 8,
     DoSuicide 1, DoRevert 1, DoSubBalance 2 7, Ask (QState 1 5)]"

lemma sample_laws: "evm_laws sample_evm"
  by (auto simp: evm_laws_def sample_evm_def bank_effect_def shift_balance_def)

lemma sample_ready: "evm_ready sample_evm sample_chain"
  using sample_laws by (simp add: evm_ready_def evm_ok_def sample_chain_def sample_evm_def kv_ok_def)

lemma sample_run1: "fst (run (evm_Keeper sample_evm) sample_ops1 (New sample_chain sample_cfg)) = Ok ()"
  by code_simp

lemma sample_run2: "fst (run (evm_Keeper sample_evm) sample_ops2 (snd (Snapshot
    (snd (run (evm_Keeper sample_evm) sample_ops1 (New sample_chain sample_cfg)))))) = Ok ()"
  by code_simp

end
