(* ===== verification/EvmProps.thy ===== *)
theory EvmProps
  imports EvmSample
begin

text \<open>
  The properties of the EVM state database and of the keeper it commits to.
\<close>

lemma exec_keeper:
  assumes s: "sound K s" "rev_ok s" and e: "exec K d s = (Ok (), s')"
  shows "keeper s' = keeper s"
proof (cases "journalled d")
  case True
  from ext_keeper [OF exec_ext [OF s(1) this e]] show ?thesis .
next
  case False
  then consider "d = DoSnapshot" | n where "d = DoRevert n" by (auto simp: journalled_def)
  then show ?thesis
  proof cases
    case 1
    with e show ?thesis by (auto simp: Snapshot_def Let_def)
  next
    case 2
    with e have "RevertToSnapshot K n s = (Ok (), s')" by simp
    from revert_cases [OF s this] undo_fields show ?thesis
      by (metis StateDB.select_convs(1) StateDB.surjective StateDB.update_convs(3))
  qed
qed

lemma run_New:
  assumes "run K ops (New k cfg) = (Ok (), s)"
  shows "sound K s \<and> rev_ok s \<and> keeper s = k"
proof -
  have step: "sound K u \<and> rev_ok u \<and> keeper u = k"
    if "sound K t \<and> rev_ok t \<and> keeper t = k" "exec K d t = (Ok (), u)" for d t u
    using exec_sound [of K t d u] exec_keeper [of K t d u] that by simp
  show ?thesis
    by (rule foreach_invariant [OF assms [unfolded run_def], of "\<lambda>s. sound K s \<and> rev_ok s \<and> keeper s = k"])
      (simp add: sound_New, simp add: New_def, erule (1) step)
qed

text \<open>
  C2: snapshots.  After any run of operations from a new state database, take a snapshot, run any
  operations that do not panic, nested snapshots and reverts included, and revert to the snapshot
  while it is still valid: the revert does not panic, every getter answers as it did at the
  snapshot, and the journal, its dirty counts and the stack of revisions are what they were.
\<close>

theorem revert_restores_snapshot:
  assumes "run K ops1 (New k cfg) = (Ok (), s0)" and "Snapshot s0 = (n, s1)"
    and "run K ops2 s1 = (Ok (), s2)" and "n \<in> rev_id ` set (validRevisions s2)"
  shows "\<exists>s3. RevertToSnapshot K n s2 = (Ok (), s3) \<and> (\<forall>q. fst (ask K q s3) = fst (ask K q s0)) \<and>
    journal_of s3 = journal_of s0 \<and> validRevisions s3 = validRevisions s0"
proof -
  have s0: "sound K s0" "rev_ok s0" using run_New [OF assms(1)] by simp_all
  have n: "n = nextRevisionID s0" "s1 = snd (Snapshot s0)" using assms(2) by (auto simp: Snapshot_def Let_def)
  then have "run K ops2 (snd (Snapshot s0)) = (Ok (), s2)" using assms(3) by simp
  from revert_restores [OF s0 this] assms(4) n(1) obtain s3 where
    "RevertToSnapshot K n s2 = (Ok (), s3)" "sound K s3" "observe K s3 = observe K s0"
    "journal_of s3 = journal_of s0" "validRevisions s3 = validRevisions s0" by fastforce
  with s0 show ?thesis by (auto simp: ask_spec(1))
qed

abbreviation sample_db :: "sample_modules evm_keeper StateDB" where
  "sample_db \<equiv> snd (run (evm_Keeper sample_evm) sample_ops1 (New sample_chain sample_cfg))"

lemma sample_db_run: "run (evm_Keeper sample_evm) sample_ops1 (New sample_chain sample_cfg) = (Ok (), sample_db)"
  using sample_run1 by (simp add: prod_eq_iff)

theorem revert_restores_snapshot_witness:
  "\<exists>s3. RevertToSnapshot (evm_Keeper sample_evm) 0
      (snd (run (evm_Keeper sample_evm) sample_ops2 (snd (Snapshot sample_db)))) = (Ok (), s3) \<and>
    (\<forall>q. fst (ask (evm_Keeper sample_evm) q s3) = fst (ask (evm_Keeper sample_evm) q sample_db)) \<and>
    journal_of s3 = journal_of sample_db \<and> validRevisions s3 = validRevisions sample_db"
proof -
  have "fst (Snapshot sample_db) = 0" by code_simp
  then have snap: "Snapshot sample_db = (0, snd (Snapshot sample_db))" by (simp add: prod_eq_iff)
  have run2: "run (evm_Keeper sample_evm) sample_ops2 (snd (Snapshot sample_db)) =
      (Ok (), snd (run (evm_Keeper sample_evm) sample_ops2 (snd (Snapshot sample_db))))"
    using sample_run2 by (simp add: prod_eq_iff)
  have valid: "0 \<in> rev_id ` set (validRevisions
      (snd (run (evm_Keeper sample_evm) sample_ops2 (snd (Snapshot sample_db)))))"
    by code_simp
  show ?thesis by (rule revert_restores_snapshot [OF sample_db_run snap run2 valid])
qed

lemma ask_journal: "journal_of (snd (ask K q s)) = journal_of s"
  by (cases q)
    (auto simp: getter_defs GetCode_def GetCodeSize_def GetState_def GetCommittedState_def obj_CodeSize_def
      obj_Code_def obj_GetState_def obj_GetCommittedState_def Let_def
      dest: getStateObject_cases(7) split: prod.splits option.splits)

lemma ask_sim:
  assumes "sound K s"
  shows "db_sim K (snd (ask K q s)) s"
  using ask_spec(2) [OF assms, of q] ask_journal [of K q s] by (auto simp: ext_def)

text \<open>
  C18: getters.  A getter may load an account, its code or a slot into the caches of the state
  database, but no getter changes what any getter answers.
\<close>

theorem queries_pure:
  assumes "run K ops (New k cfg) = (Ok (), s)"
  shows "fst (ask K q' (snd (ask K q s))) = fst (ask K q' s)"
proof -
  have s: "sound K s" using run_New [OF assms] by simp
  have "sound K (snd (ask K q s))" by (rule ext_sound [OF ask_spec(2) [OF s]])
  with observe_sim [OF ask_sim [OF s]] show ?thesis by (simp add: ask_spec(1) [OF s] ask_spec(1))
qed

theorem queries_pure_witness:
  "fst (ask (evm_Keeper sample_evm) (QState 1 5) (snd (ask (evm_Keeper sample_evm) (QCode 1) sample_db)))
    = fst (ask (evm_Keeper sample_evm) (QState 1 5) sample_db)"
  by (rule queries_pure [OF sample_db_run])

text \<open>
  C12: panics.  In every state a run of operations reaches, an operation panics exactly when it
  subtracts more than the refund counter holds or reverts to a revision that is not on the stack;
  no operation returns an error.  In particular undoing the journal never dereferences a missing
  account, an absent log or an absent access-list slot.
\<close>

theorem operation_outcome:
  assumes "run K ops (New k cfg) = (Ok (), s)"
  shows "fst (exec K d s) = (if panics d s then Panic else Ok ())"
  using exec_outcome run_New [OF assms] by blast

theorem operation_outcome_witness:
  "fst (exec (evm_Keeper sample_evm) (DoRevert 3) sample_db) =
     (if panics (DoRevert 3) sample_db then Panic else Ok ())"
  by (rule operation_outcome [OF sample_db_run])

lemma ask_existing:
  assumes "sound K s" "peek K s a = Some obj"
  shows "fst (GetBalance K a s) = Balance (account obj)" "fst (GetNonce K a s) = Nonce (account obj)"
    "fst (GetCodeHash K a s) = CodeHash (account obj)"
  using ask_spec(1) [OF assms(1), of "QBalance a"] ask_spec(1) [OF assms(1), of "QNonce a"]
    ask_spec(1) [OF assms(1), of "QCodeHash a"] assms(2) by simp_all

text \<open>
  C19: writes, seen through every getter, for an account that exists after a run of operations.
  \<open>AddBalance\<close> and \<open>SubBalance\<close> move the balance of the account by the amount, \<open>SetNonce\<close> sets its
  nonce, \<open>SetCode\<close> its code, code size and code hash, each with the effect on emptiness that follows,
  and \<open>SetState\<close> sets the one slot; every other question about this and every other account, the
  refund counter, the logs, the access list and transient storage is answered as before.
\<close>

theorem setters_read_back:
  assumes "run K ops (New k cfg) = (Ok (), s)" and "fst (Exist K a s)"
    and "bal = fst (GetBalance K a s)" and "nonce = fst (GetNonce K a s)" and "hash = fst (GetCodeHash K a s)"
  shows "fst (ask K q (AddBalance K a n s)) =
      (if q = QBalance a then AInt (bal + n)
       else if q = QEmpty a then ABool (nonce = 0 \<and> bal + n = 0 \<and> hash = emptyCodeHash K)
       else fst (ask K q s)) \<and>
    fst (ask K q (SubBalance K a n s)) =
      (if q = QBalance a then AInt (bal - n)
       else if q = QEmpty a then ABool (nonce = 0 \<and> bal - n = 0 \<and> hash = emptyCodeHash K)
       else fst (ask K q s)) \<and>
    fst (ask K q (SetNonce K a m s)) =
      (if q = QNonce a then AWord m
       else if q = QEmpty a then ABool (m = 0 \<and> bal = 0 \<and> hash = emptyCodeHash K)
       else fst (ask K q s)) \<and>
    fst (ask K q (SetCode K a c s)) =
      (if q = QCode a then ABytes c
       else if q = QCodeSize a then ANat (length (code_bytes c))
       else if q = QCodeHash a then AHash (Keccak K (code_bytes c))
       else if q = QEmpty a then ABool (nonce = 0 \<and> bal = 0 \<and> Keccak K (code_bytes c) = emptyCodeHash K)
       else fst (ask K q s)) \<and>
    fst (ask K q (SetState K a key v s)) = (if q = QState a key then AHash v else fst (ask K q s))"
proof -
  have s: "sound K s" using run_New [OF assms(1)] by simp
  obtain obj where ex: "peek K s a = Some obj" using assms(2) ask_spec(1) [OF s, of "QExist a"] by auto
  note old = ask_existing [OF s ex, folded assms(3-5)]
  note sound = ext_sound [OF AddBalance_ext [OF s]] ext_sound [OF SubBalance_ext [OF s]] ext_sound [OF SetNonce_ext [OF s]]
    ext_sound [OF SetCode_ext [OF s]] ext_sound [OF SetState_ext [OF s]]
  have e: "obj_empty K (setBalance x obj) \<longleftrightarrow> nonce = 0 \<and> x = 0 \<and> hash = emptyCodeHash K"
    "obj_empty K (setNonce m obj) \<longleftrightarrow> m = 0 \<and> bal = 0 \<and> hash = emptyCodeHash K"
    "obj_empty K (setCode h c obj) \<longleftrightarrow> nonce = 0 \<and> bal = 0 \<and> h = emptyCodeHash K" for x h
    using old by (simp_all add: obj_empty_def setBalance_def setNonce_def setCode_def)
  show ?thesis
    unfolding ask_spec(1) [OF s] ask_spec(1) [OF sound(1)] ask_spec(1) [OF sound(2)] ask_spec(1) [OF sound(3)]
      ask_spec(1) [OF sound(4)] ask_spec(1) [OF sound(5)] setters_observe [OF s ex] SetCode_observe [OF s ex]
      SetState_observe [OF s ex] e old by blast
qed

theorem setters_read_back_witness:
  "fst (GetBalance (evm_Keeper sample_evm) 1 (AddBalance (evm_Keeper sample_evm) 1 20 sample_db))
     = fst (GetBalance (evm_Keeper sample_evm) 1 sample_db) + 20 \<and>
   fst (GetState (evm_Keeper sample_evm) 1 5 (SetState (evm_Keeper sample_evm) 1 5 8 sample_db)) = 8"
proof -
  have ex: "fst (Exist (evm_Keeper sample_evm) 1 sample_db)" by code_simp
  note w = setters_read_back [OF sample_db_run ex refl refl refl]
  show ?thesis
    using w [of "QBalance 1" 20, THEN conjunct1] w [of "QState 1 5", where key = 5 and v = 8, THEN conjunct2, THEN conjunct2,
        THEN conjunct2, THEN conjunct2] by simp
qed

text \<open>
  C4: commit.  After a run of operations over an EVM keeper that meets its invariant, with auth and bank
  modules that meet their laws, consider a successful \<open>Commit\<close>.  For every account the journal marks
  dirty the keeper then holds: if it was destroyed, no account, and no storage either unless the keeper
  did not hold the account before, when its storage is as it was; otherwise exactly the balance, nonce,
  code hash and storage the state database showed, and a new state database over the keeper shows the same
  code.  Every other account and its storage are untouched, and no stored code changes.  Two conditions:
  an account that is no Ethereum account has no code hash to store (\<open>evm_fits\<close>), and the codes of the live
  accounts do not collide under the hash function (\<open>codes_agree\<close>).
\<close>

theorem commit_refines_keeper:
  assumes "run (evm_Keeper E) ops (New k cfg) = (Ok (), s)" and "evm_laws E" and "evm_ok E k"
    and "list_all (\<lambda>(a, obj). evm_fits E k a (account obj)) (stateObjects s)"
    and "codes_agree (evm_Keeper E) s"
    and "Commit (evm_Keeper E) s = (Ok (), s')"
  shows "(case map_of (dirties (journal_of s)) a of
      None \<Rightarrow> evm_GetAccount E (keeper s') a = evm_GetAccount E k a \<and> evm_GetState (keeper s') a = evm_GetState k a
    | Some _ \<Rightarrow> (case map_of (stateObjects s) a of
          None \<Rightarrow> False
        | Some obj \<Rightarrow>
            if suicided obj \<or> selfDestructed obj
            then evm_GetAccount E (keeper s') a = None \<and> evm_GetState (keeper s') a =
              (if evm_GetAccount E k a = None then evm_GetState k a else (\<lambda>_. 0))
            else evm_GetAccount E (keeper s') a = Some (account obj) \<and>
              evm_GetState (keeper s') a key = fst (GetState (evm_Keeper E) a key s) \<and>
              code_bytes (fst (GetCode (evm_Keeper E) a (New (keeper s') cfg'))) =
                code_bytes (fst (GetCode (evm_Keeper E) a s)))) \<and>
    (\<forall>h c. evm_GetCode k h = Some c \<longrightarrow> code_bytes (evm_GetCode (keeper s') h) = c)"
proof -
  let ?K = "evm_Keeper E" and ?A = "dom (map_of (dirties (journal_of s)))"
  have s: "sound ?K s" "keeper s = k" using run_New [OF assms(1)] by simp_all
  have objs: "objs_ok ?K s" using sound_db_ok [OF s(1)] by (simp add: db_ok_def)
  have fits: "evm_fits E (keeper s) a obj'" if "map_of (stateObjects s) a = Some obj" "obj' = account obj" for a obj obj'
    using assms(4) map_of_SomeD [OF that(1)] that(2) s(2) by (auto simp: list_all_iff)
  from ek.Commit_effect [OF s(1) _ _ assms(6)] assms(2,3) s(2) fits obtain k' where
    k': "s' = s\<lparr>keeper := k'\<rparr>" "\<forall>a \<in> ?A. commits ?K s a k'" "codes_after ?K s ?A (keeper s) k'"
    "\<forall>b. b \<notin> ?A \<longrightarrow> kGetAccount ?K k' b = kGetAccount ?K k b \<and> kGetState ?K k' b = kGetState ?K k b"
    by (auto simp: evm_ready_def)
  show ?thesis
  proof (rule conjI, goal_cases)
    case 2
    show ?case using codes_after_kept [OF k'(3) assms(5)] k'(1) s(2) by simp
  next
    case 1
    show ?case
    proof (cases "map_of (dirties (journal_of s)) a")
      case None
      with k'(1,4) show ?thesis by (simp add: domIff)
    next
      case (Some n)
      then have in_A: "a \<in> ?A" by blast
      with k'(2) have "commits ?K s a k'" by blast
      then obtain obj where obj: "map_of (stateObjects s) a = Some obj" by (auto simp: commits_def split: option.splits)
      have get: "fst (GetState ?K a key s) = eff_state ?K k obj key" "fst (GetCode ?K a s) = eff_code ?K k obj"
        using ask_spec(1) [OF s(1), of "QState a key"] ask_spec(1) [OF s(1), of "QCode a"] obj s(2) by (simp_all add: peek_def)
      have new: "fst (GetCode ?K a (New k' cfg')) = (if CodeHash acct = emptyCodeHash ?K then None else evm_GetCode k' (CodeHash acct))"
        if "evm_GetAccount E k' a = Some acct" for acct
        using ask_spec(1) [OF sound_New(1), of ?K "QCode a" k' cfg'] that
        by (simp add: peek_def New_def loaded_def newObject_def eff_code_def)
      show ?thesis
        using \<open>commits ?K s a k'\<close> Some obj k'(1) s(2) get new codes_after_own [OF k'(3) assms(5) in_A objs obj]
        by (simp add: commits_def split: if_splits)
    qed
  qed
qed

lemma sample_commit: "fst (Commit (evm_Keeper sample_evm) sample_db) = Ok ()"
  by code_simp

theorem commit_refines_keeper_witness:
  "let s' = snd (Commit (evm_Keeper sample_evm) sample_db) in
   evm_GetState (keeper s') 1 5 = fst (GetState (evm_Keeper sample_evm) 1 5 sample_db) \<and>
   evm_GetAccount sample_evm (keeper s') 2 = Some (account (the (map_of (stateObjects sample_db) 2))) \<and>
   code_bytes (fst (GetCode (evm_Keeper sample_evm) 2 (New (keeper s') sample_cfg))) = [6, 7]"
proof -
  let ?K = "evm_Keeper sample_evm" and ?s = "snd (Commit (evm_Keeper sample_evm) sample_db)"
  have c: "Commit ?K sample_db = (Ok (), ?s)" using sample_commit by (simp add: prod_eq_iff)
  have ok: "evm_ok sample_evm sample_chain" using sample_ready by (simp add: evm_ready_def)
  have fit: "list_all (\<lambda>(a, obj). evm_fits sample_evm sample_chain a (account obj)) (stateObjects sample_db)"
    and agree: "codes_agree ?K sample_db" by code_simp+
  note w = commit_refines_keeper [OF sample_db_run sample_laws ok fit agree c]
  have 1: "map_of (dirties (journal_of sample_db)) 1 \<noteq> None" "map_of (stateObjects sample_db) 1 \<noteq> None"
    "\<not> suicided (the (map_of (stateObjects sample_db) 1))" "\<not> selfDestructed (the (map_of (stateObjects sample_db) 1))"
    by code_simp+
  have 2: "map_of (dirties (journal_of sample_db)) 2 \<noteq> None" "map_of (stateObjects sample_db) 2 \<noteq> None"
    "\<not> suicided (the (map_of (stateObjects sample_db) 2))" "\<not> selfDestructed (the (map_of (stateObjects sample_db) 2))"
    "fst (GetCode ?K 2 sample_db) = Some [6, 7]"
    by code_simp+
  from w [of 1 5] 1 have "evm_GetState (keeper ?s) 1 5 = fst (GetState ?K 1 5 sample_db)"
    by (auto split: option.splits simp del: surjective_pairing)
  moreover from w [of 2 5 sample_cfg] 2
  have "evm_GetAccount sample_evm (keeper ?s) 2 = Some (account (the (map_of (stateObjects sample_db) 2)))"
    "code_bytes (fst (GetCode ?K 2 (New (keeper ?s) sample_cfg))) = [6, 7]"
    by (auto split: option.splits simp: code_bytes_def [of "Some _"] simp del: surjective_pairing)
  ultimately show ?thesis by (simp add: Let_def)
qed

text \<open>
  C20: dirty accounts.  In every state a run reaches, the dirty map holds exactly the accounts some
  journal entry modifies, each with the number of its entries, and every one of them has a live
  object: \<open>Commit\<close> never dereferences a missing object.
\<close>

theorem dirty_map_exact:
  assumes "run K ops (New k cfg) = (Ok (), s)"
  shows "map_of (dirties (journal_of s)) a =
      (let n = marks (entries (journal_of s)) a in if n = 0 then None else Some (int n)) \<and>
    (a \<in> set (sortedDirties (journal_of s)) \<longrightarrow> kv_has (stateObjects s) a) \<and>
    sorted_wrt (<) (sortedDirties (journal_of s))"
proof -
  have s: "sound K s" using run_New [OF assms] by simp
  then have j: "journal_ok K s" using sound_db_ok by (auto simp: db_ok_def)
  then show ?thesis
    using dirty_live [OF s] by (simp add: journal_ok_def sortedDirties_def kv_ok_def)
qed

theorem dirty_map_exact_witness:
  "map_of (dirties (journal_of sample_db)) 2 =
     (let n = marks (entries (journal_of sample_db)) 2 in if n = 0 then None else Some (int n)) \<and>
   kv_has (stateObjects sample_db) 2"
proof -
  have "2 \<in> set (sortedDirties (journal_of sample_db))" by code_simp
  with dirty_map_exact [OF sample_db_run, of 2] show ?thesis by blast
qed

text \<open>A sequence of additions to an access list, and the sets it describes.\<close>

datatype al_op = AddA address | AddS address hash

fun al_exec :: "al_op \<Rightarrow> accessList \<Rightarrow> (evm_error, unit) outcome \<times> accessList" where
  "al_exec (AddA a) al = (Ok (), snd (AddAddress a al))"
| "al_exec (AddS a h) al = (case AddSlot a h al of
      (Ok _, al) \<Rightarrow> (Ok (), al) | (Err e, al) \<Rightarrow> (Err e, al) | (Panic, al) \<Rightarrow> (Panic, al))"

fun al_addrs :: "al_op list \<Rightarrow> address set" where
  "al_addrs [] = {}"
| "al_addrs (AddA a # ops) = insert a (al_addrs ops)"
| "al_addrs (AddS a h # ops) = insert a (al_addrs ops)"

fun al_slots :: "al_op list \<Rightarrow> (address \<times> hash) set" where
  "al_slots [] = {}"
| "al_slots (AddA a # ops) = al_slots ops"
| "al_slots (AddS a h # ops) = insert (a, h) (al_slots ops)"

lemma al_exec_step:
  assumes "al_ok al"
  shows "\<exists>al'. al_exec d al = (Ok (), al') \<and> al_ok al' \<and>
    (\<forall>b. ContainsAddress al' b \<longleftrightarrow> b \<in> al_addrs [d] \<or> ContainsAddress al b) \<and>
    (\<forall>b g. has_slot al' b g \<longleftrightarrow> (b, g) \<in> al_slots [d] \<or> has_slot al b g)"
proof (cases d)
  case (AddA a)
  obtain n al' where "AddAddress a al = (n, al')" by fastforce
  with al.add_addr_ok [OF assms this] AddA show ?thesis by auto
next
  case (AddS a h)
  from al.add_slot_ok [OF assms, of a h] obtain al' where
    "AddSlot a h al = (Ok (\<not> ContainsAddress al a, \<not> has_slot al a h) :: (evm_error, bool \<times> bool) outcome, al')"
    "al_ok al'" "\<forall>b. ContainsAddress al' b = (b = a \<or> ContainsAddress al b)"
    "\<forall>b g. has_slot al' b g = (b = a \<and> g = h \<or> has_slot al b g)" by blast
  with AddS show ?thesis by auto
qed

lemma al_exec_all:
  assumes "al_ok al"
  shows "\<exists>al'. foreach al_exec ops al = (Ok (), al') \<and> al_ok al' \<and>
    (\<forall>b. ContainsAddress al' b \<longleftrightarrow> b \<in> al_addrs ops \<or> ContainsAddress al b) \<and>
    (\<forall>b g. has_slot al' b g \<longleftrightarrow> (b, g) \<in> al_slots ops \<or> has_slot al b g)"
  using assms
proof (induction ops arbitrary: al)
  case (Cons d ops)
  from al_exec_step [OF Cons.prems, of d] obtain al1 where d: "al_exec d al = (Ok (), al1)" "al_ok al1"
    "\<forall>b. ContainsAddress al1 b \<longleftrightarrow> b \<in> al_addrs [d] \<or> ContainsAddress al b"
    "\<forall>b g. has_slot al1 b g \<longleftrightarrow> (b, g) \<in> al_slots [d] \<or> has_slot al b g" by blast
  from Cons.IH [OF d(2)] d show ?case by (cases d) auto
qed simp

text \<open>
  C21: the access list is the pair of sets it stands for.  Any sequence of additions to an empty list
  succeeds, and afterwards a lookup finds exactly the addresses and the (address, slot) pairs added.
\<close>

theorem access_list_refines_sets:
  "\<exists>al. foreach al_exec ops newAccessList = (Ok (), al) \<and>
     Contains al a h = Ok (a \<in> al_addrs ops, (a, h) \<in> al_slots ops)"
proof -
  from al_exec_all [OF al_ok_new, of ops] obtain al where
    "foreach al_exec ops newAccessList = (Ok (), al)" "al_ok al"
    "ContainsAddress al a \<longleftrightarrow> a \<in> al_addrs ops \<or> ContainsAddress newAccessList a"
    "has_slot al a h \<longleftrightarrow> (a, h) \<in> al_slots ops \<or> has_slot newAccessList a h" by blast
  moreover have "\<not> ContainsAddress newAccessList a" "\<not> has_slot newAccessList a h"
    by (simp_all add: newAccessList_def ContainsAddress_def has_slot_def kv_has_def)
  ultimately show ?thesis by (auto simp: Contains_spec)
qed

text \<open>
  C22: gas used in a transaction.  The accumulator adds exactly while the sum fits in 64 bits; when it
  does not, an error is returned and the stored value is kept.
\<close>

theorem gas_used_no_wrap:
  "AddTransientGasUsed g k =
     (if unat (GetTransientGasUsed k) + unat g < 2 ^ 64
      then (Some (GetTransientGasUsed k + g), SetTransientGasUsed (GetTransientGasUsed k + g) k)
      else (None, k))"
  by (simp add: AddTransientGasUsed_spec SetTransientGasUsed_def)

end
