(* ===== verification/FeeMarket.thy ===== *)
theory FeeMarket
  imports Bytes
begin

text \<open>
  The fee market module (\<open>x/feemarket\<close>): its parameters and their validation (\<open>types/params.go\<close>),
  the stores of the keeper (\<open>keeper/params.go\<close>, \<open>keeper/keeper.go\<close>), the EIP-1559 base fee
  (\<open>keeper/eip1559.go\<close>), the block hooks (\<open>keeper/abci.go\<close>), queries, messages and genesis.

  A nil \<open>Int\<close> or \<open>LegacyDec\<close> is \<open>None\<close>.  An \<open>Int\<close> holds at most 256 bits: making one of a larger
  number panics.  A \<open>LegacyDec\<close> is its integer of \<open>10 ^ 18\<close> units, of at most 315 bits; the product
  of a decimal of an integer with another decimal is exact.  Dividing by zero panics.
\<close>

section \<open>Parameters\<close>

record FeeParams =
  NoBaseFee :: bool
  BaseFeeChangeDenominator :: "32 word"
  ElasticityMultiplier :: "32 word"
  BaseFee :: "int option"
  EnableHeight :: int
  MinGasPrice :: "int option"
  MinGasMultiplier :: "int option"

datatype fee_error =
    ErrParams string
  | ErrNoGasMeter
  | ErrGasWantedOverflow
  | ErrGasUsedOverflow
  | ErrInvalidSigner
  | ErrInvalidAuthority
  | ErrBlockGasOverflow

definition dec_one :: int where
  "dec_one = 10 ^ 18"

definition fee_NewParams ::
  "bool \<Rightarrow> 32 word \<Rightarrow> 32 word \<Rightarrow> 64 word \<Rightarrow> int \<Rightarrow> int option \<Rightarrow> int option \<Rightarrow> FeeParams" where
  "fee_NewParams noBaseFee denom elasticity baseFee enableHeight minGasPrice minGasMultiplier =
     \<lparr>NoBaseFee = noBaseFee, BaseFeeChangeDenominator = denom, ElasticityMultiplier = elasticity,
      BaseFee = Some (uint baseFee), EnableHeight = enableHeight, MinGasPrice = minGasPrice,
      MinGasMultiplier = minGasMultiplier\<rparr>"

text \<open>The constants of the go-ethereum params package: 8, 2 and 1 gwei.\<close>

definition fee_DefaultParams :: FeeParams where
  "fee_DefaultParams =
     \<lparr>NoBaseFee = False, BaseFeeChangeDenominator = 8, ElasticityMultiplier = 2,
      BaseFee = Some 1000000000, EnableHeight = 0, MinGasPrice = Some 0,
      MinGasMultiplier = Some 500000000000000000\<rparr>"

text \<open>The value of a parameter structure nothing was decoded into.\<close>

definition zero_params :: FeeParams where
  "zero_params =
     \<lparr>NoBaseFee = False, BaseFeeChangeDenominator = 0, ElasticityMultiplier = 0, BaseFee = None,
      EnableHeight = 0, MinGasPrice = None, MinGasMultiplier = None\<rparr>"

definition validateMinGasMultiplier :: "int option \<Rightarrow> fee_error option" where
  "validateMinGasMultiplier v = (case v of
      None \<Rightarrow> Some (ErrParams ''invalid parameter: nil'')
    | Some x \<Rightarrow>
        if x < 0 then Some (ErrParams ''value cannot be negative'')
        else if dec_one < x then Some (ErrParams ''value cannot be greater than 1'')
        else None)"

definition validateMinGasPrice :: "int option \<Rightarrow> fee_error option" where
  "validateMinGasPrice v = (case v of
      None \<Rightarrow> Some (ErrParams ''invalid parameter: nil'')
    | Some x \<Rightarrow> if x < 0 then Some (ErrParams ''value cannot be negative'') else None)"

definition fee_Validate :: "FeeParams \<Rightarrow> (fee_error, unit) outcome" where
  "fee_Validate p =
     (if BaseFeeChangeDenominator p = 0 then Err (ErrParams ''base fee change denominator cannot be 0'')
      else (case BaseFee p of
          None \<Rightarrow> Panic
        | Some b \<Rightarrow>
            if b < 0 then Err (ErrParams ''initial base fee cannot be negative'')
            else if EnableHeight p < 0 then Err (ErrParams ''enable height cannot be negative'')
            else (case validateMinGasMultiplier (MinGasMultiplier p) of
                Some e \<Rightarrow> Err e
              | None \<Rightarrow> (case validateMinGasPrice (MinGasPrice p) of
                    Some e \<Rightarrow> Err e | None \<Rightarrow> Ok ()))))"

definition IsBaseFeeEnabled :: "FeeParams \<Rightarrow> int \<Rightarrow> bool" where
  "IsBaseFeeEnabled p height \<longleftrightarrow> \<not> NoBaseFee p \<and> EnableHeight p \<le> height"


section \<open>Stores\<close>

record fee_state =
  fee_params :: "FeeParams option"
  blockGasWanted :: "bytes option"
  transientGasWanted :: "bytes option"
  baseFeeV1 :: "bytes option"

text \<open>
  The block context: height, the consensus limit on block gas (nil when the block parameters are
  nil) and the gas the block meter consumed up to its limit (nil when there is no meter).
\<close>

record fee_ctx =
  BlockHeight :: int
  MaxGas :: "64 word option"
  GasConsumedToLimit :: "64 word option"

text \<open>The codec writes a nil \<open>Int\<close> or decimal as 0.\<close>

definition marshal_params :: "FeeParams \<Rightarrow> FeeParams" where
  "marshal_params p =
     (let z = (\<lambda>v. case v of None \<Rightarrow> Some 0 | Some x \<Rightarrow> Some x) in
      p\<lparr>BaseFee := z (BaseFee p), MinGasPrice := z (MinGasPrice p), MinGasMultiplier := z (MinGasMultiplier p)\<rparr>)"

definition fee_GetParams :: "fee_state \<Rightarrow> FeeParams" where
  "fee_GetParams s = (case fee_params s of None \<Rightarrow> zero_params | Some p \<Rightarrow> p)"

definition fee_SetParams :: "FeeParams \<Rightarrow> fee_state \<Rightarrow> fee_state" where
  "fee_SetParams p s = s\<lparr>fee_params := Some (marshal_params p)\<rparr>"

definition u64_or_zero :: "bytes option \<Rightarrow> 64 word" where
  "u64_or_zero bz = (case bz of None \<Rightarrow> 0 | Some b \<Rightarrow> if b = [] then 0 else bytes_u64 b)"

definition SetBlockGasWanted :: "64 word \<Rightarrow> fee_state \<Rightarrow> fee_state" where
  "SetBlockGasWanted g s = s\<lparr>blockGasWanted := Some (u64_bytes g)\<rparr>"

definition GetBlockGasWanted :: "fee_state \<Rightarrow> 64 word" where
  "GetBlockGasWanted s = u64_or_zero (blockGasWanted s)"

definition GetTransientGasWanted :: "fee_state \<Rightarrow> 64 word" where
  "GetTransientGasWanted s = u64_or_zero (transientGasWanted s)"

definition SetTransientBlockGasWanted :: "64 word \<Rightarrow> fee_state \<Rightarrow> fee_state" where
  "SetTransientBlockGasWanted g s = s\<lparr>transientGasWanted := Some (u64_bytes g)\<rparr>"

definition AddTransientGasWanted :: "64 word \<Rightarrow> fee_state \<Rightarrow> 64 word \<times> fee_state" where
  "AddTransientGasWanted g s =
     (let result = GetTransientGasWanted s + g in (result, SetTransientBlockGasWanted result s))"

definition GetBaseFeeV1 :: "fee_state \<Rightarrow> int option" where
  "GetBaseFeeV1 s = (case baseFeeV1 s of
      None \<Rightarrow> None | Some bz \<Rightarrow> if bz = [] then None else Some (int (be_nat bz)))"

definition GetBaseFeeEnabled :: "fee_ctx \<Rightarrow> fee_state \<Rightarrow> bool" where
  "GetBaseFeeEnabled ctx s \<longleftrightarrow>
     \<not> NoBaseFee (fee_GetParams s) \<and> EnableHeight (fee_GetParams s) \<le> BlockHeight ctx"

definition GetBaseFee :: "fee_state \<Rightarrow> int option" where
  "GetBaseFee s =
     (if NoBaseFee (fee_GetParams s) then None
      else (case BaseFee (fee_GetParams s) of
          None \<Rightarrow> GetBaseFeeV1 s
        | Some b \<Rightarrow> if b = 0 then GetBaseFeeV1 s else Some b))"

text \<open>\<open>NewIntFromBigInt\<close> panics on a number of more than 256 bits.\<close>

definition int_fits :: "int \<Rightarrow> bool" where
  "int_fits b \<longleftrightarrow> \<bar>b\<bar> < 2 ^ 256"

definition SetBaseFee :: "int \<Rightarrow> fee_state \<Rightarrow> (fee_error, unit) outcome \<times> fee_state" where
  "SetBaseFee b s =
     (if int_fits b then (Ok (), fee_SetParams ((fee_GetParams s)\<lparr>BaseFee := Some b\<rparr>) s)
      else (Panic, s))"


section \<open>The base fee\<close>

definition MaxUint64 :: int where
  "MaxUint64 = 18446744073709551615"

definition gas_limit :: "fee_ctx \<Rightarrow> int" where
  "gas_limit ctx = (case MaxGas ctx of
      None \<Rightarrow> MaxUint64 | Some g \<Rightarrow> if -1 < sint g then sint g else MaxUint64)"

definition CalculateBaseFee :: "fee_ctx \<Rightarrow> fee_state \<Rightarrow> (fee_error, int option) outcome" where
  "CalculateBaseFee ctx s =
     (let p = fee_GetParams s in
      if \<not> IsBaseFeeEnabled p (BlockHeight ctx) then Ok None
      else if BlockHeight ctx = EnableHeight p then Ok (BaseFee p)
      else (case BaseFee p of
          None \<Rightarrow> Ok None
        | Some parentBaseFee \<Rightarrow>
            let parentGasUsed = GetBlockGasWanted s in
            if ElasticityMultiplier p = 0 then Panic
            else
              let target = gas_limit ctx div uint (ElasticityMultiplier p);
                  denom = uint (BaseFeeChangeDenominator p) in
              if \<not> (0 \<le> target \<and> target \<le> MaxUint64) then Ok None
              else if uint parentGasUsed = target then Ok (Some parentBaseFee)
              else if target < uint parentGasUsed then
                (if target = 0 \<or> denom = 0 then Panic
                 else Ok (Some (parentBaseFee +
                   max (parentBaseFee * (uint parentGasUsed - target) div target div denom) 1)))
              else
                (if target = 0 \<or> denom = 0 then Panic
                 else (case MinGasPrice p of
                     None \<Rightarrow> Panic
                   | Some m \<Rightarrow> Ok (Some (max
                       (parentBaseFee - parentBaseFee * (target - uint parentGasUsed) div target div denom)
                       (quo m dec_one)))))))"


section \<open>Blocks, messages, queries and genesis\<close>

definition fee_BeginBlock :: "fee_ctx \<Rightarrow> fee_state \<Rightarrow> (fee_error, unit) outcome \<times> fee_state" where
  "fee_BeginBlock ctx s = (case CalculateBaseFee ctx s of
      Ok None \<Rightarrow> (Ok (), s)
    | Ok (Some b) \<Rightarrow> SetBaseFee b s
    | Err e \<Rightarrow> (Err e, s)
    | Panic \<Rightarrow> (Panic, s))"

definition fee_EndBlock :: "fee_ctx \<Rightarrow> fee_state \<Rightarrow> (fee_error, unit) outcome \<times> fee_state" where
  "fee_EndBlock ctx s = (case GasConsumedToLimit ctx of
      None \<Rightarrow> (Err ErrNoGasMeter, s)
    | Some used \<Rightarrow>
        (let gasWanted = uint (GetTransientGasWanted s); gasUsed = uint used in
         if \<not> is_int64 gasWanted then (Err ErrGasWantedOverflow, s)
         else if \<not> is_int64 gasUsed then (Err ErrGasUsedOverflow, s)
         else
           (let multiplier = (case MinGasMultiplier (fee_GetParams s) of None \<Rightarrow> 0 | Some x \<Rightarrow> x);
                limitedGasWanted = gasWanted * multiplier;
                updated = quo (max limitedGasWanted (gasUsed * dec_one)) dec_one
            in if 0 \<le> updated \<and> updated \<le> MaxUint64
               then (Ok (), SetBlockGasWanted (of_int updated) s)
               else (Panic, s))))"

definition fee_ValidateBasic :: "(string \<Rightarrow> bool) \<Rightarrow> string \<Rightarrow> FeeParams \<Rightarrow> (fee_error, unit) outcome" where
  "fee_ValidateBasic isAddress authority p =
     (if \<not> isAddress authority then Err ErrInvalidAuthority else fee_Validate p)"

definition fee_UpdateParams ::
  "string \<Rightarrow> string \<Rightarrow> FeeParams \<Rightarrow> fee_state \<Rightarrow> (fee_error, unit) outcome \<times> fee_state" where
  "fee_UpdateParams keeperAuthority authority p s =
     (if keeperAuthority \<noteq> authority then (Err ErrInvalidSigner, s)
      else (Ok (), fee_SetParams p s))"

definition query_BlockGas :: "fee_state \<Rightarrow> (fee_error, int) outcome" where
  "query_BlockGas s =
     (let gas = uint (GetBlockGasWanted s) in
      if \<not> is_int64 gas then Err ErrBlockGasOverflow else Ok gas)"

record FeeGenesis =
  gen_Params :: FeeParams
  gen_BlockGas :: "64 word"

definition fee_DefaultGenesis :: FeeGenesis where
  "fee_DefaultGenesis = \<lparr>gen_Params = fee_DefaultParams, gen_BlockGas = 0\<rparr>"

definition fee_InitGenesis :: "FeeGenesis \<Rightarrow> fee_state \<Rightarrow> fee_state" where
  "fee_InitGenesis g s = SetBlockGasWanted (gen_BlockGas g) (fee_SetParams (gen_Params g) s)"

definition fee_ExportGenesis :: "fee_state \<Rightarrow> FeeGenesis" where
  "fee_ExportGenesis s = \<lparr>gen_Params = fee_GetParams s, gen_BlockGas = GetBlockGasWanted s\<rparr>"


section \<open>The base fee as a function\<close>

text \<open>
  The EIP-1559 rule: with a parent fee, the gas of the parent block, its target, the change
  denominator and the lower bound on the fee.
\<close>

definition next_base_fee :: "int \<Rightarrow> int \<Rightarrow> int \<Rightarrow> int \<Rightarrow> int \<Rightarrow> int" where
  "next_base_fee parent used target denom floor =
     (if used = target then parent
      else if target < used then parent + max 1 (parent * (used - target) div (target * denom))
      else max (parent - parent * (target - used) div (target * denom)) floor)"

lemma u64_or_zero_bytes [simp]: "u64_or_zero (Some (u64_bytes g)) = g"
proof -
  have "u64_bytes g \<noteq> []"
    using length_u64_bytes [of g] by (metis list.size(3) zero_neq_numeral)
  then show ?thesis using bytes_u64_bytes [of g "[]"] by (simp add: u64_or_zero_def)
qed

lemma GetBlockGasWanted_set [simp]: "GetBlockGasWanted (SetBlockGasWanted g s) = g"
  by (simp add: GetBlockGasWanted_def SetBlockGasWanted_def)

lemma fee_GetParams_set [simp]:
  "fee_GetParams (SetBlockGasWanted g s) = fee_GetParams s"
  "fee_GetParams (fee_SetParams p s) = marshal_params p"
  by (simp_all add: fee_GetParams_def fee_SetParams_def SetBlockGasWanted_def)

lemma gas_limit_bounds: "0 \<le> gas_limit ctx" "gas_limit ctx \<le> MaxUint64"
proof -
  have "sint w < 2 ^ 63" for w :: "64 word" using sint_lt [of w] by simp
  then have "sint w \<le> MaxUint64" for w :: "64 word"
    by (rule order_trans [OF less_imp_le]) (simp add: MaxUint64_def)
  then show "0 \<le> gas_limit ctx" "gas_limit ctx \<le> MaxUint64"
    by (auto simp: gas_limit_def MaxUint64_def split: option.splits)
qed

text \<open>
  When the fee is computed from the parent block: the parameters are valid, the fee is in force,
  its enabling height has passed, and the elasticity is positive and at most the gas limit.
\<close>

definition fee_ready :: "fee_ctx \<Rightarrow> fee_state \<Rightarrow> bool" where
  "fee_ready ctx s \<longleftrightarrow>
     (let p = fee_GetParams s in
      fee_Validate p = Ok () \<and> \<not> NoBaseFee p \<and> EnableHeight p < BlockHeight ctx \<and>
      ElasticityMultiplier p \<noteq> 0 \<and> uint (ElasticityMultiplier p) \<le> gas_limit ctx)"

definition gas_target :: "fee_ctx \<Rightarrow> fee_state \<Rightarrow> int" where
  "gas_target ctx s = gas_limit ctx div uint (ElasticityMultiplier (fee_GetParams s))"

definition min_price :: "fee_state \<Rightarrow> int" where
  "min_price s = quo (the (MinGasPrice (fee_GetParams s))) dec_one"

lemma fee_Validate_Ok:
  "fee_Validate p = Ok () \<longleftrightarrow> BaseFeeChangeDenominator p \<noteq> 0 \<and> (\<exists>b. BaseFee p = Some b \<and> 0 \<le> b) \<and>
     0 \<le> EnableHeight p \<and> (\<exists>x. MinGasMultiplier p = Some x \<and> 0 \<le> x \<and> x \<le> dec_one) \<and>
     (\<exists>x. MinGasPrice p = Some x \<and> 0 \<le> x)"
  by (auto simp: fee_Validate_def validateMinGasMultiplier_def validateMinGasPrice_def
      split: option.splits if_splits)

lemma uint_pos: "w \<noteq> 0 \<Longrightarrow> 0 < uint w"
  by (metis uint_ge_0 uint_0_iff order_le_less)

lemma fee_ready_facts:
  assumes "fee_ready ctx s"
  obtains b m where "BaseFee (fee_GetParams s) = Some b" "0 \<le> b" "MinGasPrice (fee_GetParams s) = Some m" "0 \<le> m"
    "0 < gas_target ctx s" "gas_target ctx s \<le> MaxUint64" "0 < uint (BaseFeeChangeDenominator (fee_GetParams s))"
    "0 \<le> min_price s"
proof -
  let ?p = "fee_GetParams s" and ?e = "uint (ElasticityMultiplier (fee_GetParams s))"
  from assms obtain b m where bm: "BaseFee ?p = Some b" "0 \<le> b" "MinGasPrice ?p = Some m" "0 \<le> m"
    "BaseFeeChangeDenominator ?p \<noteq> 0" by (auto simp: fee_ready_def Let_def fee_Validate_Ok)
  from assms have e: "0 < ?e" "?e \<le> gas_limit ctx" "gas_limit ctx \<le> MaxUint64"
    by (auto simp: fee_ready_def Let_def gas_limit_bounds intro: uint_pos)
  have "gas_target ctx s \<le> gas_limit ctx"
    using e by (simp add: gas_target_def) (smt (verit) div_by_1 zdiv_mono2)
  moreover have "0 < gas_target ctx s"
    using e by (simp add: gas_target_def pos_imp_zdiv_pos_iff)
  moreover have "0 \<le> min_price s"
    using bm by (simp add: min_price_def quo_nonneg dec_one_def)
  ultimately show ?thesis using bm e by (intro that [of b m]) (auto intro: uint_pos)
qed

lemma CalculateBaseFee_eq:
  assumes "fee_ready ctx s"
  shows "CalculateBaseFee ctx s = Ok (Some (next_base_fee (the (BaseFee (fee_GetParams s)))
      (uint (GetBlockGasWanted s)) (gas_target ctx s)
      (uint (BaseFeeChangeDenominator (fee_GetParams s))) (min_price s)))"
proof -
  obtain b m where f: "BaseFee (fee_GetParams s) = Some b" "0 \<le> b" "MinGasPrice (fee_GetParams s) = Some m" "0 \<le> m"
    "0 < gas_target ctx s" "gas_target ctx s \<le> MaxUint64" "0 < uint (BaseFeeChangeDenominator (fee_GetParams s))"
    "0 \<le> min_price s" by (rule fee_ready_facts [OF assms]) blast
  have d: "x div (gas_target ctx s * uint (BaseFeeChangeDenominator (fee_GetParams s)))
      = x div gas_target ctx s div uint (BaseFeeChangeDenominator (fee_GetParams s))" for x
    using f by (simp add: zdiv_zmult2_eq)
  show ?thesis
    using assms f
    by (auto simp: CalculateBaseFee_def fee_ready_def Let_def IsBaseFeeEnabled_def next_base_fee_def d
        gas_target_def [symmetric] min_price_def max.commute)
qed

text \<open>The fee moves by at most the \<open>denom\<close>-th part downwards, and never below zero.\<close>

lemma next_base_fee_lower:
  assumes "0 \<le> parent" "0 < target" "0 < denom" "0 \<le> used" "0 \<le> floor"
  shows "parent - parent div denom \<le> next_base_fee parent used target denom floor"
    and "0 \<le> next_base_fee parent used target denom floor"
proof -
  have "parent * (target - used) div (target * denom) \<le> parent div denom" if "used < target"
  proof -
    have "parent * (target - used) \<le> parent * target" using assms that by (intro mult_left_mono) auto
    then have "parent * (target - used) div (target * denom) \<le> parent * target div (target * denom)"
      using assms by (intro zdiv_mono1) auto
    also have "\<dots> = parent div denom" using assms by (simp add: mult.commute)
    finally show ?thesis .
  qed
  moreover have "parent div denom \<le> parent" using assms by (smt (verit) div_by_1 zdiv_mono2)
  moreover have "0 \<le> parent div denom" using assms by (simp add: pos_imp_zdiv_nonneg_iff)
  ultimately show "parent - parent div denom \<le> next_base_fee parent used target denom floor"
    "0 \<le> next_base_fee parent used target denom floor"
    using assms(1,5) by (auto simp: next_base_fee_def)
qed

text \<open>A parent block within \<open>e\<close> times its target raises the fee by at most \<open>(e - 1) / denom\<close> of it, or 1.\<close>

lemma next_base_fee_upper:
  assumes "0 \<le> parent" "0 < target" "0 < denom" "0 \<le> used" "used \<le> e * target" "1 \<le> e"
  shows "next_base_fee parent used target denom floor \<le> max (parent + max 1 (parent * (e - 1) div denom)) floor"
proof -
  have "parent * (used - target) div (target * denom) \<le> parent * (e - 1) div denom" if "target < used"
  proof -
    have "parent * (used - target) \<le> parent * ((e - 1) * target)"
      using assms by (intro mult_left_mono) (auto simp: algebra_simps)
    then have "parent * (used - target) div (target * denom) \<le> target * (parent * (e - 1)) div (target * denom)"
      using assms by (intro zdiv_mono1) (auto simp: algebra_simps)
    with assms show ?thesis by simp
  qed
  moreover have "0 \<le> parent * (target - used) div (target * denom)" if "used < target"
    using assms that by (intro pos_imp_zdiv_nonneg_iff [THEN iffD2]) auto
  ultimately show ?thesis by (auto simp: next_base_fee_def)
qed

lemma next_base_fee_mono:
  assumes "0 \<le> parent" "0 < target" "0 < denom" "floor \<le> parent" "used \<le> used'"
  shows "next_base_fee parent used target denom floor \<le> next_base_fee parent used' target denom floor"
proof -
  have d: "0 < target * denom" using assms by simp
  have up: "parent * (used - target) div (target * denom) \<le> parent * (used' - target) div (target * denom)"
    using assms d by (intro zdiv_mono1 mult_left_mono) auto
  have down: "parent * (target - used') div (target * denom) \<le> parent * (target - used) div (target * denom)"
    using assms d by (intro zdiv_mono1 mult_left_mono) auto
  have pos: "0 \<le> parent * (target - used) div (target * denom)" if "used \<le> target"
    using assms that d by (intro pos_imp_zdiv_nonneg_iff [THEN iffD2]) auto
  from up down pos assms(4,5) show ?thesis by (auto simp: next_base_fee_def)
qed


section \<open>Blocks\<close>

text \<open>
  The steps of a block over the fee market: the base fee at its beginning, the gas each transaction
  wants, the gas record at its end, and a change of parameters that passed its stateless check.
  \<open>params_fit\<close> says that the numbers of a parameter structure fit the types that hold them.
\<close>

definition params_fit :: "FeeParams \<Rightarrow> bool" where
  "params_fit p \<longleftrightarrow> int_fits (the (BaseFee p)) \<and> \<bar>the (MinGasPrice p)\<bar> < 2 ^ 315"

inductive fee_reach :: "fee_state \<Rightarrow> bool" where
  genesis: "fee_Validate (gen_Params g) = Ok () \<Longrightarrow> params_fit (gen_Params g) \<Longrightarrow>
     fee_reach (fee_InitGenesis g s)"
| begin_block: "fee_reach s \<Longrightarrow> fee_reach (snd (fee_BeginBlock ctx s))"
| want_gas: "fee_reach s \<Longrightarrow> fee_reach (snd (AddTransientGasWanted g s))"
| end_block: "fee_reach s \<Longrightarrow> fee_reach (snd (fee_EndBlock ctx s))"
| update_params:
    "fee_reach s \<Longrightarrow> fee_ValidateBasic isAddress authority p = Ok () \<Longrightarrow> params_fit p \<Longrightarrow>
     fee_reach (snd (fee_UpdateParams keeperAuthority authority p s))"

lemma marshal_valid [simp]: "fee_Validate p = Ok () \<Longrightarrow> marshal_params p = p"
  by (auto simp: fee_Validate_Ok marshal_params_def)

lemma fee_GetParams_transient [simp]:
  "fee_GetParams (SetTransientBlockGasWanted g s) = fee_GetParams s"
  by (simp add: fee_GetParams_def SetTransientBlockGasWanted_def)

lemma fee_GetParams_EndBlock [simp]: "fee_GetParams (snd (fee_EndBlock ctx s)) = fee_GetParams s"
  by (auto simp: fee_EndBlock_def Let_def split: option.splits)

lemma CalculateBaseFee_nonneg:
  assumes "fee_Validate (fee_GetParams s) = Ok ()" "CalculateBaseFee ctx s = Ok (Some b)"
  shows "0 \<le> b"
proof -
  let ?p = "fee_GetParams s"
  let ?t = "gas_limit ctx div uint (ElasticityMultiplier ?p)"
  let ?d = "uint (BaseFeeChangeDenominator ?p)" and ?u = "uint (GetBlockGasWanted s)"
  obtain x where x: "BaseFee ?p = Some x" "0 \<le> x" using assms(1) by (auto simp: fee_Validate_Ok)
  have down: "x * (?t - ?u) div ?t div ?d \<le> x" if "?u < ?t"
  proof -
    have t: "0 < ?t" using that uint_ge_0 [of "GetBlockGasWanted s"] by linarith
    have "x * (?t - ?u) div ?t \<le> x * ?t div ?t" using x t by (intro zdiv_mono1 mult_left_mono) auto
    moreover have "0 \<le> x * (?t - ?u) div ?t" using x t that by (intro pos_imp_zdiv_nonneg_iff [THEN iffD2]) auto
    moreover have "0 < ?d" using assms(1) by (auto simp: fee_Validate_Ok intro: uint_pos)
    ultimately show ?thesis using t by (smt (verit) div_by_1 zdiv_mono2 nonzero_mult_div_cancel_right)
  qed
  with assms x show ?thesis
    by (auto simp: CalculateBaseFee_def Let_def split: if_splits option.splits)
qed

lemma SetBaseFee_cases:
  assumes "fee_Validate (fee_GetParams s) = Ok ()" "0 \<le> b"
  shows "SetBaseFee b s =
     (if b < 2 ^ 256 then (Ok (), s\<lparr>fee_params := Some ((fee_GetParams s)\<lparr>BaseFee := Some b\<rparr>)\<rparr>)
      else (Panic, s))"
    and "fee_Validate ((fee_GetParams s)\<lparr>BaseFee := Some b\<rparr>) = Ok ()"
proof -
  show v: "fee_Validate ((fee_GetParams s)\<lparr>BaseFee := Some b\<rparr>) = Ok ()"
    using assms by (auto simp: fee_Validate_Ok)
  from marshal_valid [OF v] assms(2) show "SetBaseFee b s =
     (if b < 2 ^ 256 then (Ok (), s\<lparr>fee_params := Some ((fee_GetParams s)\<lparr>BaseFee := Some b\<rparr>)\<rparr>)
      else (Panic, s))"
    by (simp add: SetBaseFee_def int_fits_def fee_SetParams_def)
qed

lemma fee_BeginBlock_valid:
  assumes "fee_Validate (fee_GetParams s) = Ok ()" "params_fit (fee_GetParams s)"
  shows "fee_Validate (fee_GetParams (snd (fee_BeginBlock ctx s))) = Ok () \<and>
    params_fit (fee_GetParams (snd (fee_BeginBlock ctx s)))"
proof (cases "\<exists>b. CalculateBaseFee ctx s = Ok (Some b)")
  case True
  then obtain b where b: "CalculateBaseFee ctx s = Ok (Some b)" by blast
  note n = CalculateBaseFee_nonneg [OF assms(1) b]
  from b assms SetBaseFee_cases [OF assms(1) n] n show ?thesis
    by (simp add: fee_BeginBlock_def fee_GetParams_def params_fit_def int_fits_def)
next
  case False
  with assms show ?thesis by (auto simp: fee_BeginBlock_def split: outcome.splits option.splits)
qed

lemma fee_reach_fits: "fee_reach s \<Longrightarrow> fee_Validate (fee_GetParams s) = Ok () \<and> params_fit (fee_GetParams s)"
proof (induction rule: fee_reach.induct)
  case (genesis g s)
  then show ?case by (simp add: fee_InitGenesis_def)
next
  case (begin_block s ctx)
  then show ?case by (simp add: fee_BeginBlock_valid)
next
  case (want_gas s g)
  then show ?case by (simp add: AddTransientGasWanted_def Let_def)
next
  case (end_block s ctx)
  then show ?case by simp
next
  case (update_params s isAddress authority p keeperAuthority)
  then show ?case by (auto simp: fee_UpdateParams_def fee_ValidateBasic_def split: if_splits)
qed

lemmas fee_reach_valid = fee_reach_fits [THEN conjunct1]

lemma CalculateBaseFee_panics:
  assumes "fee_Validate (fee_GetParams s) = Ok ()"
  shows "CalculateBaseFee ctx s = Panic \<longleftrightarrow>
     \<not> NoBaseFee (fee_GetParams s) \<and> EnableHeight (fee_GetParams s) < BlockHeight ctx \<and>
     (ElasticityMultiplier (fee_GetParams s) = 0 \<or>
      gas_limit ctx < uint (ElasticityMultiplier (fee_GetParams s)) \<and> GetBlockGasWanted s \<noteq> 0)"
proof -
  let ?e = "uint (ElasticityMultiplier (fee_GetParams s))"
  note l = gas_limit_bounds [of ctx]
  have z: "gas_limit ctx div ?e = 0 \<longleftrightarrow> gas_limit ctx < ?e" if "ElasticityMultiplier (fee_GetParams s) \<noteq> 0"
    using l uint_pos [OF that] by (smt (verit) div_pos_pos_trivial pos_imp_zdiv_pos_iff)
  have b: "gas_limit ctx div ?e \<le> gas_limit ctx" "0 \<le> gas_limit ctx div ?e"
    if "ElasticityMultiplier (fee_GetParams s) \<noteq> 0"
    using l uint_pos [OF that] by (smt (verit) div_by_1 zdiv_mono2, simp add: pos_imp_zdiv_nonneg_iff)
  have u: "0 \<le> uint (GetBlockGasWanted s)" "0 \<le> MaxUint64" by (simp_all add: MaxUint64_def)
  show ?thesis
    using assms z b u l
    by (auto simp: CalculateBaseFee_def IsBaseFeeEnabled_def fee_Validate_Ok Let_def uint_0_iff
        split: if_splits)
qed

text \<open>Outside the computation from the parent block the fee stays the stored one.\<close>

lemma CalculateBaseFee_stored:
  assumes "fee_Validate (fee_GetParams s) = Ok ()" "\<not> fee_ready ctx s"
    and "CalculateBaseFee ctx s = Ok (Some b)"
  shows "BaseFee (fee_GetParams s) = Some b"
proof -
  have "ElasticityMultiplier (fee_GetParams s) \<noteq> 0 \<Longrightarrow>
      gas_limit ctx < uint (ElasticityMultiplier (fee_GetParams s)) \<Longrightarrow>
      gas_limit ctx div uint (ElasticityMultiplier (fee_GetParams s)) = 0"
    using gas_limit_bounds [of ctx] by (simp add: div_pos_pos_trivial)
  with assms show ?thesis
    by (auto simp: CalculateBaseFee_def fee_ready_def IsBaseFeeEnabled_def Let_def
        split: if_splits option.splits)
qed

definition block_base_fee :: "fee_ctx \<Rightarrow> fee_state \<Rightarrow> int" where
  "block_base_fee ctx s = next_base_fee (the (BaseFee (fee_GetParams s))) (uint (GetBlockGasWanted s))
     (gas_target ctx s) (uint (BaseFeeChangeDenominator (fee_GetParams s))) (min_price s)"

lemma fee_BeginBlock_ready:
  assumes "fee_ready ctx s"
  shows "fee_BeginBlock ctx s =
     (if block_base_fee ctx s < 2 ^ 256
      then (Ok (), s\<lparr>fee_params := Some ((fee_GetParams s)\<lparr>BaseFee := Some (block_base_fee ctx s)\<rparr>)\<rparr>)
      else (Panic, s))"
proof -
  have v: "fee_Validate (fee_GetParams s) = Ok ()" using assms by (simp add: fee_ready_def Let_def)
  have c: "CalculateBaseFee ctx s = Ok (Some (block_base_fee ctx s))"
    using CalculateBaseFee_eq [OF assms] by (simp add: block_base_fee_def)
  from c SetBaseFee_cases(1) [OF v CalculateBaseFee_nonneg [OF v c]] show ?thesis
    by (simp add: fee_BeginBlock_def)
qed

lemma fee_BeginBlock_panics:
  assumes "fee_Validate (fee_GetParams s) = Ok ()" "params_fit (fee_GetParams s)"
  shows "fst (fee_BeginBlock ctx s) = Panic \<longleftrightarrow>
     \<not> NoBaseFee (fee_GetParams s) \<and> EnableHeight (fee_GetParams s) < BlockHeight ctx \<and>
     (ElasticityMultiplier (fee_GetParams s) = 0 \<or>
      gas_limit ctx < uint (ElasticityMultiplier (fee_GetParams s)) \<and> GetBlockGasWanted s \<noteq> 0 \<or>
      uint (ElasticityMultiplier (fee_GetParams s)) \<le> gas_limit ctx \<and> 2 ^ 256 \<le> block_base_fee ctx s)"
proof (cases "fee_ready ctx s")
  case True
  then show ?thesis
    by (simp only: fee_BeginBlock_ready [OF True]) (auto simp: fee_ready_def Let_def split: if_splits)
next
  case False
  have "fst (fee_BeginBlock ctx s) = Panic \<longleftrightarrow> CalculateBaseFee ctx s = Panic"
    using CalculateBaseFee_stored [OF assms(1) False] assms(2)
    by (auto simp: fee_BeginBlock_def SetBaseFee_def params_fit_def split: outcome.splits option.splits)
  moreover have "ElasticityMultiplier (fee_GetParams s) = 0 \<or> \<not> uint (ElasticityMultiplier (fee_GetParams s)) \<le> gas_limit ctx"
    if "\<not> NoBaseFee (fee_GetParams s)" "EnableHeight (fee_GetParams s) < BlockHeight ctx"
    using False assms(1) that by (auto simp: fee_ready_def Let_def)
  ultimately show ?thesis using CalculateBaseFee_panics [OF assms(1), of ctx] by blast
qed

lemma fee_EndBlock_Ok:
  assumes "fee_Validate (fee_GetParams s) = Ok ()" "GasConsumedToLimit ctx = Some used"
    and "is_int64 (uint (GetTransientGasWanted s))" "is_int64 (uint used)"
  shows "fee_EndBlock ctx s = (Ok (), SetBlockGasWanted (of_int
     (max (uint (GetTransientGasWanted s) * the (MinGasMultiplier (fee_GetParams s)) div dec_one) (uint used))) s)"
proof -
  obtain m where m: "MinGasMultiplier (fee_GetParams s) = Some m" "0 \<le> m" "m \<le> dec_one"
    using assms(1) by (auto simp: fee_Validate_Ok)
  let ?w = "uint (GetTransientGasWanted s)"
  have d: "0 < dec_one" by (simp add: dec_one_def)
  have "quo (max (?w * m) (uint used * dec_one)) dec_one = max (?w * m) (uint used * dec_one) div dec_one"
    using m d by (intro quo_nonneg) (auto simp: le_max_iff_disj)
  also have "\<dots> = max (?w * m div dec_one) (uint used)"
  proof (cases "?w * m \<le> uint used * dec_one")
    case True
    then have "?w * m div dec_one \<le> uint used" using zdiv_mono1 [OF True d] d by simp
    with True d show ?thesis by (simp add: max_def)
  next
    case False
    then have "uint used \<le> ?w * m div dec_one"
      using zdiv_mono1 [of "uint used * dec_one" "?w * m" dec_one] d by simp
    with False show ?thesis by (simp add: max_def)
  qed
  finally have q: "quo (max (?w * m) (uint used * dec_one)) dec_one = max (?w * m div dec_one) (uint used)" .
  have "?w * m div dec_one \<le> ?w * dec_one div dec_one" using m d by (intro zdiv_mono1 mult_left_mono) auto
  then have le: "?w * m div dec_one \<le> MaxUint64" "uint used \<le> MaxUint64"
    using assms(3,4) d by (auto simp: MaxUint64_def is_int64_def)
  have "0 \<le> uint used" by simp
  then have "0 \<le> max (?w * m div dec_one) (uint used)" by (rule max.coboundedI2)
  with assms m q le show ?thesis by (simp add: fee_EndBlock_def)
qed

lemma fee_EndBlock_error:
  "fst (fee_EndBlock ctx s) \<noteq> Ok () \<Longrightarrow> snd (fee_EndBlock ctx s) = s"
  by (auto simp: fee_EndBlock_def Let_def split: option.splits)

lemma fee_share_le:
  assumes "0 \<le> w" "0 \<le> m" "m \<le> d" "0 < d"
  shows "w * m div d \<le> (w::int)"
proof -
  have "w * m div d \<le> w * d div d" using assms by (intro zdiv_mono1 mult_left_mono) auto
  with assms(4) show ?thesis by simp
qed

lemma uint_of_int_max:
  fixes w used :: "64 word"
  assumes "0 \<le> x" "x \<le> uint w"
  shows "uint (of_int (max x (uint used)) :: 64 word) = max x (uint used)"
proof -
  have "max x (uint used) < 2 ^ 64" "0 \<le> max x (uint used)"
    using assms uint_lt2p [of w] uint_lt2p [of used] by auto
  then show ?thesis by (simp add: uint_word_of_int)
qed

end
