(* ===== verification/FeeProps.thy ===== *)
theory FeeProps
  imports FeeMarket
begin

text \<open>
  What the fee market guarantees: the base fee rule, its bounds and monotonicity, when a block can
  begin, the gas record a block leaves, and genesis.
\<close>

section \<open>A sample\<close>

definition fee_sample :: fee_state where
  "fee_sample = SetBlockGasWanted 30 (fee_InitGenesis fee_DefaultGenesis
     \<lparr>fee_params = None, blockGasWanted = None, transientGasWanted = None, baseFeeV1 = None\<rparr>)"

definition fee_sample_ctx :: fee_ctx where
  "fee_sample_ctx = \<lparr>BlockHeight = 5, MaxGas = Some 40, GasConsumedToLimit = Some 21\<rparr>"

lemma fee_sample_params [simp]: "fee_GetParams fee_sample = fee_DefaultParams"
  by (simp add: fee_sample_def fee_InitGenesis_def fee_DefaultGenesis_def fee_DefaultParams_def marshal_params_def)

lemma fee_sample_gas [simp]: "GetBlockGasWanted fee_sample = 30"
  by (simp add: fee_sample_def)

lemma fee_default_valid [simp]: "fee_Validate fee_DefaultParams = Ok ()"
  by (simp add: fee_Validate_Ok fee_DefaultParams_def dec_one_def)

lemma fee_sample_ready: "fee_ready fee_sample_ctx fee_sample"
  by (simp add: fee_ready_def Let_def) (simp add: fee_DefaultParams_def fee_sample_ctx_def gas_limit_def MaxUint64_def)

lemma fee_sample_fee: "block_base_fee fee_sample_ctx fee_sample = 1062500000"
  by (simp add: block_base_fee_def next_base_fee_def gas_target_def min_price_def fee_sample_ctx_def gas_limit_def
      fee_DefaultParams_def quo_def)

lemma fee_sample_reach: "fee_reach fee_sample"
proof -
  have "fee_sample = fee_InitGenesis \<lparr>gen_Params = fee_DefaultParams, gen_BlockGas = 30\<rparr>
     \<lparr>fee_params = None, blockGasWanted = None, transientGasWanted = None, baseFeeV1 = None\<rparr>"
    by (simp add: fee_sample_def fee_InitGenesis_def fee_DefaultGenesis_def SetBlockGasWanted_def fee_SetParams_def)
  moreover have "fee_reach (fee_InitGenesis \<lparr>gen_Params = fee_DefaultParams, gen_BlockGas = 30\<rparr>
     \<lparr>fee_params = None, blockGasWanted = None, transientGasWanted = None, baseFeeV1 = None\<rparr>)"
    by (rule fee_reach.genesis) (simp_all add: params_fit_def int_fits_def fee_DefaultParams_def [THEN arg_cong, of BaseFee]
      fee_DefaultParams_def [THEN arg_cong, of MinGasPrice])
  ultimately show ?thesis by metis
qed


section \<open>The base fee\<close>

text \<open>
  C5: the base fee rule.  Take validated parameters, the fee in force (\<open>NoBaseFee\<close> unset), a height
  past the enabling height, and an elasticity of at least one and at most the block's gas limit.  Then
  the block hook computes the EIP-1559 function of the parent's fee, the gas the parent block wanted
  and the target.  A result below \<open>2 ^ 256\<close> is stored as the base fee and nothing else changes; a
  larger one, which no \<open>Int\<close> holds, makes the hook panic.
\<close>

theorem begin_block_base_fee:
  assumes "fee_ready ctx s"
  shows "fee_BeginBlock ctx s =
     (let b = next_base_fee (the (BaseFee (fee_GetParams s))) (uint (GetBlockGasWanted s))
            (gas_target ctx s) (uint (BaseFeeChangeDenominator (fee_GetParams s))) (min_price s)
      in if b < 2 ^ 256
         then (Ok (), s\<lparr>fee_params := Some ((fee_GetParams s)\<lparr>BaseFee := Some b\<rparr>)\<rparr>)
         else (Panic, s))"
  using fee_BeginBlock_ready [OF assms] by (simp only: block_base_fee_def Let_def)

theorem begin_block_base_fee_witness:
  "fee_ready fee_sample_ctx fee_sample \<and> fst (fee_BeginBlock fee_sample_ctx fee_sample) = Ok () \<and>
   BaseFee (fee_GetParams (snd (fee_BeginBlock fee_sample_ctx fee_sample))) = Some 1062500000"
proof -
  have "fee_BeginBlock fee_sample_ctx fee_sample = (Ok (), fee_sample\<lparr>fee_params := Some (fee_DefaultParams\<lparr>BaseFee :=
      Some (next_base_fee 1000000000 30 20 8 0)\<rparr>)\<rparr>)"
    using begin_block_base_fee [OF fee_sample_ready]
    by (simp add: gas_target_def min_price_def fee_sample_ctx_def gas_limit_def fee_DefaultParams_def quo_def
        next_base_fee_def)
  then show ?thesis
    using fee_sample_ready by (simp add: next_base_fee_def) (simp add: fee_GetParams_def)
qed

text \<open>
  C23: bounds on the base fee.  In a block whose fee is computed from its parent (validated parameters,
  fee in force, past the enabling height, elasticity between one and the gas limit) and whose hook
  succeeds, the fee falls by at most its share by the change denominator and never below zero; and when
  the gas the parent block wanted is at most elasticity times the target, it rises to at most the larger
  of the minimum price and the parent's fee plus one unit or \<open>elasticity - 1\<close> such shares.
\<close>

theorem base_fee_step_bounds:
  assumes "fee_ready ctx s"
    and "fee_BeginBlock ctx s = (Ok (), t)"
    and "BaseFee (fee_GetParams s) = Some parent"
    and "d = uint (BaseFeeChangeDenominator (fee_GetParams s))"
    and "e = uint (ElasticityMultiplier (fee_GetParams s))"
  shows "\<exists>b. BaseFee (fee_GetParams t) = Some b \<and> 0 \<le> b \<and> parent - parent div d \<le> b \<and>
    (uint (GetBlockGasWanted s) \<le> e * gas_target ctx s \<longrightarrow>
      b \<le> max (parent + max 1 (parent * (e - 1) div d)) (min_price s))"
proof -
  have f: "0 \<le> parent" "0 < gas_target ctx s" "0 < d" "0 \<le> min_price s"
    using fee_ready_facts [OF assms(1)] assms(3,4) by (metis option.inject)+
  have e: "1 \<le> e" using assms(1,5) uint_pos [of "ElasticityMultiplier (fee_GetParams s)"]
    by (auto simp: fee_ready_def Let_def)
  let ?b = "next_base_fee parent (uint (GetBlockGasWanted s)) (gas_target ctx s) d (min_price s)"
  have "BaseFee (fee_GetParams t) = Some ?b"
    using fee_BeginBlock_ready [OF assms(1)] assms(2,3,4)
    by (auto simp: block_base_fee_def fee_GetParams_def split: if_splits)
  with next_base_fee_lower [OF f(1-3) _ f(4), of "uint (GetBlockGasWanted s)"]
    next_base_fee_upper [OF f(1-3) _ _ e, of "uint (GetBlockGasWanted s)" "min_price s"]
  show ?thesis by simp
qed

theorem base_fee_step_bounds_witness:
  "\<exists>b t. fee_BeginBlock fee_sample_ctx fee_sample = (Ok (), t) \<and> BaseFee (fee_GetParams t) = Some b \<and>
     875000000 \<le> b \<and> b \<le> 1125000000"
proof -
  obtain t where t: "fee_BeginBlock fee_sample_ctx fee_sample = (Ok (), t)"
    using fee_BeginBlock_ready [OF fee_sample_ready] by (simp add: fee_sample_fee)
  have g: "gas_target fee_sample_ctx fee_sample = 20" "min_price fee_sample = 0"
    by (simp_all add: gas_target_def min_price_def fee_sample_ctx_def gas_limit_def fee_DefaultParams_def quo_def)
  from base_fee_step_bounds [OF fee_sample_ready t, of 1000000000 8 2] g t show ?thesis
    by (auto simp: fee_DefaultParams_def)
qed

text \<open>
  C24: more gas, no lower fee.  In a block whose fee is computed from its parent (validated parameters,
  fee in force, past the enabling height, elasticity between one and the gas limit) and whose parent's
  fee is at least the minimum price, the fee computed for a parent block that wanted more gas is at
  least the fee computed for one that wanted less.
\<close>

theorem base_fee_monotone:
  assumes "fee_ready ctx s" "g \<le> g'"
    and "BaseFee (fee_GetParams s) = Some parent" "min_price s \<le> parent"
    and "CalculateBaseFee ctx (SetBlockGasWanted g s) = Ok (Some b)"
    and "CalculateBaseFee ctx (SetBlockGasWanted g' s) = Ok (Some b')"
  shows "b \<le> b'"
proof -
  have r: "fee_ready ctx (SetBlockGasWanted x s)" for x using assms(1) by (simp add: fee_ready_def)
  have p: "gas_target ctx (SetBlockGasWanted x s) = gas_target ctx s" "min_price (SetBlockGasWanted x s) = min_price s"
    for x by (simp_all add: gas_target_def min_price_def)
  have "0 \<le> parent" "0 < gas_target ctx s" "0 < uint (BaseFeeChangeDenominator (fee_GetParams s))"
    using fee_ready_facts [OF assms(1)] assms(3) by (metis option.inject)+
  from next_base_fee_mono [OF this assms(4), of "uint g" "uint g'"] assms(2,3,5,6)
  show ?thesis by (simp add: CalculateBaseFee_eq [OF r] p word_le_def)
qed

theorem base_fee_monotone_witness:
  "\<exists>b b'. CalculateBaseFee fee_sample_ctx (SetBlockGasWanted 10 fee_sample) = Ok (Some b) \<and>
     CalculateBaseFee fee_sample_ctx (SetBlockGasWanted 30 fee_sample) = Ok (Some b') \<and> b \<le> b'"
proof -
  have r: "fee_ready fee_sample_ctx (SetBlockGasWanted x fee_sample)" for x
    using fee_sample_ready by (simp add: fee_ready_def)
  have "BaseFee (fee_GetParams fee_sample) = Some 1000000000" "min_price fee_sample \<le> 1000000000"
    by (simp_all add: min_price_def fee_DefaultParams_def quo_def)
  from base_fee_monotone [OF fee_sample_ready _ this CalculateBaseFee_eq [OF r] CalculateBaseFee_eq [OF r], of 10 30]
  show ?thesis by (auto simp: CalculateBaseFee_eq [OF r])
qed


section \<open>Blocks\<close>

text \<open>
  C25: when a block cannot begin.  In every state reached from a validated genesis by blocks, gas
  requests and validated parameter changes the parameters are valid, and the fee market's block hook
  panics exactly when the fee is in force, its enabling height has passed, and one of three things
  holds: the elasticity multiplier is zero, which validation accepts; it exceeds the block's gas limit
  while the last block wanted gas; or the fee the rule computes needs more than 256 bits.
\<close>

theorem begin_block_panics_exactly:
  assumes "fee_reach s"
  shows "fee_Validate (fee_GetParams s) = Ok () \<and>
    (fst (fee_BeginBlock ctx s) = Panic \<longleftrightarrow>
       \<not> NoBaseFee (fee_GetParams s) \<and> EnableHeight (fee_GetParams s) < BlockHeight ctx \<and>
       (ElasticityMultiplier (fee_GetParams s) = 0 \<or>
        gas_limit ctx < uint (ElasticityMultiplier (fee_GetParams s)) \<and> GetBlockGasWanted s \<noteq> 0 \<or>
        uint (ElasticityMultiplier (fee_GetParams s)) \<le> gas_limit ctx \<and>
        2 ^ 256 \<le> next_base_fee (the (BaseFee (fee_GetParams s))) (uint (GetBlockGasWanted s))
            (gas_target ctx s) (uint (BaseFeeChangeDenominator (fee_GetParams s))) (min_price s)))"
  using fee_reach_fits [OF assms] fee_BeginBlock_panics [of s ctx, unfolded block_base_fee_def] by blast

theorem begin_block_panics_exactly_witness:
  "\<exists>s. fee_reach s \<and> fee_Validate (fee_GetParams s) = Ok () \<and> fst (fee_BeginBlock fee_sample_ctx s) = Panic"
proof -
  let ?p = "fee_DefaultParams\<lparr>ElasticityMultiplier := 0\<rparr>"
  have v: "fee_Validate ?p = Ok ()" by (simp add: fee_Validate_Ok fee_DefaultParams_def dec_one_def)
  have "fee_reach (snd (fee_UpdateParams ''gov'' ''gov'' ?p fee_sample))"
    using fee_reach.update_params [OF fee_sample_reach, of "\<lambda>_. True"] v
    by (simp add: fee_ValidateBasic_def params_fit_def int_fits_def fee_DefaultParams_def)
  then have r: "fee_reach (fee_SetParams ?p fee_sample)" by (simp add: fee_UpdateParams_def)
  from begin_block_panics_exactly [OF r] r v show ?thesis
    by (intro exI [of _ "fee_SetParams ?p fee_sample"]) (auto simp: fee_DefaultParams_def fee_sample_ctx_def)
qed

text \<open>
  C26: the gas record of a block.  In every reachable state, with a gas meter and both counters within
  63 bits, the end of a block stores the larger of the gas consumed and the multiplier's share of the
  gas wanted; in every other case an error leaves the state as it was, and nothing ever panics.
\<close>

theorem end_block_gas_record:
  assumes "fee_reach s"
  shows "fst (fee_EndBlock ctx s) \<noteq> Panic \<and>
    (case GasConsumedToLimit ctx of
       None \<Rightarrow> fee_EndBlock ctx s = (Err ErrNoGasMeter, s)
     | Some used \<Rightarrow>
         if is_int64 (uint (GetTransientGasWanted s)) \<and> is_int64 (uint used)
         then fst (fee_EndBlock ctx s) = Ok () \<and>
           uint (GetBlockGasWanted (snd (fee_EndBlock ctx s))) =
             max (uint (GetTransientGasWanted s) * the (MinGasMultiplier (fee_GetParams s)) div dec_one) (uint used) \<and>
           fee_GetParams (snd (fee_EndBlock ctx s)) = fee_GetParams s
         else (\<exists>e. fee_EndBlock ctx s = (Err e, s)))"
proof (cases "GasConsumedToLimit ctx")
  case None
  then show ?thesis by (simp add: fee_EndBlock_def)
next
  case (Some used)
  let ?w = "uint (GetTransientGasWanted s)"
  show ?thesis
  proof (cases "is_int64 ?w \<and> is_int64 (uint used)")
    case True
    note v = fee_reach_valid [OF assms]
    have le: "?w * the (MinGasMultiplier (fee_GetParams s)) div dec_one \<le> ?w"
      "0 \<le> ?w * the (MinGasMultiplier (fee_GetParams s)) div dec_one"
      using v by (auto simp: fee_Validate_Ok dec_one_def pos_imp_zdiv_nonneg_iff
          intro: fee_share_le)
    then show ?thesis
      using True Some fee_EndBlock_Ok [OF v Some] le
      by (auto simp: uint_of_int_max)
  next
    case False
    with Some show ?thesis by (auto simp: fee_EndBlock_def Let_def)
  qed
qed

theorem end_block_gas_record_witness:
  "fee_reach fee_sample \<and> fst (fee_EndBlock fee_sample_ctx fee_sample) = Ok () \<and>
   GetBlockGasWanted (snd (fee_EndBlock fee_sample_ctx fee_sample)) = 21"
proof -
  have "GetTransientGasWanted fee_sample = 0"
    by (simp add: fee_sample_def fee_InitGenesis_def GetTransientGasWanted_def SetBlockGasWanted_def
        fee_SetParams_def u64_or_zero_def)
  then have "uint (GetBlockGasWanted (snd (fee_EndBlock fee_sample_ctx fee_sample))) = 21"
    "fst (fee_EndBlock fee_sample_ctx fee_sample) = Ok ()"
    using end_block_gas_record [OF fee_sample_reach, of fee_sample_ctx]
    by (simp_all add: fee_sample_ctx_def is_int64_def)
  with fee_sample_reach show ?thesis by (auto simp: word_uint_eq_iff)
qed

text \<open>
  Genesis.  Exporting what a validated genesis initialised returns that genesis, and the default
  genesis is valid.
\<close>

lemma fee_genesis_roundtrip:
  assumes "fee_Validate (gen_Params g) = Ok ()"
  shows "fee_ExportGenesis (fee_InitGenesis g s) = g \<and> fee_Validate (gen_Params fee_DefaultGenesis) = Ok ()"
  using assms by (simp add: fee_ExportGenesis_def fee_InitGenesis_def fee_DefaultGenesis_def)

end
