(* ===== verification/ResourceNames.thy ===== *)
theory ResourceNames
  imports Prelude
begin

text \<open>
  Names of stored resources: the validity checks of bucket, object and group names
  (\<open>types/s3util/s3util.go\<close>) and the resource names \<open>GRN\<close> (\<open>types/grn.go\<close>) with their parser and printer.

  A Go string is a list of bytes, so a \<open>char\<close> is a byte.  The fixed regular expressions of both files
  are written out over the bytes; the functions of the \<open>strings\<close> and \<open>utf8\<close> packages the code calls
  come first.  Parsing and printing of addresses belongs to the SDK and is a parameter.
\<close>

section \<open>Strings\<close>

fun split_on :: "char \<Rightarrow> string \<Rightarrow> string list" where
  "split_on c [] = [[]]"
| "split_on c (x # xs) =
     (if x = c then [] # split_on c xs
      else (case split_on c xs of [] \<Rightarrow> [[x]] | p # ps \<Rightarrow> (x # p) # ps))"

fun join_with :: "char \<Rightarrow> string list \<Rightarrow> string" where
  "join_with c [] = []"
| "join_with c [p] = p"
| "join_with c (p # ps) = p @ c # join_with c ps"

fun has_prefix :: "string \<Rightarrow> string \<Rightarrow> bool" where
  "has_prefix [] s = True"
| "has_prefix (p # ps) [] = False"
| "has_prefix (p # ps) (x # xs) \<longleftrightarrow> p = x \<and> has_prefix ps xs"

fun contains_str :: "string \<Rightarrow> string \<Rightarrow> bool" where
  "contains_str p [] \<longleftrightarrow> p = []"
| "contains_str p (x # xs) \<longleftrightarrow> has_prefix p (x # xs) \<or> contains_str p xs"

definition code_of :: "char \<Rightarrow> nat" where
  "code_of c = of_char c"

text \<open>The encodings of the white space characters of Unicode, which \<open>strings.TrimSpace\<close> removes.\<close>

definition space_codes :: "nat list list" where
  "space_codes =
     [[9], [10], [11], [12], [13], [32], [0xC2, 0x85], [0xC2, 0xA0], [0xE1, 0x9A, 0x80],
      [0xE2, 0x80, 0x80], [0xE2, 0x80, 0x81], [0xE2, 0x80, 0x82], [0xE2, 0x80, 0x83],
      [0xE2, 0x80, 0x84], [0xE2, 0x80, 0x85], [0xE2, 0x80, 0x86], [0xE2, 0x80, 0x87],
      [0xE2, 0x80, 0x88], [0xE2, 0x80, 0x89], [0xE2, 0x80, 0x8A], [0xE2, 0x80, 0xA8],
      [0xE2, 0x80, 0xA9], [0xE2, 0x80, 0xAF], [0xE2, 0x81, 0x9F], [0xE3, 0x80, 0x80]]"

definition space_prefix :: "nat list list \<Rightarrow> string \<Rightarrow> nat" where
  "space_prefix codes s =
     (case find (\<lambda>cs. take (length cs) (map code_of s) = cs) codes of None \<Rightarrow> 0 | Some cs \<Rightarrow> length cs)"

function trim_left :: "nat list list \<Rightarrow> string \<Rightarrow> string" where
  "trim_left codes s =
     (let n = space_prefix codes s in if n = 0 \<or> s = [] then s else trim_left codes (drop n s))"
  by pat_completeness auto
termination
  by (relation "measure (\<lambda>(codes, s). length s)") auto

declare trim_left.simps [simp del]

definition TrimSpace :: "string \<Rightarrow> string" where
  "TrimSpace s = rev (trim_left (map rev space_codes) (rev (trim_left space_codes s)))"

text \<open>\<open>utf8.ValidString\<close>: the first byte fixes the length and the range of the second byte.\<close>

definition continuation :: "char \<Rightarrow> bool" where
  "continuation c \<longleftrightarrow> 0x80 \<le> code_of c \<and> code_of c \<le> 0xBF"

definition second_range :: "nat \<Rightarrow> nat \<times> nat" where
  "second_range b =
     (if b = 0xE0 then (0xA0, 0xBF) else if b = 0xED then (0x80, 0x9F)
      else if b = 0xF0 then (0x90, 0xBF) else if b = 0xF4 then (0x80, 0x8F)
      else (0x80, 0xBF))"

definition second_ok :: "char \<Rightarrow> char \<Rightarrow> bool" where
  "second_ok b c \<longleftrightarrow> fst (second_range (code_of b)) \<le> code_of c \<and> code_of c \<le> snd (second_range (code_of b))"

fun utf8_valid :: "string \<Rightarrow> bool" where
  "utf8_valid [] = True"
| "utf8_valid (b # s) =
     (if code_of b < 0x80 then utf8_valid s
      else if 0xC2 \<le> code_of b \<and> code_of b \<le> 0xDF then
        (case s of c1 # s' \<Rightarrow> continuation c1 \<and> utf8_valid s' | _ \<Rightarrow> False)
      else if 0xE0 \<le> code_of b \<and> code_of b \<le> 0xEF then
        (case s of c1 # c2 # s' \<Rightarrow> second_ok b c1 \<and> continuation c2 \<and> utf8_valid s' | _ \<Rightarrow> False)
      else if 0xF0 \<le> code_of b \<and> code_of b \<le> 0xF4 then
        (case s of c1 # c2 # c3 # s' \<Rightarrow> second_ok b c1 \<and> continuation c2 \<and> continuation c3 \<and> utf8_valid s' | _ \<Rightarrow> False)
      else False)"

text \<open>\<open>strings.EqualFold\<close> on strings of ASCII letters, as hexadecimal addresses are.\<close>

definition lower_char :: "char \<Rightarrow> char" where
  "lower_char c = (if 65 \<le> code_of c \<and> code_of c \<le> 90 then char_of (code_of c + 32) else c)"

definition EqualFold :: "string \<Rightarrow> string \<Rightarrow> bool" where
  "EqualFold s t \<longleftrightarrow> map lower_char s = map lower_char t"


section \<open>Names\<close>

datatype name_error =
    ErrInvalidBucketName string
  | ErrInvalidObjectName string
  | ErrInvalidGroupName string
  | ErrInvalidChecksum
  | ErrBadGRN string
  | ErrGRNMismatch

definition is_lower_digit :: "char \<Rightarrow> bool" where
  "is_lower_digit c \<longleftrightarrow> 97 \<le> code_of c \<and> code_of c \<le> 122 \<or> 48 \<le> code_of c \<and> code_of c \<le> 57"

definition is_digit :: "char \<Rightarrow> bool" where
  "is_digit c \<longleftrightarrow> 48 \<le> code_of c \<and> code_of c \<le> 57"

definition dot :: char where
  "dot = CHR ''.''"

text \<open>\<open>^[a-z0-9][a-z0-9\.\-]{1,61}[a-z0-9]$\<close>\<close>

definition validBucketName :: "string \<Rightarrow> bool" where
  "validBucketName s \<longleftrightarrow>
     3 \<le> length s \<and> length s \<le> 63 \<and> is_lower_digit (hd s) \<and> is_lower_digit (last s) \<and>
     list_all (\<lambda>c. is_lower_digit c \<or> c = dot \<or> c = CHR ''-'') (butlast (tl s))"

text \<open>\<open>^(\d+\.){3}\d+$\<close>\<close>

definition ipAddress :: "string \<Rightarrow> bool" where
  "ipAddress s \<longleftrightarrow>
     length (split_on dot s) = 4 \<and> list_all (\<lambda>p. p \<noteq> [] \<and> list_all is_digit p) (split_on dot s)"

definition CheckValidBucketName :: "string \<Rightarrow> name_error option" where
  "CheckValidBucketName s =
     (if s = [] \<or> TrimSpace s = [] then Some (ErrInvalidBucketName ''Bucket name cannot be empty'')
      else if length s < 3 then Some (ErrInvalidBucketName ''Bucket name cannot be shorter than 3 bytes'')
      else if 63 < length s then Some (ErrInvalidBucketName ''Bucket name cannot be longer than 63 bytes'')
      else if ipAddress s then Some (ErrInvalidBucketName ''Bucket name cannot be an ip address'')
      else if contains_str ''..'' s \<or> contains_str ''.-'' s \<or> contains_str ''-.'' s
      then Some (ErrInvalidBucketName ''Bucket name contains invalid characters'')
      else if \<not> validBucketName s then Some (ErrInvalidBucketName ''Bucket name contains invalid characters'')
      else None)"

definition hasBadPathComponent :: "string \<Rightarrow> bool" where
  "hasBadPathComponent path =
     list_ex (\<lambda>p. TrimSpace p = ''..'' \<or> TrimSpace p = ''.'') (split_on CHR ''/'' (TrimSpace path))"

definition CheckValidObjectName :: "string \<Rightarrow> name_error option" where
  "CheckValidObjectName s =
     (if s = [] \<or> TrimSpace s = [] then Some (ErrInvalidObjectName ''Object name cannot be empty'')
      else if 1024 < length s then Some (ErrInvalidObjectName ''Object name cannot be longer than 1024 bytes'')
      else if hasBadPathComponent s then Some (ErrInvalidObjectName ''Object name with a bad path component is not supported'')
      else if \<not> utf8_valid s then Some (ErrInvalidObjectName ''Object name with non UTF-8 strings is not supported'')
      else if contains_str ''//'' s then Some (ErrInvalidObjectName ''double slash is not supported'')
      else None)"

definition CheckValidGroupName :: "string \<Rightarrow> name_error option" where
  "CheckValidGroupName s =
     (if s = [] \<or> TrimSpace s = [] then Some (ErrInvalidGroupName ''Group name cannot be empty'')
      else if length s < 3 then Some (ErrInvalidGroupName ''Group name cannot be shorter than 3 bytes'')
      else if 63 < length s then Some (ErrInvalidGroupName ''Group name cannot be longer than 63 bytes'')
      else if \<not> utf8_valid s then Some (ErrInvalidGroupName ''Group name with non UTF-8 strings is not supported'')
      else None)"

definition CheckValidExpectChecksums :: "'b list list \<Rightarrow> name_error option" where
  "CheckValidExpectChecksums cs = (if list_all (\<lambda>c. length c = 32) cs then None else Some ErrInvalidChecksum)"


section \<open>Resource names\<close>

datatype ResourceType =
    RESOURCE_TYPE_UNSPECIFIED
  | RESOURCE_TYPE_BUCKET
  | RESOURCE_TYPE_OBJECT
  | RESOURCE_TYPE_GROUP

record GRN =
  resType :: ResourceType
  groupOwner :: "160 word option"
  grn_name :: string

record name_env =
  AccAddressFromHex :: "string \<Rightarrow> 160 word option"
  AddrString :: "160 word \<Rightarrow> string"

definition NewBucketGRN :: "string \<Rightarrow> GRN" where
  "NewBucketGRN bucketName = \<lparr>resType = RESOURCE_TYPE_BUCKET, groupOwner = None, grn_name = bucketName\<rparr>"

definition NewObjectGRN :: "string \<Rightarrow> string \<Rightarrow> GRN" where
  "NewObjectGRN bucketName objectName =
     \<lparr>resType = RESOURCE_TYPE_OBJECT, groupOwner = None, grn_name = join_with CHR ''/'' [bucketName, objectName]\<rparr>"

definition NewGroupGRN :: "160 word \<Rightarrow> string \<Rightarrow> GRN" where
  "NewGroupGRN owner groupName = \<lparr>resType = RESOURCE_TYPE_GROUP, groupOwner = Some owner, grn_name = groupName\<rparr>"

definition trim_colon :: "string \<Rightarrow> string" where
  "trim_colon s = (if s \<noteq> [] \<and> last s = CHR '':'' then butlast s else s)"

definition grn_String :: "('a name_env_scheme) \<Rightarrow> GRN \<Rightarrow> string" where
  "grn_String E r = (case resType r of
      RESOURCE_TYPE_BUCKET \<Rightarrow> trim_colon (join_with CHR '':'' [''grn'', ''b'', [], grn_name r])
    | RESOURCE_TYPE_OBJECT \<Rightarrow> trim_colon (join_with CHR '':'' [''grn'', ''o'', [], grn_name r])
    | RESOURCE_TYPE_GROUP \<Rightarrow> trim_colon (join_with CHR '':''
        [''grn'', ''g'', (case groupOwner r of None \<Rightarrow> [] | Some a \<Rightarrow> AddrString E a), grn_name r])
    | RESOURCE_TYPE_UNSPECIFIED \<Rightarrow> [])"

definition parseBucketAndObjectName :: "string \<Rightarrow> (name_error, string \<times> string) outcome" where
  "parseBucketAndObjectName name = (case split_on CHR ''/'' name of
      bucketName # _ # _ \<Rightarrow>
        if \<not> has_prefix (bucketName @ ''/'') name then Err (ErrBadGRN ''object name not found'')
        else
          (let objectName = drop (length bucketName + 1) name in
           if CheckValidBucketName bucketName \<noteq> None then Err (ErrBadGRN ''invalid bucketName'')
           else if CheckValidObjectName objectName \<noteq> None then Err (ErrBadGRN ''invalid objectName'')
           else Ok (bucketName, objectName))
    | _ \<Rightarrow> Err (ErrBadGRN ''expect bucketName/object''))"

definition GetBucketName :: "GRN \<Rightarrow> (name_error, string) outcome" where
  "GetBucketName r = (case resType r of
      RESOURCE_TYPE_BUCKET \<Rightarrow> Ok (grn_name r)
    | RESOURCE_TYPE_OBJECT \<Rightarrow> (case parseBucketAndObjectName (grn_name r) of
          Ok (bucketName, _) \<Rightarrow> Ok bucketName | Err e \<Rightarrow> Err e | Panic \<Rightarrow> Panic)
    | _ \<Rightarrow> Err ErrGRNMismatch)"

definition GetBucketAndObjectName :: "GRN \<Rightarrow> (name_error, string \<times> string) outcome" where
  "GetBucketAndObjectName r = (case resType r of
      RESOURCE_TYPE_OBJECT \<Rightarrow> parseBucketAndObjectName (grn_name r)
    | _ \<Rightarrow> Err ErrGRNMismatch)"

definition GetGroupOwnerAndAccount :: "GRN \<Rightarrow> (name_error, 160 word option \<times> string) outcome" where
  "GetGroupOwnerAndAccount r = (case resType r of
      RESOURCE_TYPE_GROUP \<Rightarrow> Ok (groupOwner r, grn_name r)
    | _ \<Rightarrow> Err ErrGRNMismatch)"

text \<open>
  \<open>^grn:([bog]):([^:]*):([^:]*)$\<close>, and the same without \<open>*\<close> in the name: exactly four parts
  between colons.
\<close>

definition valid_grn :: "bool \<Rightarrow> string \<Rightarrow> (char \<times> string \<times> string) option" where
  "valid_grn wildcards s = (case split_on CHR '':'' s of
      [p, q, acc, name] \<Rightarrow>
        if p = ''grn'' \<and> q \<in> {''b'', ''o'', ''g''} \<and> (wildcards \<or> CHR ''*'' \<notin> set name)
        then Some (hd q, acc, name) else None
    | _ \<Rightarrow> None)"

definition ParseFromString :: "('a name_env_scheme) \<Rightarrow> string \<Rightarrow> bool \<Rightarrow> (name_error, GRN) outcome" where
  "ParseFromString E res wildcards = (case valid_grn wildcards res of
      None \<Rightarrow> Err (ErrBadGRN ''regex match error'')
    | Some (abbr, acc, name) \<Rightarrow>
        if abbr = CHR ''b'' then
          (if acc \<noteq> [] then Err (ErrBadGRN ''Not allowed acc non-empty in bucket resource name'')
           else if contains_str ''/'' name then Err (ErrBadGRN ''slash in bucket resource name'')
           else if \<not> wildcards \<and> CheckValidBucketName name \<noteq> None then Err (ErrBadGRN ''invalid bucketName'')
           else Ok (NewBucketGRN name))
        else if abbr = CHR ''o'' then
          (if acc \<noteq> [] then Err (ErrBadGRN ''Not allowed acc non-empty in bucket resource name'')
           else (case parseBucketAndObjectName name of
               Ok _ \<Rightarrow> Ok \<lparr>resType = RESOURCE_TYPE_OBJECT, groupOwner = None, grn_name = name\<rparr>
             | Err e \<Rightarrow> Err (ErrBadGRN ''invalid name'')
             | Panic \<Rightarrow> Panic))
        else (case AccAddressFromHex E acc of
            None \<Rightarrow> Err (ErrBadGRN ''invalid group owner account'')
          | Some owner \<Rightarrow>
              if \<not> wildcards \<and> CheckValidGroupName name \<noteq> None then Err (ErrBadGRN ''invalid group name'')
              else Ok (NewGroupGRN owner name)))"


section \<open>Parsing and printing\<close>

lemma split_on_free: "c \<notin> set p \<Longrightarrow> split_on c p = [p]"
  by (induction p) auto

lemma split_on_sep: "c \<notin> set p \<Longrightarrow> split_on c (p @ c # s) = p # split_on c s"
  by (induction p) auto

lemma split_on_not_Nil [simp]: "split_on c s \<noteq> []"
  by (induction s) (auto split: list.splits)

lemma join_split: "join_with c (split_on c s) = s"
proof (induction s)
  case (Cons x s)
  have r: "join_with c (p # ps) = p @ (if ps = [] then [] else c # join_with c ps)" for p ps
    by (cases ps) auto
  from Cons show ?case by (auto simp: r split: list.splits)
qed simp

lemma has_prefix_append [simp]: "has_prefix p (p @ s)"
  by (induction p) auto

lemma contains_char: "contains_str [c] s \<longleftrightarrow> c \<in> set s"
  by (induction s) auto

lemma valid_bucket_chars:
  assumes "CheckValidBucketName b = None" "c \<in> set b"
  shows "is_lower_digit c \<or> c = dot \<or> c = CHR ''-''"
proof -
  from assms(1) have v: "validBucketName b" by (auto simp: CheckValidBucketName_def split: if_splits)
  then have len: "3 \<le> length b" by (simp add: validBucketName_def)
  define y where "y = butlast (tl b)"
  from len obtain x z where "b = x # z" "z \<noteq> []" by (cases b; cases "tl b") auto
  then have "b = hd b # tl b" "tl b \<noteq> []" by simp_all
  then have "b = hd b # y @ [last b]"
    unfolding y_def by (metis append_butlast_last_id last_ConsR)
  then have "set b = insert (hd b) (insert (last b) (set y))"
    by (metis list.simps(15) rotate1.simps(2) set_rotate1)
  with assms(2) have "c = hd b \<or> c = last b \<or> c \<in> set y" by auto
  with v show ?thesis by (auto simp: validBucketName_def list_all_iff y_def)
qed

lemma special_chars:
  "\<not> is_lower_digit CHR '':''" "\<not> is_lower_digit CHR ''/''" "\<not> is_lower_digit CHR ''*''"
  "dot \<noteq> CHR '':''" "dot \<noteq> CHR ''/''" "dot \<noteq> CHR ''*''"
  by code_simp+

lemma valid_bucket_free:
  assumes "CheckValidBucketName b = None"
  shows "CHR '':'' \<notin> set b" "CHR ''/'' \<notin> set b" "CHR ''*'' \<notin> set b" "b \<noteq> []"
proof -
  have "CHR '':'' \<noteq> CHR ''-''" "CHR ''/'' \<noteq> CHR ''-''" "CHR ''*'' \<noteq> CHR ''-''" by simp_all
  with valid_bucket_chars [OF assms] special_chars
  show "CHR '':'' \<notin> set b" "CHR ''/'' \<notin> set b" "CHR ''*'' \<notin> set b" by metis+
  show "b \<noteq> []" using assms by (auto simp: CheckValidBucketName_def)
qed

lemma trim_colon_free: "CHR '':'' \<notin> set s \<Longrightarrow> s \<noteq> [] \<Longrightarrow> trim_colon (p @ s) = p @ s"
  by (auto simp: trim_colon_def) (metis last_in_set)

lemma parse_grn_parts:
  assumes "q \<in> {''b'', ''o'', ''g''}" "CHR '':'' \<notin> set acc" "CHR '':'' \<notin> set name" "name \<noteq> []"
    and "wildcards \<or> CHR ''*'' \<notin> set name"
  shows "valid_grn wildcards (trim_colon (join_with CHR '':'' [''grn'', q, acc, name])) = Some (hd q, acc, name)"
proof -
  have "join_with CHR '':'' [''grn'', q, acc, name] = (''grn'' @ CHR '':'' # q @ CHR '':'' # acc @ [CHR '':'']) @ name"
    by simp
  then have t: "trim_colon (join_with CHR '':'' [''grn'', q, acc, name]) =
      ''grn'' @ CHR '':'' # q @ CHR '':'' # acc @ CHR '':'' # name"
    using trim_colon_free [OF assms(3,4)] by (metis append.assoc append_Cons append_Nil)
  have "CHR '':'' \<notin> set q" using assms(1) by auto
  then have "split_on CHR '':'' (''grn'' @ CHR '':'' # q @ CHR '':'' # acc @ CHR '':'' # name) = [''grn'', q, acc, name]"
    using assms(2,3) split_on_sep [of "CHR '':''" "''grn''"] by (simp add: split_on_sep split_on_free)
  with t assms(1,5) show ?thesis by (simp add: valid_grn_def)
qed

lemma parse_object_name:
  assumes "CheckValidBucketName b = None" "CheckValidObjectName obj = None"
  shows "parseBucketAndObjectName (b @ CHR ''/'' # obj) = Ok (b, obj)"
proof -
  have "has_prefix (b @ ''/'') (b @ CHR ''/'' # obj)"
    using has_prefix_append [of "b @ ''/''" obj] by simp
  moreover obtain p ps where "split_on CHR ''/'' obj = p # ps"
    by (meson neq_Nil_conv split_on_not_Nil)
  ultimately show ?thesis
    using assms valid_bucket_free(2) [OF assms(1)] by (simp add: parseBucketAndObjectName_def split_on_sep)
qed

lemma bucket_roundtrip:
  assumes "CheckValidBucketName b = None"
  shows "ParseFromString E (grn_String E (NewBucketGRN b)) wildcards = Ok (NewBucketGRN b)"
  using valid_bucket_free [OF assms] assms parse_grn_parts [of "''b''" "[]" b wildcards]
  by (simp add: ParseFromString_def grn_String_def NewBucketGRN_def contains_char)

lemma object_roundtrip:
  assumes "CheckValidBucketName b = None" "CheckValidObjectName obj = None"
    and "CHR '':'' \<notin> set obj" "wildcards \<or> CHR ''*'' \<notin> set obj"
  shows "ParseFromString E (grn_String E (NewObjectGRN b obj)) wildcards = Ok (NewObjectGRN b obj)"
    and "GetBucketAndObjectName (NewObjectGRN b obj) = Ok (b, obj)"
  using valid_bucket_free [OF assms(1)] assms(3,4) parse_object_name [OF assms(1,2)]
    parse_grn_parts [of "''o''" "[]" "b @ CHR ''/'' # obj" wildcards]
  by (auto simp: ParseFromString_def grn_String_def NewObjectGRN_def GetBucketAndObjectName_def)

text \<open>What the printer and parser of addresses promise.\<close>

definition addr_laws :: "('a name_env_scheme) \<Rightarrow> bool" where
  "addr_laws E \<longleftrightarrow> (\<forall>a. AccAddressFromHex E (AddrString E a) = Some a \<and> CHR '':'' \<notin> set (AddrString E a))"

lemma group_roundtrip:
  assumes "addr_laws E" "CheckValidGroupName g = None"
    and "CHR '':'' \<notin> set g" "wildcards \<or> CHR ''*'' \<notin> set g"
  shows "ParseFromString E (grn_String E (NewGroupGRN a g)) wildcards = Ok (NewGroupGRN a g)"
proof -
  have "g \<noteq> []" using assms(2) by (auto simp: CheckValidGroupName_def)
  then show ?thesis
    using assms parse_grn_parts [of "''g''" "AddrString E a" g wildcards]
    by (simp add: ParseFromString_def grn_String_def NewGroupGRN_def addr_laws_def)
qed

lemma colon_suffix_collides:
  assumes "obj \<noteq> []" "last obj \<noteq> CHR '':''"
  shows "grn_String E (NewObjectGRN b (obj @ '':'')) = grn_String E (NewObjectGRN b obj)"
proof -
  have "trim_colon (p @ obj) = p @ obj" "trim_colon (p @ obj @ '':'') = p @ obj" for p
    using assms by (auto simp: trim_colon_def butlast_append)
  from this(1) [of "''grn:o::'' @ b @ ''/''"] this(2) [of "''grn:o::'' @ b @ ''/''"]
  show ?thesis by (simp add: grn_String_def NewObjectGRN_def)
qed

end
