(* ===== verification/NameProps.thy ===== *)
theory NameProps
  imports ResourceNames
begin

text \<open>
  The property of resource names: what is printed is parsed back.  Object and group names may contain a
  colon, which the grammar of resource names does not allow; \<open>colon_suffix_collides\<close> shows that a colon at
  the end of a name is even lost in print.
\<close>

definition sample_name_env :: name_env where
  "sample_name_env =
     \<lparr>AccAddressFromHex = (\<lambda>x. Some (of_nat (length x))), AddrString = (\<lambda>a. replicate (unat a) CHR ''0'')\<rparr>"

lemma sample_addr_laws: "addr_laws sample_name_env"
  by (simp add: addr_laws_def sample_name_env_def)

text \<open>
  C40: resource names round trip.  For names the validity checks accept, and without colons (nor, where
  wildcards are refused, stars) in the names of objects and groups, parsing the printed name of a bucket,
  an object or a group gives that resource back, and an object's name splits into the bucket and
  object it was built from.
\<close>

theorem resource_name_roundtrip:
  assumes "addr_laws E"
    and "CheckValidBucketName b = None" "CheckValidObjectName obj = None" "CheckValidGroupName g = None"
    and "CHR '':'' \<notin> set obj" "CHR '':'' \<notin> set g"
    and "wildcards \<or> CHR ''*'' \<notin> set obj \<and> CHR ''*'' \<notin> set g"
  shows "ParseFromString E (grn_String E (NewBucketGRN b)) wildcards = Ok (NewBucketGRN b) \<and>
    ParseFromString E (grn_String E (NewObjectGRN b obj)) wildcards = Ok (NewObjectGRN b obj) \<and>
    ParseFromString E (grn_String E (NewGroupGRN a g)) wildcards = Ok (NewGroupGRN a g) \<and>
    GetBucketAndObjectName (NewObjectGRN b obj) = Ok (b, obj)"
proof -
  have w: "wildcards \<or> CHR ''*'' \<notin> set obj" "wildcards \<or> CHR ''*'' \<notin> set g" using assms(7) by auto
  show ?thesis
    by (intro conjI bucket_roundtrip [OF assms(2)] object_roundtrip [OF assms(2,3,5) w(1)]
        group_roundtrip [OF assms(1,4,6) w(2)])
qed

theorem resource_name_roundtrip_witness:
  "ParseFromString sample_name_env (grn_String sample_name_env (NewObjectGRN ''photos'' ''a/b.png'')) False
     = Ok (NewObjectGRN ''photos'' ''a/b.png'') \<and>
   ParseFromString sample_name_env (grn_String sample_name_env (NewGroupGRN 3 ''team'')) False = Ok (NewGroupGRN 3 ''team'')"
proof -
  have v: "CheckValidBucketName ''photos'' = None" "CheckValidObjectName ''a/b.png'' = None"
    "CheckValidGroupName ''team'' = None" by code_simp+
  show ?thesis
    using resource_name_roundtrip [OF sample_addr_laws v, of False 3] by simp
qed

end
