(* ===== verification/Sequence.thy ===== *)
theory Sequence
  imports Bytes KVStore
begin

text \<open>
  Sequences of identifiers kept in a store (\<open>internal/sequence/sequence.go\<close>), for both instances of
  the type parameter: \<open>uint32\<close> in four big-endian bytes, and \<open>math.Uint\<close> in the shortest big-endian
  encoding.  A \<open>math.Uint\<close> is a 256-bit word; incrementing the largest one panics, while a \<open>uint32\<close>
  wraps around.  The locale \<open>seq_codec\<close> states what the keepers use of an instance.
\<close>

section \<open>Shortest big-endian encodings\<close>

definition strip_zeros :: "bytes \<Rightarrow> bytes" where
  "strip_zeros bs = dropWhile (\<lambda>b. b = 0) bs"

text \<open>\<open>BigInt().Bytes()\<close>\<close>

definition uint_bytes :: "256 word \<Rightarrow> bytes" where
  "uint_bytes w = strip_zeros (be_bytes 32 (unat w))"

lemma be_nat_strip [simp]: "be_nat (strip_zeros bs) = be_nat bs"
proof (induction bs)
  case (Cons b bs)
  then show ?case by (simp add: strip_zeros_def be_nat_Cons)
qed (simp add: strip_zeros_def)

lemma be_nat_uint_bytes [simp]: "be_nat (uint_bytes w) = unat w"
proof -
  have "unat w < 256 ^ 32" using unsigned_less [of w] by simp
  then show ?thesis by (simp add: uint_bytes_def be_nat_bytes_id)
qed

lemma uint_bytes_inj [simp]: "uint_bytes v = uint_bytes w \<longleftrightarrow> v = w"
  by (metis be_nat_uint_bytes word_unat_eq_iff)

lemma uint_bytes_0 [simp]: "uint_bytes w = [] \<longleftrightarrow> w = 0"
proof -
  have "uint_bytes (0 :: 256 word) = []" by code_simp
  then show ?thesis by (metis uint_bytes_inj)
qed

lemma length_strip_zeros: "length (strip_zeros bs) \<le> length bs"
  by (simp add: strip_zeros_def length_dropWhile_le)

lemma length_uint_bytes: "length (uint_bytes w) \<le> 32"
  using length_strip_zeros [of "be_bytes 32 (unat w)"] by (simp add: uint_bytes_def)

lemma uint_bytes_hd: "uint_bytes w \<noteq> [] \<Longrightarrow> hd (uint_bytes w) \<noteq> 0"
  unfolding uint_bytes_def strip_zeros_def by (rule hd_dropWhile)

lemma strip_zeros_idem [simp]: "strip_zeros (uint_bytes w) = uint_bytes w"
  by (simp add: uint_bytes_def strip_zeros_def)


section \<open>Sequences\<close>

record 't number =
  EncodeSequence :: "'t \<Rightarrow> bytes"
  DecodeSequence :: "bytes option \<Rightarrow> 't option"
  IncreaseSequence :: "'t \<Rightarrow> 't option"

text \<open>
  The two instances.  \<open>None\<close> is a panic: of \<open>Incr\<close> and \<open>NewUintFromBigInt\<close> beyond 256 bits, and of
  reading four bytes of a shorter slice.
\<close>

definition seq_Uint :: "256 word number" where
  "seq_Uint =
     \<lparr>EncodeSequence = uint_bytes,
      DecodeSequence = (\<lambda>bz. case bz of
          None \<Rightarrow> Some 0
        | Some b \<Rightarrow> if length (strip_zeros b) \<le> 32 then Some (of_nat (be_nat b)) else None),
      IncreaseSequence = (\<lambda>w. if w = - 1 then None else Some (w + 1))\<rparr>"

definition seq_uint32 :: "32 word number" where
  "seq_uint32 =
     \<lparr>EncodeSequence = (\<lambda>w. be_bytes 4 (unat w)),
      DecodeSequence = (\<lambda>bz. case bz of
          None \<Rightarrow> Some 0
        | Some b \<Rightarrow> if 4 \<le> length b then Some (of_nat (be_nat (take 4 b))) else None),
      IncreaseSequence = (\<lambda>w. Some (w + 1))\<rparr>"

type_synonym byte_store = "(bytes \<times> bytes) list"

datatype seq_error = ErrSequenceUniqueConstraint

definition NextVal :: "'t number \<Rightarrow> bytes \<Rightarrow> byte_store \<Rightarrow> ('e, 't) outcome \<times> byte_store" where
  "NextVal T key store = (case DecodeSequence T (map_of store key) of
      None \<Rightarrow> (Panic, store)
    | Some seq \<Rightarrow> (case IncreaseSequence T seq of
          None \<Rightarrow> (Panic, store)
        | Some seq \<Rightarrow> (Ok seq, kv_set key (EncodeSequence T seq) store)))"

definition CurVal :: "'t number \<Rightarrow> bytes \<Rightarrow> byte_store \<Rightarrow> ('e, 't) outcome" where
  "CurVal T key store = (case DecodeSequence T (map_of store key) of None \<Rightarrow> Panic | Some seq \<Rightarrow> Ok seq)"

definition InitVal :: "'t number \<Rightarrow> bytes \<Rightarrow> 't \<Rightarrow> byte_store \<Rightarrow> (seq_error, unit) outcome \<times> byte_store" where
  "InitVal T key seq store =
     (if kv_has store key then (Err ErrSequenceUniqueConstraint, store)
      else (Ok (), kv_set key (EncodeSequence T seq) store))"


section \<open>What a sequence promises\<close>

locale seq_codec =
  fixes T :: "('t::{zero,one,plus}) number"
    and last :: "'t \<Rightarrow> bool"
  assumes decode_encode: "DecodeSequence T (Some (EncodeSequence T t)) = Some t"
    and decode_nil: "DecodeSequence T None = Some 0"
    and increase: "IncreaseSequence T t = (if last t then None else Some (t + 1))"
begin

text \<open>The value a well-formed store holds at a key.\<close>

definition holds :: "bytes \<Rightarrow> 't \<Rightarrow> byte_store \<Rightarrow> bool" where
  "holds key t store \<longleftrightarrow> DecodeSequence T (map_of store key) = Some t"

lemma cur_holds: "holds key t store \<Longrightarrow> CurVal T key store = Ok t"
  by (simp add: holds_def CurVal_def)

lemma next_holds:
  assumes "holds key t store" "\<not> last t"
  obtains store' where "NextVal T key store = (Ok (t + 1), store')" "holds key (t + 1) store'"
    "\<forall>k. k \<noteq> key \<longrightarrow> map_of store' k = map_of store k" "kv_ok store \<longrightarrow> kv_ok store'"
  using assms by (auto simp: holds_def NextVal_def increase decode_encode kv_simps)

lemma next_last: "holds key t store \<Longrightarrow> last t \<Longrightarrow> NextVal T key store = (Panic, store)"
  by (simp add: holds_def NextVal_def increase)

lemma holds_other: "map_of store' k = map_of store k \<Longrightarrow> holds k t store' = holds k t store"
  by (simp add: holds_def)

lemma holds_init: "InitVal T key t store = (Ok (), store') \<Longrightarrow> holds key t store'"
  by (auto simp: holds_def InitVal_def decode_encode kv_simps split: if_splits)

lemma holds_fresh: "\<not> kv_has store key \<Longrightarrow> holds key 0 store"
  by (simp add: holds_def kv_has_def decode_nil)

end

interpretation u256: seq_codec seq_Uint "\<lambda>w. w = - 1"
proof
  fix t :: "256 word"
  show "DecodeSequence seq_Uint (Some (EncodeSequence seq_Uint t)) = Some t"
    using length_uint_bytes [of t] by (simp add: seq_Uint_def)
qed (simp_all add: seq_Uint_def)

interpretation u32: seq_codec seq_uint32 "\<lambda>_. False"
proof
  fix t :: "32 word"
  have "unat t < 256 ^ 4" using unsigned_less [of t] by simp
  then show "DecodeSequence seq_uint32 (Some (EncodeSequence seq_uint32 t)) = Some t"
    by (simp add: seq_uint32_def be_nat_bytes)
qed (simp_all add: seq_uint32_def)

end
