(* ===== verification/PermissionTypes.thy ===== *)
theory PermissionTypes
  imports Sequence ResourceNames
begin

text \<open>
  The data of the permission module (\<open>x/permission/types\<close>): policies, their statements and the
  evaluation of an access against them (\<open>types.go\<close>), principals (\<open>common.go\<close>) and parameters
  (\<open>params.go\<close>).

  A \<open>time.Time\<close> is an integer of nanoseconds, a nil pointer \<open>None\<close>, a nil slice \<open>[]\<close> (the codec
  decodes an empty slice to nil).  Parsing and printing of addresses and of decimal
  identifiers (both of the SDK) and the matching of the regular expressions that policies contain are
  the fields of an environment.
\<close>

section \<open>Data\<close>

text \<open>A decoded statement may carry an effect outside the declared ones, \<open>EFFECT_OTHER\<close>.\<close>

datatype Effect = EFFECT_UNSPECIFIED | EFFECT_ALLOW | EFFECT_DENY | EFFECT_OTHER int

datatype ActionType =
    ACTION_UNSPECIFIED
  | ACTION_UPDATE_BUCKET_INFO
  | ACTION_DELETE_BUCKET
  | ACTION_CREATE_OBJECT
  | ACTION_DELETE_OBJECT
  | ACTION_COPY_OBJECT
  | ACTION_GET_OBJECT
  | ACTION_EXECUTE_OBJECT
  | ACTION_LIST_OBJECT
  | ACTION_UPDATE_GROUP_MEMBER
  | ACTION_DELETE_GROUP
  | ACTION_UPDATE_OBJECT_INFO
  | ACTION_UPDATE_GROUP_EXTRA
  | ACTION_UPDATE_GROUP_INFO
  | ACTION_UPDATE_OBJECT_CONTENT
  | ACTION_TYPE_ALL

datatype PrincipalType =
    PRINCIPAL_TYPE_UNSPECIFIED
  | PRINCIPAL_TYPE_GNFD_ACCOUNT
  | PRINCIPAL_TYPE_GNFD_GROUP

record Principal =
  PType :: PrincipalType
  PValue :: string

record Statement =
  SEffect :: Effect
  Actions :: "ActionType list"
  Resources :: "string list"
  SExpirationTime :: "int option"
  LimitSize :: "64 word option"

record Policy =
  Id :: "256 word"
  PrincipalOf :: Principal
  ResourceTypeOf :: ResourceType
  ResourceId :: "256 word"
  Statements :: "Statement list"
  ExpirationTime :: "int option"

record PolicyGroup_Item =
  PolicyId :: "256 word"
  GroupId :: "256 word"

type_synonym PolicyGroup = "PolicyGroup_Item list"

record GroupMember =
  MId :: "256 word"
  MGroupId :: "256 word"
  Member :: string
  MExpirationTime :: "int option"

record VerifyOptions =
  Resource :: string
  WantedSize :: "64 word option"

datatype perm_error =
    ErrInvalidStatement string
  | ErrInvalidPrincipal string
  | ErrGroupMemberAlreadyExists
  | ErrNoSuchGroupMember
  | ErrLimitExceeded
  | ErrInvalidPermParams string
  | ErrPermInvalidSigner
  | ErrNoSuchBucket
  | ErrNoSuchObject
  | ErrNoSuchGroup
  | ErrNoSuchPolicy
  | ErrAccessDenied
  | ErrInvalidGRN
  | ErrGRNTypeMismatch
  | ErrPermissionExpired
  | ErrParseUint
  | ErrInvalidAddress

text \<open>Identifiers of stored resource types are ordered as the key prefixes of their indexes are.\<close>

fun resource_rank :: "ResourceType \<Rightarrow> nat" where
  "resource_rank RESOURCE_TYPE_UNSPECIFIED = 0"
| "resource_rank RESOURCE_TYPE_BUCKET = 1"
| "resource_rank RESOURCE_TYPE_OBJECT = 2"
| "resource_rank RESOURCE_TYPE_GROUP = 3"

instantiation ResourceType :: linorder
begin

definition less_eq_ResourceType :: "ResourceType \<Rightarrow> ResourceType \<Rightarrow> bool" where
  "less_eq_ResourceType a b \<longleftrightarrow> resource_rank a \<le> resource_rank b"

definition less_ResourceType :: "ResourceType \<Rightarrow> ResourceType \<Rightarrow> bool" where
  "less_ResourceType a b \<longleftrightarrow> resource_rank a < resource_rank b"

instance
proof
  fix a b c :: ResourceType
  show "a < b \<longleftrightarrow> a \<le> b \<and> \<not> b \<le> a" by (auto simp: less_eq_ResourceType_def less_ResourceType_def)
  show "a \<le> a" "a \<le> b \<Longrightarrow> b \<le> c \<Longrightarrow> a \<le> c" "a \<le> b \<or> b \<le> a"
    by (auto simp: less_eq_ResourceType_def)
  show "a \<le> b \<Longrightarrow> b \<le> a \<Longrightarrow> a = b"
    by (cases a; cases b) (simp_all add: less_eq_ResourceType_def)
qed

end

record perm_env = name_env +
  ParseUint :: "string \<Rightarrow> 256 word option"
  UintString :: "256 word \<Rightarrow> string"
  Compiles :: "string \<Rightarrow> bool"
  MatchString :: "string \<Rightarrow> string \<Rightarrow> bool"


section \<open>Principals\<close>

definition NewPrincipalWithGroupInfo :: "perm_env \<Rightarrow> 160 word \<Rightarrow> string \<Rightarrow> Principal" where
  "NewPrincipalWithGroupInfo E owner groupName =
     \<lparr>PType = PRINCIPAL_TYPE_GNFD_GROUP, PValue = grn_String E (NewGroupGRN owner groupName)\<rparr>"

definition NewPrincipalWithAccount :: "perm_env \<Rightarrow> 160 word \<Rightarrow> Principal" where
  "NewPrincipalWithAccount E a = \<lparr>PType = PRINCIPAL_TYPE_GNFD_ACCOUNT, PValue = AddrString E a\<rparr>"

definition NewPrincipalWithGroupID :: "perm_env \<Rightarrow> 256 word \<Rightarrow> Principal" where
  "NewPrincipalWithGroupID E g = \<lparr>PType = PRINCIPAL_TYPE_GNFD_GROUP, PValue = UintString E g\<rparr>"

definition principal_ValidateBasic :: "perm_env \<Rightarrow> Principal \<Rightarrow> (perm_error, unit) outcome" where
  "principal_ValidateBasic E p = (case PType p of
      PRINCIPAL_TYPE_UNSPECIFIED \<Rightarrow> Err (ErrInvalidPrincipal ''Not allowed empty principal type.'')
    | PRINCIPAL_TYPE_GNFD_ACCOUNT \<Rightarrow> (case AccAddressFromHex E (PValue p) of
          None \<Rightarrow> Err (ErrInvalidPrincipal ''Invalid account'') | Some _ \<Rightarrow> Ok ())
    | PRINCIPAL_TYPE_GNFD_GROUP \<Rightarrow> Ok ())"

definition GetAccountAddress :: "perm_env \<Rightarrow> Principal \<Rightarrow> (perm_error, 160 word) outcome" where
  "GetAccountAddress E p =
     (if PType p \<noteq> PRINCIPAL_TYPE_GNFD_ACCOUNT then Panic
      else (case AccAddressFromHex E (PValue p) of
          None \<Rightarrow> Err (ErrInvalidPrincipal ''Invalid account'') | Some a \<Rightarrow> Ok a))"

definition GetGroupID :: "perm_env \<Rightarrow> Principal \<Rightarrow> (perm_error, 256 word) outcome" where
  "GetGroupID E p =
     (if PType p \<noteq> PRINCIPAL_TYPE_GNFD_GROUP then Panic
      else (case ParseUint E (PValue p) of
          None \<Rightarrow> Err (ErrInvalidPrincipal ''Invalid groupID'') | Some g \<Rightarrow> Ok g))"

text \<open>The \<open>Must\<close> forms: every failure is a panic, written \<open>None\<close>.\<close>

definition MustGetAccountAddress :: "perm_env \<Rightarrow> Principal \<Rightarrow> 160 word option" where
  "MustGetAccountAddress E p = (case GetAccountAddress E p of Ok a \<Rightarrow> Some a | _ \<Rightarrow> None)"

definition MustGetGroupID :: "perm_env \<Rightarrow> Principal \<Rightarrow> 256 word option" where
  "MustGetGroupID E p = (case GetGroupID E p of Ok g \<Rightarrow> Some g | _ \<Rightarrow> None)"


section \<open>Evaluation\<close>

definition NewMemberStatement :: Statement where
  "NewMemberStatement =
     \<lparr>SEffect = EFFECT_ALLOW, Actions = [], Resources = [], SExpirationTime = None, LimitSize = None\<rparr>"

text \<open>The loop over the resources of a statement; an expression that does not compile panics.\<close>

fun match_resources :: "perm_env \<Rightarrow> string list \<Rightarrow> string \<Rightarrow> (perm_error, bool) outcome" where
  "match_resources E [] x = Ok False"
| "match_resources E (r # rs) x =
     (if \<not> Compiles E r then Panic
      else if MatchString E r x then Ok True
      else match_resources E rs x)"

text \<open>The loop over the actions of a statement.\<close>

fun eval_actions ::
  "ActionType list \<Rightarrow> Statement \<Rightarrow> ActionType \<Rightarrow> VerifyOptions option \<Rightarrow> Effect \<times> Statement option" where
  "eval_actions [] s action opts = (EFFECT_UNSPECIFIED, None)"
| "eval_actions (act # acts) s action opts =
     (if act = action \<or> act = ACTION_TYPE_ALL then
        (if SEffect s = EFFECT_DENY then (EFFECT_DENY, None)
         else (case (LimitSize s, opts) of
             (Some limit, Some o') \<Rightarrow> (case WantedSize o' of
                 Some wanted \<Rightarrow>
                   if action = ACTION_CREATE_OBJECT then
                     (if wanted \<le> limit then (EFFECT_ALLOW, Some (s\<lparr>LimitSize := Some (limit - wanted)\<rparr>))
                      else (EFFECT_DENY, None))
                   else (SEffect s, None)
               | None \<Rightarrow> (SEffect s, None))
           | _ \<Rightarrow> (SEffect s, None)))
      else eval_actions acts s action opts)"

definition stmt_Eval ::
  "perm_env \<Rightarrow> Statement \<Rightarrow> ActionType \<Rightarrow> VerifyOptions option \<Rightarrow> (perm_error, Effect \<times> Statement option) outcome" where
  "stmt_Eval E s action opts =
     (let sub = (case opts of None \<Rightarrow> [] | Some o' \<Rightarrow> Resource o') in
      if sub \<noteq> [] \<and> Resources s = [] then Ok (EFFECT_UNSPECIFIED, None)
      else if sub \<noteq> [] then (case match_resources E (Resources s) sub of
          Ok True \<Rightarrow> Ok (eval_actions (Actions s) s action opts)
        | Ok False \<Rightarrow> Ok (EFFECT_UNSPECIFIED, None)
        | Err e \<Rightarrow> Err e
        | Panic \<Rightarrow> Panic)
      else Ok (eval_actions (Actions s) s action opts))"

definition before :: "int option \<Rightarrow> int \<Rightarrow> bool" where
  "before t now = (case t of None \<Rightarrow> False | Some t \<Rightarrow> t < now)"

text \<open>
  The loop over the statements: the effect, whether a statement was updated, and the statements
  with the updates in place.
\<close>

fun eval_statements ::
  "perm_env \<Rightarrow> ActionType \<Rightarrow> int \<Rightarrow> VerifyOptions option \<Rightarrow> Statement list \<Rightarrow> bool \<Rightarrow> bool
   \<Rightarrow> (perm_error, Effect \<times> bool \<times> Statement list) outcome" where
  "eval_statements E action now opts [] allowed updated =
     Ok (if allowed then EFFECT_ALLOW else EFFECT_UNSPECIFIED, updated, [])"
| "eval_statements E action now opts (s # ss) allowed updated =
     (if before (SExpirationTime s) now then
        (case eval_statements E action now opts ss allowed updated of
           Ok (e, u, ts) \<Rightarrow> Ok (e, u, s # ts) | Err x \<Rightarrow> Err x | Panic \<Rightarrow> Panic)
      else (case stmt_Eval E s action opts of
          Ok (e, t) \<Rightarrow>
            (let s = (case t of None \<Rightarrow> s | Some s' \<Rightarrow> s'); updated = (updated \<or> t \<noteq> None) in
             if e = EFFECT_DENY then Ok (EFFECT_DENY, updated, s # ss)
             else (case eval_statements E action now opts ss (allowed \<or> e = EFFECT_ALLOW) updated of
                 Ok (e, u, ts) \<Rightarrow> Ok (e, u, s # ts) | Err x \<Rightarrow> Err x | Panic \<Rightarrow> Panic))
        | Err x \<Rightarrow> Err x
        | Panic \<Rightarrow> Panic))"

definition policy_Eval ::
  "perm_env \<Rightarrow> Policy \<Rightarrow> ActionType \<Rightarrow> int \<Rightarrow> VerifyOptions option \<Rightarrow> (perm_error, Effect \<times> Policy option) outcome" where
  "policy_Eval E p action blockTime opts =
     (if before (ExpirationTime p) blockTime then Ok (EFFECT_UNSPECIFIED, None)
      else (case eval_statements E action blockTime opts (Statements p) False False of
          Ok (e, updated, ss) \<Rightarrow>
            Ok (e, if e = EFFECT_ALLOW \<and> updated then Some (p\<lparr>Statements := ss\<rparr>) else None)
        | Err x \<Rightarrow> Err x
        | Panic \<Rightarrow> Panic))"


section \<open>Validation\<close>

fun BucketAllowedActionsAfterPampas :: "ActionType \<Rightarrow> bool" where
  "BucketAllowedActionsAfterPampas a \<longleftrightarrow> a \<in> {ACTION_UPDATE_BUCKET_INFO, ACTION_DELETE_BUCKET,
     ACTION_CREATE_OBJECT, ACTION_DELETE_OBJECT, ACTION_GET_OBJECT, ACTION_COPY_OBJECT,
     ACTION_EXECUTE_OBJECT, ACTION_LIST_OBJECT, ACTION_UPDATE_OBJECT_INFO,
     ACTION_UPDATE_OBJECT_CONTENT, ACTION_TYPE_ALL}"

fun ObjectAllowedActions :: "ActionType \<Rightarrow> bool" where
  "ObjectAllowedActions a \<longleftrightarrow> a \<in> {ACTION_UPDATE_OBJECT_INFO, ACTION_CREATE_OBJECT,
     ACTION_DELETE_OBJECT, ACTION_GET_OBJECT, ACTION_COPY_OBJECT, ACTION_EXECUTE_OBJECT,
     ACTION_LIST_OBJECT, ACTION_UPDATE_OBJECT_CONTENT, ACTION_TYPE_ALL}"

fun GroupAllowedActions :: "ActionType \<Rightarrow> bool" where
  "GroupAllowedActions a \<longleftrightarrow> a \<in> {ACTION_UPDATE_GROUP_MEMBER, ACTION_UPDATE_GROUP_EXTRA,
     ACTION_DELETE_GROUP, ACTION_UPDATE_GROUP_INFO, ACTION_TYPE_ALL}"

definition stmt_ValidateBasic :: "perm_env \<Rightarrow> Statement \<Rightarrow> ResourceType \<Rightarrow> (perm_error, unit) outcome" where
  "stmt_ValidateBasic E s rt =
     (if SEffect s = EFFECT_UNSPECIFIED then Err (ErrInvalidStatement ''Please specify the Effect explicitly.'')
      else (case rt of
          RESOURCE_TYPE_UNSPECIFIED \<Rightarrow> Err (ErrInvalidStatement ''Please specify the ResourceType explicitly.'')
        | RESOURCE_TYPE_BUCKET \<Rightarrow>
            if list_all (\<lambda>r. case ParseFromString E r True of Ok _ \<Rightarrow> True | _ \<Rightarrow> False) (Resources s) then Ok ()
            else Err (ErrInvalidStatement ''GRN parse from string failed'')
        | RESOURCE_TYPE_OBJECT \<Rightarrow>
            if \<not> list_all ObjectAllowedActions (Actions s) then Err (ErrInvalidStatement ''not allowed to be used on object.'')
            else if LimitSize s \<noteq> None then Err (ErrInvalidStatement ''LimitSize'')
            else Ok ()
        | RESOURCE_TYPE_GROUP \<Rightarrow>
            if \<not> list_all GroupAllowedActions (Actions s) then Err (ErrInvalidStatement ''not allowed to be used on group.'')
            else if LimitSize s \<noteq> None then Err (ErrInvalidStatement ''LimitSize'')
            else Ok ()))"

definition stmt_ValidateRuntime :: "perm_env \<Rightarrow> Statement \<Rightarrow> ResourceType \<Rightarrow> (perm_error, unit) outcome" where
  "stmt_ValidateRuntime E s rt = (case rt of
      RESOURCE_TYPE_BUCKET \<Rightarrow>
        if \<not> list_all (Compiles E) (Resources s) then Err (ErrInvalidStatement ''The Resources regexp compile failed'')
        else if \<not> list_all BucketAllowedActionsAfterPampas (Actions s)
        then Err (ErrInvalidStatement ''not allowed to be used on bucket.'')
        else if ACTION_CREATE_OBJECT \<notin> set (Actions s) \<and> LimitSize s \<noteq> None
        then Err (ErrInvalidStatement ''LimitSize'')
        else Ok ()
    | RESOURCE_TYPE_OBJECT \<Rightarrow> if Resources s \<noteq> [] then Err (ErrInvalidStatement ''Resources'') else Ok ()
    | RESOURCE_TYPE_GROUP \<Rightarrow> if Resources s \<noteq> [] then Err (ErrInvalidStatement ''Resources'') else Ok ()
    | RESOURCE_TYPE_UNSPECIFIED \<Rightarrow> Err (ErrInvalidStatement ''unknown resource type.''))"


section \<open>Parameters\<close>

record PermParams =
  MaximumStatementsNum :: "64 word"
  MaximumGroupNum :: "64 word"
  MaximumRemoveExpiredPoliciesIteration :: "64 word"

definition perm_DefaultParams :: PermParams where
  "perm_DefaultParams =
     \<lparr>MaximumStatementsNum = 10, MaximumGroupNum = 10, MaximumRemoveExpiredPoliciesIteration = 100\<rparr>"

definition validateMaximumGroupNum :: "64 word \<Rightarrow> perm_error option" where
  "validateMaximumGroupNum v =
     (if v = 0 then Some (ErrInvalidPermParams ''max payload size must be positive'') else None)"

definition validateMaximumRemoveExpiredPoliciesIteration :: "64 word \<Rightarrow> perm_error option" where
  "validateMaximumRemoveExpiredPoliciesIteration v =
     (if v = 0 then Some (ErrInvalidPermParams ''max RemoveExpiredPolicies iteration must be positive'') else None)"

definition perm_Validate :: "PermParams \<Rightarrow> perm_error option" where
  "perm_Validate p = (case validateMaximumGroupNum (MaximumStatementsNum p) of
      Some e \<Rightarrow> Some e
    | None \<Rightarrow> (case validateMaximumGroupNum (MaximumGroupNum p) of
          Some e \<Rightarrow> Some e
        | None \<Rightarrow> validateMaximumRemoveExpiredPoliciesIteration (MaximumRemoveExpiredPoliciesIteration p)))"

end
