(* ===== verification/PermissionKeeper.thy ===== *)
theory PermissionKeeper
  imports PermissionTypes "HOL-Library.Product_Lexorder"
begin

text \<open>
  The keeper of the permission module (\<open>x/permission/keeper\<close>): group members, policies of accounts
  and of groups, the queue of expirations, the forced deletions of a deleted resource, parameters.

  The state holds one ordered store per key prefix of \<open>types/keys.go\<close>.  The keys of the queue are the
  expiration time and the bytes of the policy identifier, in the order of their encodings.  An iterator
  runs over the entries the store had when it was opened; the loops delete only entries they have
  passed.  Events are left out.
\<close>

record perm_state =
  accountPolicies :: "((ResourceType \<times> 256 word \<times> 160 word) \<times> 256 word) list"
  groupPolicies :: "((ResourceType \<times> 256 word) \<times> PolicyGroup) list"
  policies :: "(256 word \<times> Policy) list"
  policyQueue :: "((int \<times> bytes) \<times> unit) list"
  groupMembers :: "((256 word \<times> 160 word) \<times> 256 word) list"
  membersById :: "(256 word \<times> GroupMember) list"
  sequences :: byte_store
  permParams :: "PermParams option"

type_synonym 'a perm_result = "(perm_error, 'a) outcome \<times> perm_state"

definition PolicySequencePrefix :: bytes where
  "PolicySequencePrefix = [0x41]"

definition GroupMemberSequencePrefix :: bytes where
  "GroupMemberSequencePrefix = [0x42]"

definition next_id :: "bytes \<Rightarrow> perm_state \<Rightarrow> 256 word perm_result" where
  "next_id key s = (case NextVal seq_Uint key (sequences s) of (r, q) \<Rightarrow> (r, s\<lparr>sequences := q\<rparr>))"


section \<open>Parameters\<close>

definition perm_GetParams :: "perm_state \<Rightarrow> PermParams" where
  "perm_GetParams s = (case permParams s of
      None \<Rightarrow> \<lparr>MaximumStatementsNum = 0, MaximumGroupNum = 0, MaximumRemoveExpiredPoliciesIteration = 0\<rparr>
    | Some p \<Rightarrow> p)"

definition perm_SetParams :: "PermParams \<Rightarrow> perm_state \<Rightarrow> unit perm_result" where
  "perm_SetParams p s = (case perm_Validate p of
      Some e \<Rightarrow> (Err e, s)
    | None \<Rightarrow> (Ok (), s\<lparr>permParams := Some p\<rparr>))"

definition perm_UpdateParams :: "string \<Rightarrow> string \<Rightarrow> PermParams \<Rightarrow> perm_state \<Rightarrow> unit perm_result" where
  "perm_UpdateParams keeperAuthority authority p s =
     (if keeperAuthority \<noteq> authority then (Err ErrPermInvalidSigner, s) else perm_SetParams p s)"

definition MaximumPolicyGroupSize :: "perm_state \<Rightarrow> 64 word" where
  "MaximumPolicyGroupSize s = MaximumGroupNum (perm_GetParams s)"


section \<open>Group members\<close>

definition AddGroupMember ::
  "perm_env \<Rightarrow> 256 word \<Rightarrow> 160 word \<Rightarrow> int option \<Rightarrow> perm_state \<Rightarrow> unit perm_result" where
  "AddGroupMember E groupID member expiration s =
     (if kv_has (groupMembers s) (groupID, member) then (Err ErrGroupMemberAlreadyExists, s)
      else
        (let groupMember = \<lparr>MId = 0, MGroupId = groupID, Member = AddrString E member,
               MExpirationTime = expiration\<rparr> in
         andthen (next_id GroupMemberSequencePrefix s) (\<lambda>i s.
           (Ok (), s\<lparr>groupMembers := kv_set (groupID, member) i (groupMembers s),
                     membersById := kv_set i groupMember (membersById s)\<rparr>))))"

definition UpdateGroupMember ::
  "perm_env \<Rightarrow> 256 word \<Rightarrow> 160 word \<Rightarrow> 256 word \<Rightarrow> int option \<Rightarrow> perm_state \<Rightarrow> perm_state" where
  "UpdateGroupMember E groupID member memberID expiration s =
     s\<lparr>membersById := kv_set memberID \<lparr>MId = 0, MGroupId = groupID, Member = AddrString E member,
               MExpirationTime = expiration\<rparr> (membersById s)\<rparr>"

definition RemoveGroupMember :: "256 word \<Rightarrow> 160 word \<Rightarrow> perm_state \<Rightarrow> unit perm_result" where
  "RemoveGroupMember groupID member s = (case map_of (groupMembers s) (groupID, member) of
      None \<Rightarrow> (Err ErrNoSuchGroupMember, s)
    | Some i \<Rightarrow> (Ok (), s\<lparr>groupMembers := kv_del (groupID, member) (groupMembers s),
                          membersById := kv_del i (membersById s)\<rparr>))"

definition GetGroupMemberByID :: "256 word \<Rightarrow> perm_state \<Rightarrow> GroupMember option" where
  "GetGroupMemberByID i s = map_option (\<lambda>g. g\<lparr>MId := i\<rparr>) (map_of (membersById s) i)"

definition GetGroupMember :: "256 word \<Rightarrow> 160 word \<Rightarrow> perm_state \<Rightarrow> GroupMember option" where
  "GetGroupMember groupID member s = (case map_of (groupMembers s) (groupID, member) of
      None \<Rightarrow> None | Some i \<Rightarrow> GetGroupMemberByID i s)"


section \<open>Policies\<close>

definition enqueue :: "int option \<Rightarrow> 256 word \<Rightarrow> perm_state \<Rightarrow> perm_state" where
  "enqueue t i s = (case t of
      None \<Rightarrow> s | Some t \<Rightarrow> s\<lparr>policyQueue := kv_set (t, uint_bytes i) () (policyQueue s)\<rparr>)"

definition dequeue :: "int option \<Rightarrow> 256 word \<Rightarrow> perm_state \<Rightarrow> perm_state" where
  "dequeue t i s = (case t of
      None \<Rightarrow> s | Some t \<Rightarrow> s\<lparr>policyQueue := kv_del (t, uint_bytes i) (policyQueue s)\<rparr>)"

definition updatePolicy :: "Policy \<Rightarrow> Policy \<Rightarrow> perm_state \<Rightarrow> Policy \<times> perm_state" where
  "updatePolicy policy newPolicy s =
     (let s = (if ExpirationTime policy = ExpirationTime newPolicy then s
               else enqueue (ExpirationTime newPolicy) (Id policy) (dequeue (ExpirationTime policy) (Id policy) s));
          policy = policy\<lparr>Statements := Statements newPolicy, ExpirationTime := ExpirationTime newPolicy\<rparr>
      in (policy, s\<lparr>policies := kv_set (Id policy) policy (policies s)\<rparr>))"

definition GetPolicyByID :: "256 word \<Rightarrow> perm_state \<Rightarrow> Policy option" where
  "GetPolicyByID i s = map_of (policies s) i"

definition MustGetPolicyByID :: "256 word \<Rightarrow> perm_state \<Rightarrow> Policy perm_result" where
  "MustGetPolicyByID i s = (case GetPolicyByID i s of None \<Rightarrow> (Panic, s) | Some p \<Rightarrow> (Ok p, s))"

definition storePolicy :: "Policy \<Rightarrow> perm_state \<Rightarrow> perm_state" where
  "storePolicy p s = enqueue (ExpirationTime p) (Id p) (s\<lparr>policies := kv_set (Id p) p (policies s)\<rparr>)"

text \<open>A \<open>Must\<close> call on a state: \<open>None\<close> is a panic.\<close>

definition must :: "'a option \<Rightarrow> perm_state \<Rightarrow> 'a perm_result" where
  "must x s = (case x of None \<Rightarrow> (Panic, s) | Some a \<Rightarrow> (Ok a, s))"

text \<open>The index keys: the prefix functions panic on a resource type they have no prefix for.\<close>

definition account_key :: "ResourceType \<Rightarrow> 256 word \<Rightarrow> 160 word \<Rightarrow> (ResourceType \<times> 256 word \<times> 160 word) option" where
  "account_key rt i a = (if rt = RESOURCE_TYPE_UNSPECIFIED then None else Some (rt, i, a))"

definition group_key :: "ResourceType \<Rightarrow> 256 word \<Rightarrow> (ResourceType \<times> 256 word) option" where
  "group_key rt i = (if rt = RESOURCE_TYPE_BUCKET \<or> rt = RESOURCE_TYPE_OBJECT then Some (rt, i) else None)"

text \<open>Overriding a stored policy: the identifier returned is the one of the argument.\<close>

definition override_policy :: "Policy \<Rightarrow> Policy \<Rightarrow> perm_state \<Rightarrow> 256 word perm_result" where
  "override_policy policy old s = (Ok (Id policy), snd (updatePolicy old policy s))"

text \<open>The branch of \<open>PutPolicy\<close> for accounts.\<close>

definition add_account_policy ::
  "ResourceType \<times> 256 word \<times> 160 word \<Rightarrow> Policy \<Rightarrow> 256 word \<Rightarrow> perm_state \<Rightarrow> 256 word perm_result" where
  "add_account_policy key policy i s =
     (Ok i, storePolicy (policy\<lparr>Id := i\<rparr>) (s\<lparr>accountPolicies := kv_set key i (accountPolicies s)\<rparr>))"

definition put_account_policy :: "perm_env \<Rightarrow> Policy \<Rightarrow> perm_state \<Rightarrow> 256 word perm_result" where
  "put_account_policy E policy s =
     andthen (must (MustGetAccountAddress E (PrincipalOf policy)) s) (\<lambda>a s.
     andthen (must (account_key (ResourceTypeOf policy) (ResourceId policy) a) s) (\<lambda>key s.
       (case map_of (accountPolicies s) key of
          Some i \<Rightarrow> andthen (MustGetPolicyByID i s) (override_policy policy)
        | None \<Rightarrow> andthen (next_id PolicySequencePrefix s) (add_account_policy key policy))))"

text \<open>
  The branch of \<open>PutPolicy\<close> for groups.  The loop overrides the policy of every item of the group; an
  item that names a missing policy panics.  The group identifier is parsed again in every round.
\<close>

fun override_items :: "perm_env \<Rightarrow> PolicyGroup \<Rightarrow> Policy \<Rightarrow> bool \<Rightarrow> perm_state \<Rightarrow> bool perm_result" where
  "override_items E [] policy found s = (Ok found, s)"
| "override_items E (item # items) policy found s =
     andthen (must (MustGetGroupID E (PrincipalOf policy)) s) (\<lambda>g s.
       if GroupId item = g then
         andthen (andthen (MustGetPolicyByID (PolicyId item) s) (override_policy policy)) (\<lambda>_ s.
           override_items E items policy True s)
       else override_items E items policy found s)"

definition add_group_policy ::
  "ResourceType \<times> 256 word \<Rightarrow> PolicyGroup \<Rightarrow> Policy \<Rightarrow> 256 word \<Rightarrow> 256 word \<Rightarrow> perm_state \<Rightarrow> 256 word perm_result" where
  "add_group_policy key items policy i g s =
     (Ok i, storePolicy (policy\<lparr>Id := i\<rparr>)
        (s\<lparr>groupPolicies := kv_set key (items @ [\<lparr>PolicyId = i, GroupId = g\<rparr>]) (groupPolicies s)\<rparr>))"

definition append_group_policy ::
  "perm_env \<Rightarrow> ResourceType \<times> 256 word \<Rightarrow> PolicyGroup \<Rightarrow> Policy \<Rightarrow> perm_state \<Rightarrow> 256 word perm_result" where
  "append_group_policy E key items policy s =
     andthen (next_id PolicySequencePrefix s) (\<lambda>i s.
     andthen (must (MustGetGroupID E (PrincipalOf policy)) s) (add_group_policy key items policy i))"

definition put_group_policy :: "perm_env \<Rightarrow> Policy \<Rightarrow> perm_state \<Rightarrow> 256 word perm_result" where
  "put_group_policy E policy s =
     andthen (must (group_key (ResourceTypeOf policy) (ResourceId policy)) s) (\<lambda>key s.
       (case map_of (groupPolicies s) key of
          Some items \<Rightarrow>
            if unat (MaximumPolicyGroupSize s) \<le> length items then (Err ErrLimitExceeded, s)
            else andthen (override_items E items policy False s) (\<lambda>found s.
              if found then (Ok (Id policy), s) else append_group_policy E key items policy s)
        | None \<Rightarrow> append_group_policy E key [] policy s))"

definition PutPolicy :: "perm_env \<Rightarrow> Policy \<Rightarrow> perm_state \<Rightarrow> 256 word perm_result" where
  "PutPolicy E policy s = (case PType (PrincipalOf policy) of
      PRINCIPAL_TYPE_GNFD_ACCOUNT \<Rightarrow> put_account_policy E policy s
    | PRINCIPAL_TYPE_GNFD_GROUP \<Rightarrow> put_group_policy E policy s
    | PRINCIPAL_TYPE_UNSPECIFIED \<Rightarrow> (Err (ErrInvalidPrincipal ''Unknown principal type.''), s))"

definition GetPolicyForAccount ::
  "256 word \<Rightarrow> ResourceType \<Rightarrow> 160 word \<Rightarrow> perm_state \<Rightarrow> Policy option perm_result" where
  "GetPolicyForAccount resourceID resourceType a s =
     andthen (must (account_key resourceType resourceID a) s) (\<lambda>key s.
       (Ok (case map_of (accountPolicies s) key of None \<Rightarrow> None | Some i \<Rightarrow> GetPolicyByID i s), s))"

definition GetPolicyGroupForResource ::
  "256 word \<Rightarrow> ResourceType \<Rightarrow> perm_state \<Rightarrow> PolicyGroup option perm_result" where
  "GetPolicyGroupForResource resourceID resourceType s =
     andthen (must (group_key resourceType resourceID) s) (\<lambda>key s. (Ok (map_of (groupPolicies s) key), s))"

definition GetPolicyForGroup ::
  "256 word \<Rightarrow> ResourceType \<Rightarrow> 256 word \<Rightarrow> perm_state \<Rightarrow> Policy option perm_result" where
  "GetPolicyForGroup resourceID resourceType groupID s =
     andthen (GetPolicyGroupForResource resourceID resourceType s) (\<lambda>group s.
       (Ok (case group of
              None \<Rightarrow> None
            | Some items \<Rightarrow> (case find (\<lambda>item. GroupId item = groupID) items of
                  None \<Rightarrow> None | Some item \<Rightarrow> GetPolicyByID (PolicyId item) s)), s))"

text \<open>\<open>append(items[:i], items[i+1:]...)\<close> at the first item that satisfies the test.\<close>

fun remove_first :: "('a \<Rightarrow> bool) \<Rightarrow> 'a list \<Rightarrow> 'a list" where
  "remove_first P [] = []"
| "remove_first P (x # xs) = (if P x then xs else x # remove_first P xs)"

definition store_items :: "ResourceType \<times> 256 word \<Rightarrow> PolicyGroup \<Rightarrow> perm_state \<Rightarrow> perm_state" where
  "store_items key items s =
     (if items = [] then s\<lparr>groupPolicies := kv_del key (groupPolicies s)\<rparr>
      else s\<lparr>groupPolicies := kv_set key items (groupPolicies s)\<rparr>)"

text \<open>
  Deleting the policy of an identifier with its entry in the queue, as every deletion does.  A policy
  that is not found leaves the queue as it is.
\<close>

definition drop_policy :: "256 word \<Rightarrow> perm_state \<Rightarrow> perm_state" where
  "drop_policy i s =
     (let t = (case GetPolicyByID i s of None \<Rightarrow> None | Some p \<Rightarrow> ExpirationTime p);
          j = (case GetPolicyByID i s of None \<Rightarrow> 0 | Some p \<Rightarrow> Id p)
      in dequeue t j (s\<lparr>policies := kv_del i (policies s)\<rparr>))"

definition DeletePolicy ::
  "perm_env \<Rightarrow> Principal \<Rightarrow> ResourceType \<Rightarrow> 256 word \<Rightarrow> perm_state \<Rightarrow> 256 word option perm_result" where
  "DeletePolicy E who resourceType resourceID s = (case PType who of
      PRINCIPAL_TYPE_GNFD_ACCOUNT \<Rightarrow>
        andthen (must (AccAddressFromHex E (PValue who)) s) (\<lambda>a s.
        andthen (must (account_key resourceType resourceID a) s) (\<lambda>key s.
        andthen (GetPolicyForAccount resourceID resourceType a s) (\<lambda>policy s.
          (case policy of
             None \<Rightarrow> (Ok None, s)
           | Some p \<Rightarrow> (Ok (Some (Id p)),
               dequeue (ExpirationTime p) (Id p)
                 (s\<lparr>accountPolicies := kv_del key (accountPolicies s),
                    policies := kv_del (Id p) (policies s)\<rparr>))))))
    | PRINCIPAL_TYPE_GNFD_GROUP \<Rightarrow>
        (case GetGroupID E who of
           Err e \<Rightarrow> (Err e, s)
         | Panic \<Rightarrow> (Panic, s)
         | Ok groupID \<Rightarrow>
             andthen (must (group_key resourceType resourceID) s) (\<lambda>key s.
               (case map_of (groupPolicies s) key of
                  None \<Rightarrow> (Ok None, s)
                | Some items \<Rightarrow> (case find (\<lambda>item. GroupId item = groupID) items of
                      None \<Rightarrow> (Ok None, s)
                    | Some item \<Rightarrow> (Ok (Some (PolicyId item)),
                        store_items key (remove_first (\<lambda>item. GroupId item = groupID) items)
                          (drop_policy (PolicyId item) s))))))
    | PRINCIPAL_TYPE_UNSPECIFIED \<Rightarrow> (Err (ErrInvalidPrincipal ''Unknown principal type.''), s))"


section \<open>Cleaning up after a deleted resource\<close>

text \<open>
  The entries of one resource, in the order of the account addresses, and below those of one group.  The
  prefix of identifier 0 is empty in the source, so that an iteration for it would visit every entry of
  the type; identifiers start at 1, so the case is left out.
\<close>

definition account_entries :: "ResourceType \<Rightarrow> 256 word \<Rightarrow> perm_state \<Rightarrow> (160 word \<times> 256 word) list" where
  "account_entries rt i s =
     map (\<lambda>((_, _, a), v). (a, v)) (filter (\<lambda>((rt', i', _), _). rt' = rt \<and> i' = i) (accountPolicies s))"

fun delete_account_entries ::
  "ResourceType \<Rightarrow> 256 word \<Rightarrow> 64 word \<Rightarrow> (160 word \<times> 256 word) list \<Rightarrow> 64 word \<Rightarrow> perm_state
   \<Rightarrow> (64 word \<times> bool) \<times> perm_state" where
  "delete_account_entries rt i maxDelete [] deletedTotal s = ((deletedTotal, True), s)"
| "delete_account_entries rt i maxDelete ((a, policyID) # es) deletedTotal s =
     (if maxDelete \<le> deletedTotal then ((deletedTotal, False), s)
      else
        (let s = drop_policy policyID s in
         delete_account_entries rt i maxDelete es (deletedTotal + 1)
           (s\<lparr>accountPolicies := kv_del (rt, i, a) (accountPolicies s)\<rparr>)))"

definition ForceDeleteAccountPolicyForResource ::
  "64 word \<Rightarrow> 64 word \<Rightarrow> ResourceType \<Rightarrow> 256 word \<Rightarrow> perm_state \<Rightarrow> (64 word \<times> bool) \<times> perm_state" where
  "ForceDeleteAccountPolicyForResource maxDelete deletedTotal resourceType resourceID s =
     (if resourceType = RESOURCE_TYPE_UNSPECIFIED then ((deletedTotal, True), s)
      else delete_account_entries resourceType resourceID maxDelete
             (account_entries resourceType resourceID s) deletedTotal s)"

fun delete_group_items ::
  "ResourceType \<times> 256 word \<Rightarrow> 64 word \<Rightarrow> PolicyGroup \<Rightarrow> 64 word \<Rightarrow> perm_state \<Rightarrow> (64 word \<times> bool) \<times> perm_state" where
  "delete_group_items key maxDelete [] deletedTotal s =
     ((deletedTotal, True), s\<lparr>groupPolicies := kv_del key (groupPolicies s)\<rparr>)"
| "delete_group_items key maxDelete (item # items) deletedTotal s =
     (if maxDelete \<le> deletedTotal
      then ((deletedTotal, False), s\<lparr>groupPolicies := kv_set key (item # items) (groupPolicies s)\<rparr>)
      else delete_group_items key maxDelete items (deletedTotal + 1) (drop_policy (PolicyId item) s))"

definition ForceDeleteGroupPolicyForResource ::
  "64 word \<Rightarrow> 64 word \<Rightarrow> ResourceType \<Rightarrow> 256 word \<Rightarrow> perm_state \<Rightarrow> (64 word \<times> bool) \<times> perm_state" where
  "ForceDeleteGroupPolicyForResource maxDelete deletedTotal resourceType resourceID s =
     (if resourceType = RESOURCE_TYPE_UNSPECIFIED \<or> resourceType = RESOURCE_TYPE_GROUP
      then ((deletedTotal, True), s)
      else (case map_of (groupPolicies s) (resourceType, resourceID) of
          None \<Rightarrow> ((deletedTotal, True), s)
        | Some items \<Rightarrow> delete_group_items (resourceType, resourceID) maxDelete items deletedTotal s))"

definition member_entries :: "256 word \<Rightarrow> perm_state \<Rightarrow> (160 word \<times> 256 word) list" where
  "member_entries g s = map (\<lambda>((_, a), v). (a, v)) (filter (\<lambda>((g', _), _). g' = g) (groupMembers s))"

fun delete_members ::
  "256 word \<Rightarrow> 64 word \<Rightarrow> (160 word \<times> 256 word) list \<Rightarrow> 64 word \<Rightarrow> perm_state \<Rightarrow> (64 word \<times> bool) \<times> perm_state" where
  "delete_members g maxDelete [] deletedTotal s = ((deletedTotal, True), s)"
| "delete_members g maxDelete ((a, memberID) # es) deletedTotal s =
     (if maxDelete \<le> deletedTotal then ((deletedTotal, False), s)
      else delete_members g maxDelete es (deletedTotal + 1)
        (s\<lparr>membersById := kv_del memberID (membersById s),
           groupMembers := kv_del (g, a) (groupMembers s)\<rparr>))"

definition ForceDeleteGroupMembers ::
  "64 word \<Rightarrow> 64 word \<Rightarrow> 256 word \<Rightarrow> perm_state \<Rightarrow> (64 word \<times> bool) \<times> perm_state" where
  "ForceDeleteGroupMembers maxDelete deletedTotal groupID s =
     delete_members groupID maxDelete (member_entries groupID s) deletedTotal s"

definition ExistAccountPolicyForResource :: "ResourceType \<Rightarrow> 256 word \<Rightarrow> perm_state \<Rightarrow> bool" where
  "ExistAccountPolicyForResource rt i s \<longleftrightarrow> rt \<noteq> RESOURCE_TYPE_UNSPECIFIED \<and> account_entries rt i s \<noteq> []"

definition ExistGroupPolicyForResource :: "ResourceType \<Rightarrow> 256 word \<Rightarrow> perm_state \<Rightarrow> bool" where
  "ExistGroupPolicyForResource rt i s \<longleftrightarrow>
     rt \<noteq> RESOURCE_TYPE_UNSPECIFIED \<and> rt \<noteq> RESOURCE_TYPE_GROUP \<and> kv_has (groupPolicies s) (rt, i)"

definition ExistGroupMemberForGroup :: "256 word \<Rightarrow> perm_state \<Rightarrow> bool" where
  "ExistGroupMemberForGroup g s \<longleftrightarrow> member_entries g s \<noteq> []"


section \<open>Expired policies\<close>

text \<open>
  The iterator runs from the queue prefix to the encoded block time followed by a zero byte,
  exclusive.  A queue entry with no policy decodes to a policy with a nil principal, whose type the
  loop reads: a panic.
\<close>

definition expired_entries :: "int \<Rightarrow> perm_state \<Rightarrow> (int \<times> bytes) list" where
  "expired_entries blockTime s = filter (\<lambda>k. k < (blockTime, [0])) (map fst (policyQueue s))"

definition remove_expired :: "perm_env \<Rightarrow> int \<times> bytes \<Rightarrow> perm_state \<Rightarrow> unit perm_result" where
  "remove_expired E k s =
     (let s = s\<lparr>policyQueue := kv_del k (policyQueue s)\<rparr>;
          policyID = of_nat (be_nat (snd k)) in
      (case map_of (policies s) policyID of
         None \<Rightarrow> (Panic, s\<lparr>policies := kv_del policyID (policies s)\<rparr>)
       | Some policy \<Rightarrow>
           (let s = s\<lparr>policies := kv_del policyID (policies s)\<rparr> in
            case PType (PrincipalOf policy) of
              PRINCIPAL_TYPE_GNFD_ACCOUNT \<Rightarrow>
                andthen (must (MustGetAccountAddress E (PrincipalOf policy)) s) (\<lambda>a s.
                andthen (must (account_key (ResourceTypeOf policy) (ResourceId policy) a) s) (\<lambda>key s.
                  (Ok (), s\<lparr>accountPolicies := kv_del key (accountPolicies s)\<rparr>)))
            | PRINCIPAL_TYPE_GNFD_GROUP \<Rightarrow>
                andthen (must (group_key (ResourceTypeOf policy) (ResourceId policy)) s) (\<lambda>key s.
                  (case map_of (groupPolicies s) key of
                     None \<Rightarrow> (Ok (), s)
                   | Some items \<Rightarrow>
                       (Ok (), store_items key (remove_first (\<lambda>item. PolicyId item = policyID) items) s)))
            | PRINCIPAL_TYPE_UNSPECIFIED \<Rightarrow> (Ok (), s))))"

definition RemoveExpiredPolicies :: "perm_env \<Rightarrow> int \<Rightarrow> perm_state \<Rightarrow> unit perm_result" where
  "RemoveExpiredPolicies E blockTime s =
     foreach (remove_expired E)
       (take (unat (MaximumRemoveExpiredPoliciesIteration (perm_GetParams s))) (expired_entries blockTime s)) s"

end
