(* ===== verification/PermissionIndex.thy ===== *)
theory PermissionIndex
  imports PermissionKeeper
begin

text \<open>
  The invariant of the permission stores.  A policy is granted to an account or to a group of accounts
  on a resource: its slot.  The two indexes map every slot to the identifier of its one policy, every
  stored policy stands at its own slot, and the queue holds exactly the expirations of the stored
  policies.  What the module means to its callers is the partial map \<open>grants\<close> from slots to statements
  and expirations.

  The three core lemmas are about the index, the policies and the queue as functions; the keeper's
  operations are shown to be such steps in the next theory.
\<close>

datatype grantee = ToAccount "160 word" | ToGroup "256 word"

type_synonym slot = "ResourceType \<times> 256 word \<times> grantee"

definition principal_grantee :: "perm_env \<Rightarrow> Principal \<Rightarrow> grantee option" where
  "principal_grantee E p = (case PType p of
      PRINCIPAL_TYPE_GNFD_ACCOUNT \<Rightarrow> map_option ToAccount (AccAddressFromHex E (PValue p))
    | PRINCIPAL_TYPE_GNFD_GROUP \<Rightarrow> map_option ToGroup (ParseUint E (PValue p))
    | PRINCIPAL_TYPE_UNSPECIFIED \<Rightarrow> None)"

definition policy_slot :: "perm_env \<Rightarrow> Policy \<Rightarrow> slot option" where
  "policy_slot E p = map_option (\<lambda>g. (ResourceTypeOf p, ResourceId p, g)) (principal_grantee E (PrincipalOf p))"

type_synonym grant = "Statement list \<times> int option"

definition terms :: "Policy \<Rightarrow> grant" where
  "terms p = (Statements p, ExpirationTime p)"

definition queue_of :: "Policy \<Rightarrow> (int \<times> bytes) set" where
  "queue_of p = (case ExpirationTime p of None \<Rightarrow> {} | Some t \<Rightarrow> {(t, uint_bytes (Id p))})"


section \<open>The core of the state\<close>

definition core_ok ::
  "perm_env \<Rightarrow> (slot \<Rightarrow> 256 word option) \<Rightarrow> (256 word \<Rightarrow> Policy option) \<Rightarrow> (int \<times> bytes) set \<Rightarrow> 256 word \<Rightarrow> bool" where
  "core_ok E idx pol que n \<longleftrightarrow>
     (\<forall>k i. idx k = Some i \<longrightarrow> (\<exists>p. pol i = Some p \<and> policy_slot E p = Some k)) \<and>
     (\<forall>i p. pol i = Some p \<longrightarrow> Id p = i \<and> i \<noteq> 0 \<and> i \<le> n \<and> (\<exists>k. policy_slot E p = Some k \<and> idx k = Some i)) \<and>
     que = (\<Union>(i, p) \<in> {(i, p). pol i = Some p}. queue_of p)"

definition core_grants :: "(slot \<Rightarrow> 256 word option) \<Rightarrow> (256 word \<Rightarrow> Policy option) \<Rightarrow> slot \<Rightarrow> grant option" where
  "core_grants idx pol k = (case idx k of None \<Rightarrow> None | Some i \<Rightarrow> map_option terms (pol i))"

lemma graph_insert: "f i = None \<Longrightarrow> {(j, q). (f(i \<mapsto> p)) j = Some q} = insert (i, p) {(j, q). f j = Some q}"
  by (auto split: if_splits)

lemma graph_delete: "{(j, q). (f(i := None)) j = Some q} = {(j, q). f j = Some q \<and> j \<noteq> i}"
  by (auto split: if_splits)

lemma graph_update: "{(j, q). (f(i \<mapsto> p)) j = Some q} = insert (i, p) {(j, q). f j = Some q \<and> j \<noteq> i}"
  by (auto split: if_splits)

lemma queue_without:
  assumes "\<forall>j q. pol j = Some q \<longrightarrow> j \<noteq> i \<longrightarrow> queue_of q \<inter> queue_of p = {}" "pol i = Some p"
  shows "(\<Union>(j, q) \<in> {(j, q). pol j = Some q}. queue_of q) - queue_of p
    = (\<Union>(j, q) \<in> {(j, q). pol j = Some q \<and> j \<noteq> i}. queue_of q)"
proof -
  have "{(j, q). pol j = Some q} = insert (i, p) {(j, q). pol j = Some q \<and> j \<noteq> i}" using assms(2) by auto
  moreover have "(\<Union>(j, q) \<in> {(j, q). pol j = Some q \<and> j \<noteq> i}. queue_of q) \<inter> queue_of p = {}"
    using assms(1) by fastforce
  ultimately show ?thesis by (simp add: Un_Diff Diff_triv)
qed

lemma core_idx: "core_ok E idx pol que n \<Longrightarrow> idx k = Some i \<Longrightarrow> \<exists>p. pol i = Some p \<and> policy_slot E p = Some k"
  unfolding core_ok_def by blast

lemma core_pol: "core_ok E idx pol que n \<Longrightarrow> pol i = Some p \<Longrightarrow>
    Id p = i \<and> i \<noteq> 0 \<and> i \<le> n \<and> (\<exists>k. policy_slot E p = Some k \<and> idx k = Some i)"
  unfolding core_ok_def by blast

lemma core_queue: "core_ok E idx pol que n \<Longrightarrow> que = (\<Union>(i, p) \<in> {(i, p). pol i = Some p}. queue_of p)"
  unfolding core_ok_def by blast

lemma core_inj:
  assumes "core_ok E idx pol que n" "idx k = Some i" "idx l = Some i"
  shows "k = l"
  using core_idx [OF assms(1,2)] core_idx [OF assms(1,3)] by auto

lemma queue_of_id: "x \<in> queue_of p \<Longrightarrow> snd x = uint_bytes (Id p)"
  by (auto simp: queue_of_def split: option.splits)

lemma core_queue_other:
  assumes "core_ok E idx pol que n" "pol j = Some q" "Id p \<noteq> j"
  shows "queue_of q \<inter> queue_of p = {}"
  using core_pol [OF assms(1,2)] assms(3) queue_of_id by (metis disjoint_iff uint_bytes_inj)

lemma core_insert:
  assumes c: "core_ok E idx pol que n" and new: "n < i" "Id p = i" "policy_slot E p = Some k" "idx k = None"
  shows "core_ok E (idx(k \<mapsto> i)) (pol(i \<mapsto> p)) (que \<union> queue_of p) i"
    and "core_grants (idx(k \<mapsto> i)) (pol(i \<mapsto> p)) = (core_grants idx pol)(k \<mapsto> terms p)"
proof -
  have fresh: "pol i = None" using core_pol [OF c, of i] new(1) by (metis not_le option.exhaust)
  have ne: "l \<noteq> k \<Longrightarrow> idx l = Some j \<Longrightarrow> j \<noteq> i" for l j using core_idx [OF c] fresh by fastforce
  show "core_ok E (idx(k \<mapsto> i)) (pol(i \<mapsto> p)) (que \<union> queue_of p) i"
    unfolding core_ok_def
  proof (intro conjI allI impI)
    fix l j assume "(idx(k \<mapsto> i)) l = Some j"
    then show "\<exists>q. (pol(i \<mapsto> p)) j = Some q \<and> policy_slot E q = Some l"
      using new core_idx [OF c] ne by (auto split: if_splits)
  next
    fix j q assume j: "(pol(i \<mapsto> p)) j = Some q"
    have "Id q = j \<and> j \<noteq> 0 \<and> j \<le> i \<and> (\<exists>l. policy_slot E q = Some l \<and> (idx(k \<mapsto> i)) l = Some j)"
    proof (cases "j = i")
      case True
      then have "q = p" using j by simp
      moreover have "i \<noteq> 0" using new(1) by auto
      ultimately show ?thesis using True new by simp
    next
      case False
      then have q: "pol j = Some q" using j by simp
      from core_pol [OF c q] obtain l where "Id q = j" "j \<noteq> 0" "j \<le> n" "policy_slot E q = Some l" "idx l = Some j" by blast
      moreover from this new(4) have "l \<noteq> k" by auto
      ultimately show ?thesis using new(1) by auto
    qed
    then show "Id q = j" "j \<noteq> 0" "j \<le> i" "\<exists>l. policy_slot E q = Some l \<and> (idx(k \<mapsto> i)) l = Some j" by blast+
  next
    show "que \<union> queue_of p = (\<Union>(j, q)\<in>{(j, q). (pol(i \<mapsto> p)) j = Some q}. queue_of q)"
      using core_queue [OF c] graph_insert [of pol i p, OF fresh] by (simp add: Un_commute)
  qed
  show "core_grants (idx(k \<mapsto> i)) (pol(i \<mapsto> p)) = (core_grants idx pol)(k \<mapsto> terms p)"
    using ne by (auto simp: core_grants_def split: option.splits)
qed

lemma core_delete:
  assumes c: "core_ok E idx pol que n" and old: "idx k = Some i" "pol i = Some p"
  shows "core_ok E (idx(k := None)) (pol(i := None)) (que - queue_of p) n"
    and "core_grants (idx(k := None)) (pol(i := None)) = (core_grants idx pol)(k := None)"
proof -
  have id: "Id p = i" using core_pol [OF c old(2)] by simp
  have ne: "l \<noteq> k \<Longrightarrow> idx l = Some j \<Longrightarrow> j \<noteq> i" for l j using core_inj [OF c old(1)] by blast
  have slot: "policy_slot E p = Some k" using core_idx [OF c old(1)] old(2) by simp
  show "core_ok E (idx(k := None)) (pol(i := None)) (que - queue_of p) n"
    unfolding core_ok_def
  proof (intro conjI allI impI)
    fix l j assume "(idx(k := None)) l = Some j"
    then show "\<exists>q. (pol(i := None)) j = Some q \<and> policy_slot E q = Some l"
      using core_idx [OF c] ne by (auto split: if_splits)
  next
    fix j q assume "(pol(i := None)) j = Some q"
    then have j: "j \<noteq> i" "pol j = Some q" by (auto split: if_splits)
    note q = core_pol [OF c j(2)]
    then show "Id q = j" "j \<noteq> 0" "j \<le> n" by auto
    from q obtain l where "policy_slot E q = Some l" "idx l = Some j" by blast
    moreover from this j(1) old(1) have "l \<noteq> k" by auto
    ultimately show "\<exists>l. policy_slot E q = Some l \<and> (idx(k := None)) l = Some j" by simp
  next
    have "\<forall>j q. pol j = Some q \<longrightarrow> j \<noteq> i \<longrightarrow> queue_of q \<inter> queue_of p = {}"
      using core_queue_other [OF c, of _ _ p] id by blast
    from queue_without [OF this old(2)] show "que - queue_of p = (\<Union>(j, q)\<in>{(j, q). (pol(i := None)) j = Some q}. queue_of q)"
      by (simp only: core_queue [OF c] graph_delete)
  qed
  show "core_grants (idx(k := None)) (pol(i := None)) = (core_grants idx pol)(k := None)"
    using ne by (auto simp: core_grants_def split: option.splits)
qed

lemma core_update:
  assumes c: "core_ok E idx pol que n" and old: "idx k = Some i" "pol i = Some p"
    and new: "q = p\<lparr>Statements := ss, ExpirationTime := t\<rparr>"
  shows "core_ok E idx (pol(i \<mapsto> q)) (que - queue_of p \<union> queue_of q) n"
    and "core_grants idx (pol(i \<mapsto> q)) = (core_grants idx pol)(k \<mapsto> (ss, t))"
proof -
  have id: "Id p = i" using core_pol [OF c old(2)] by simp
  have ne: "l \<noteq> k \<Longrightarrow> idx l = Some j \<Longrightarrow> j \<noteq> i" for l j using core_inj [OF c old(1)] by blast
  have slot: "policy_slot E p = Some k" using core_idx [OF c old(1)] old(2) by simp
  then have slot': "policy_slot E q = Some k" "Id q = i" using new id by (auto simp: policy_slot_def)
  show "core_ok E idx (pol(i \<mapsto> q)) (que - queue_of p \<union> queue_of q) n"
    unfolding core_ok_def
  proof (intro conjI allI impI)
    fix l j assume "idx l = Some j"
    then show "\<exists>r. (pol(i \<mapsto> q)) j = Some r \<and> policy_slot E r = Some l"
      using core_idx [OF c, of l j] ne [of l j] slot' old(1) by (cases "l = k") auto
  next
    fix j r assume "(pol(i \<mapsto> q)) j = Some r"
    then have "j = i \<and> r = q \<or> j \<noteq> i \<and> pol j = Some r" by (auto split: if_splits)
    then show "Id r = j" "j \<noteq> 0" "j \<le> n" "\<exists>l. policy_slot E r = Some l \<and> idx l = Some j"
      using core_pol [OF c, of j r] core_pol [OF c old(2)] slot' old(1) by (auto simp del: split_paired_Ex)
  next
    have "\<forall>j r. pol j = Some r \<longrightarrow> j \<noteq> i \<longrightarrow> queue_of r \<inter> queue_of p = {}"
      using core_queue_other [OF c, of _ _ p] id by blast
    from queue_without [OF this old(2)]
    show "que - queue_of p \<union> queue_of q = (\<Union>(j, r)\<in>{(j, r). (pol(i \<mapsto> q)) j = Some r}. queue_of r)"
      by (simp only: core_queue [OF c] graph_update UN_insert prod.case Un_commute)
  qed
  show "core_grants idx (pol(i \<mapsto> q)) = (core_grants idx pol)(k \<mapsto> (ss, t))"
    using ne old(1) new by (auto simp: core_grants_def terms_def split: option.splits)
qed

end
