(* ===== verification/PermissionInv.thy ===== *)
theory PermissionInv
  imports PermissionIndex
begin

text \<open>
  The invariant on the stores of the permission keeper and its preservation by every operation, with
  the effect of each operation on the grants.
\<close>

section \<open>Views of the state\<close>

definition items_at :: "((ResourceType \<times> 256 word) \<times> PolicyGroup) list \<Rightarrow> ResourceType \<times> 256 word \<Rightarrow> PolicyGroup" where
  "items_at G key = (case map_of G key of None \<Rightarrow> [] | Some items \<Rightarrow> items)"

definition item_of :: "256 word \<Rightarrow> PolicyGroup \<Rightarrow> PolicyGroup_Item option" where
  "item_of g items = find (\<lambda>item. GroupId item = g) items"

fun index_of ::
  "(ResourceType \<times> 256 word \<times> 160 word \<Rightarrow> 256 word option) \<Rightarrow> (ResourceType \<times> 256 word \<Rightarrow> PolicyGroup) \<Rightarrow> slot \<Rightarrow> 256 word option" where
  "index_of A G (rt, i, ToAccount a) = A (rt, i, a)"
| "index_of A G (rt, i, ToGroup g) = map_option PolicyId (item_of g (G (rt, i)))"

abbreviation index :: "perm_state \<Rightarrow> slot \<Rightarrow> 256 word option" where
  "index s \<equiv> index_of (map_of (accountPolicies s)) (items_at (groupPolicies s))"

abbreviation queue :: "perm_state \<Rightarrow> (int \<times> bytes) set" where
  "queue s \<equiv> dom (map_of (policyQueue s))"

definition grants :: "perm_state \<Rightarrow> slot \<Rightarrow> grant option" where
  "grants s = core_grants (index s) (map_of (policies s))"

definition groups_ok :: "((ResourceType \<times> 256 word) \<times> PolicyGroup) list \<Rightarrow> bool" where
  "groups_ok G \<longleftrightarrow> (\<forall>key items. map_of G key = Some items \<longrightarrow>
     items \<noteq> [] \<and> distinct (map GroupId items) \<and> group_key (fst key) (snd key) = Some key)"

definition accounts_ok :: "((ResourceType \<times> 256 word \<times> 160 word) \<times> 256 word) list \<Rightarrow> bool" where
  "accounts_ok A \<longleftrightarrow> (\<forall>key \<in> dom (map_of A). fst key \<noteq> RESOURCE_TYPE_UNSPECIFIED)"

definition perm_stores_ok :: "perm_state \<Rightarrow> bool" where
  "perm_stores_ok s \<longleftrightarrow> kv_ok (accountPolicies s) \<and> kv_ok (groupPolicies s) \<and> kv_ok (policies s) \<and>
     kv_ok (policyQueue s) \<and> groups_ok (groupPolicies s) \<and> accounts_ok (accountPolicies s)"

definition perm_ok :: "perm_env \<Rightarrow> perm_state \<Rightarrow> bool" where
  "perm_ok E s \<longleftrightarrow> perm_stores_ok s \<and>
     (\<exists>n. u256.holds PolicySequencePrefix n (sequences s) \<and>
          core_ok E (index s) (map_of (policies s)) (queue s) n)"

lemma perm_okE:
  assumes "perm_ok E s"
  obtains n where "perm_stores_ok s" "u256.holds PolicySequencePrefix n (sequences s)"
    "core_ok E (index s) (map_of (policies s)) (queue s) n"
  using assms unfolding perm_ok_def by blast

lemma perm_okI:
  "perm_stores_ok s \<Longrightarrow> u256.holds PolicySequencePrefix n (sequences s) \<Longrightarrow>
   core_ok E (index s) (map_of (policies s)) (queue s) n \<Longrightarrow> perm_ok E s"
  unfolding perm_ok_def by blast

lemma index_account [simp]:
  "index_of (A((rt, i, a) := v)) G = (index_of A G)((rt, i, ToAccount a) := v)"
proof
  fix k show "index_of (A((rt, i, a) := v)) G k = ((index_of A G)((rt, i, ToAccount a) := v)) k"
    by (cases k; cases "snd (snd k)") auto
qed

lemma index_group:
  assumes "\<forall>h. h \<noteq> g \<longrightarrow> item_of h items = item_of h (G (rt, i))"
  shows "index_of A (G((rt, i) := items)) = (index_of A G)((rt, i, ToGroup g) := map_option PolicyId (item_of g items))"
proof
  fix k show "index_of A (G((rt, i) := items)) k =
      ((index_of A G)((rt, i, ToGroup g) := map_option PolicyId (item_of g items))) k"
    using assms by (cases k; cases "snd (snd k)") auto
qed

lemma items_at_set [simp]: "items_at (kv_set key items G) = (items_at G)(key := items)"
  by (auto simp: items_at_def kv_simps fun_eq_iff)

lemma items_at_del [simp]: "items_at (kv_del key G) = (items_at G)(key := [])"
  by (auto simp: items_at_def kv_simps fun_eq_iff)

lemma item_of_append: "item_of h (items @ [\<lparr>PolicyId = i, GroupId = g\<rparr>]) =
    (case item_of h items of Some it \<Rightarrow> Some it | None \<Rightarrow> if h = g then Some \<lparr>PolicyId = i, GroupId = g\<rparr> else None)"
  by (induction items) (auto simp: item_of_def)

lemma item_of_None: "item_of g items = None \<longleftrightarrow> g \<notin> GroupId ` set items"
  by (auto simp: item_of_def find_None_iff)

lemma item_of_Some: "item_of g items = Some it \<Longrightarrow> it \<in> set items \<and> GroupId it = g"
  by (auto simp: item_of_def find_Some_iff)

lemma item_of_distinct: "distinct (map GroupId items) \<Longrightarrow> it \<in> set items \<Longrightarrow> item_of (GroupId it) items = Some it"
  by (induction items) (auto simp: item_of_def)

lemma remove_first_cong: "(\<And>x. x \<in> set xs \<Longrightarrow> P x = Q x) \<Longrightarrow> remove_first P xs = remove_first Q xs"
  by (induction xs) auto

lemma item_of_remove:
  assumes "distinct (map GroupId items)"
  shows "item_of h (remove_first (\<lambda>it. GroupId it = g) items) = (if h = g then None else item_of h items)"
  using assms
proof (induction items)
  case (Cons x xs)
  then have "GroupId x = g \<Longrightarrow> item_of g xs = None" by (auto simp: item_of_None)
  with Cons show ?case by (auto simp: item_of_def)
qed (simp add: item_of_def)

lemma set_remove_first: "set (remove_first P xs) \<subseteq> set xs"
  by (induction xs) auto

lemma distinct_remove_first: "distinct (map f xs) \<Longrightarrow> distinct (map f (remove_first P xs))"
  using set_remove_first by (induction xs) (auto, fastforce)

lemma groups_ok_items: "groups_ok G \<Longrightarrow> distinct (map GroupId (items_at G key))"
  by (cases "map_of G key") (auto simp: groups_ok_def items_at_def simp del: split_paired_All)

lemma groups_ok_set:
  "groups_ok G \<Longrightarrow> items \<noteq> [] \<Longrightarrow> distinct (map GroupId items) \<Longrightarrow> group_key (fst key) (snd key) = Some key
   \<Longrightarrow> groups_ok (kv_set key items G)"
  by (auto simp: groups_ok_def kv_simps simp del: split_paired_All)

lemma groups_ok_del: "groups_ok G \<Longrightarrow> groups_ok (kv_del key G)"
  by (auto simp: groups_ok_def kv_simps simp del: split_paired_All)

lemma accounts_ok_set: "accounts_ok A \<Longrightarrow> fst key \<noteq> RESOURCE_TYPE_UNSPECIFIED \<Longrightarrow> accounts_ok (kv_set key v A)"
  by (simp add: accounts_ok_def kv_simps)

lemma accounts_ok_del: "accounts_ok A \<Longrightarrow> accounts_ok (kv_del key A)"
  by (simp add: accounts_ok_def kv_simps)

lemmas stores_simps = groups_ok_set groups_ok_del accounts_ok_set accounts_ok_del kv_simps


section \<open>Steps on the stores\<close>

lemma enqueue_fields [simp]:
  "accountPolicies (enqueue t i s) = accountPolicies s" "groupPolicies (enqueue t i s) = groupPolicies s"
  "policies (enqueue t i s) = policies s" "sequences (enqueue t i s) = sequences s"
  "groupMembers (enqueue t i s) = groupMembers s" "membersById (enqueue t i s) = membersById s"
  "permParams (enqueue t i s) = permParams s"
  by (simp_all add: enqueue_def split: option.splits)

lemma dequeue_fields [simp]:
  "accountPolicies (dequeue t i s) = accountPolicies s" "groupPolicies (dequeue t i s) = groupPolicies s"
  "policies (dequeue t i s) = policies s" "sequences (dequeue t i s) = sequences s"
  "groupMembers (dequeue t i s) = groupMembers s" "membersById (dequeue t i s) = membersById s"
  "permParams (dequeue t i s) = permParams s"
  by (simp_all add: dequeue_def split: option.splits)

lemma queue_enqueue: "queue (enqueue (ExpirationTime p) (Id p) s) = queue s \<union> queue_of p"
  by (auto simp: enqueue_def queue_of_def kv_simps split: option.splits)

lemma queue_dequeue: "queue (dequeue (ExpirationTime p) (Id p) s) = queue s - queue_of p"
  by (auto simp: dequeue_def queue_of_def kv_simps split: option.splits)

lemma kv_ok_enqueue: "kv_ok (policyQueue s) \<Longrightarrow> kv_ok (policyQueue (enqueue t i s))"
  by (auto simp: enqueue_def kv_simps split: option.splits)

lemma kv_ok_dequeue: "kv_ok (policyQueue s) \<Longrightarrow> kv_ok (policyQueue (dequeue t i s))"
  by (auto simp: dequeue_def kv_simps split: option.splits)

lemma word_less_inc:
  fixes n :: "'a::len word"
  assumes "n \<noteq> - 1"
  shows "n < n + 1"
proof -
  have "unat n + 1 \<noteq> 2 ^ LENGTH('a)"
  proof
    assume "unat n + 1 = 2 ^ LENGTH('a)"
    then have "of_nat (unat n + 1) = (of_nat (2 ^ LENGTH('a)) :: 'a word)" by simp
    then have "n + 1 = 0" by (simp add: add.commute)
    with assms show False by (simp add: eq_neg_iff_add_eq_0)
  qed
  moreover have "unat n < 2 ^ LENGTH('a)" by (rule unsigned_less)
  ultimately have "unat n + 1 < 2 ^ LENGTH('a)" by linarith
  then have "unat (n + 1) = unat n + 1" by (simp add: unat_word_ariths)
  then show ?thesis by (simp add: word_less_nat_alt)
qed

lemma next_id_cases:
  assumes "u256.holds key n (sequences s)"
  obtains "n = - 1" "next_id key s = (Panic, s)"
  | q where "n \<noteq> - 1" "n < n + 1" "next_id key s = (Ok (n + 1), s\<lparr>sequences := q\<rparr>)" "u256.holds key (n + 1) q"
      "\<forall>k. k \<noteq> key \<longrightarrow> map_of q k = map_of (sequences s) k"
proof (cases "n = - 1")
  case True
  have "NextVal seq_Uint key (sequences s) = ((Panic, sequences s) :: (perm_error, 256 word) outcome \<times> byte_store)"
    by (rule u256.next_last [OF assms True])
  with that(1) [OF True] show ?thesis by (simp add: next_id_def)
next
  case False
  then have lt: "n < n + 1" by (rule word_less_inc)
  obtain q where "NextVal seq_Uint key (sequences s) = (Ok (n + 1) :: (perm_error, 256 word) outcome, q)" "u256.holds key (n + 1) q"
    "\<forall>k. k \<noteq> key \<longrightarrow> map_of q k = map_of (sequences s) k"
    by (rule u256.next_holds [OF assms False])
  with that(2) [OF False lt] show ?thesis by (simp add: next_id_def)
qed


section \<open>Storing a policy\<close>

lemma must_Ok [simp]: "must x s = (Ok a, s') \<longleftrightarrow> x = Some a \<and> s' = s"
  by (auto simp: must_def split: option.splits)

lemma must_Err [simp]: "must x s \<noteq> (Err e, s')"
  by (auto simp: must_def split: option.splits)

lemma storePolicy_ok:
  assumes s: "perm_stores_ok s" "core_ok E (index s) (map_of (policies s)) (queue s) n"
    and seq: "n < i" "u256.holds PolicySequencePrefix i (sequences t)"
    and k: "policy_slot E (p\<lparr>Id := i\<rparr>) = Some k" "index s k = None"
    and t: "index t = (index s)(k \<mapsto> i)" "policies t = policies s" "policyQueue t = policyQueue s" "perm_stores_ok t"
  shows "perm_ok E (storePolicy (p\<lparr>Id := i\<rparr>) t)"
    and "grants (storePolicy (p\<lparr>Id := i\<rparr>) t) = (grants s)(k \<mapsto> terms p)"
proof -
  let ?p = "p\<lparr>Id := i\<rparr>" and ?t = "storePolicy (p\<lparr>Id := i\<rparr>) t"
  note ins = core_insert [OF s(2) seq(1) _ k, simplified]
  have q: "queue (enqueue (ExpirationTime ?p) (Id ?p) (t\<lparr>policies := x\<rparr>)) = queue s \<union> queue_of ?p" for x
    using t(3) by (simp only: queue_enqueue) simp
  have "queue ?t = queue s \<union> queue_of ?p" using q by (simp add: storePolicy_def)
  moreover have "map_of (policies ?t) = (map_of (policies s))(i \<mapsto> ?p)" "index ?t = (index s)(k \<mapsto> i)"
    using t by (simp_all add: storePolicy_def kv_simps)
  ultimately have "core_ok E (index ?t) (map_of (policies ?t)) (queue ?t) i" "grants ?t = (grants s)(k \<mapsto> terms ?p)"
    using ins by (simp_all add: grants_def)
  moreover have "perm_stores_ok ?t" using t by (simp add: perm_stores_ok_def storePolicy_def kv_simps kv_ok_enqueue)
  ultimately show "perm_ok E ?t" "grants ?t = (grants s)(k \<mapsto> terms p)"
    using seq(2) by (auto intro: perm_okI simp: storePolicy_def terms_def)
qed

lemma updatePolicy_ok:
  assumes "perm_ok E s" "index s k = Some i" "map_of (policies s) i = Some old"
  shows "perm_ok E (snd (updatePolicy old new s))"
    and "grants (snd (updatePolicy old new s)) = (grants s)(k \<mapsto> terms new)"
    and "index (snd (updatePolicy old new s)) = index s"
proof -
  let ?q = "old\<lparr>Statements := Statements new, ExpirationTime := ExpirationTime new\<rparr>"
  let ?t = "snd (updatePolicy old new s)"
  obtain n where n: "perm_stores_ok s" "u256.holds PolicySequencePrefix n (sequences s)"
    "core_ok E (index s) (map_of (policies s)) (queue s) n" by (rule perm_okE [OF assms(1)])
  have id: "Id old = i" using core_pol [OF n(3) assms(3)] by simp
  have same: "queue s - queue_of old \<union> queue_of ?q = queue s" if "ExpirationTime old = ExpirationTime new"
  proof -
    have "queue_of old \<subseteq> queue s" using core_queue [OF n(3)] assms(3) by auto
    moreover have "queue_of ?q = queue_of old" using that by (simp add: queue_of_def split: option.splits)
    ultimately show ?thesis by auto
  qed
  have "queue ?t = queue s - queue_of old \<union> queue_of ?q"
  proof (cases "ExpirationTime old = ExpirationTime new")
    case True
    then show ?thesis using same by (simp add: updatePolicy_def Let_def)
  next
    case False
    have "queue (enqueue (ExpirationTime ?q) (Id ?q) (dequeue (ExpirationTime old) (Id old) s))
        = queue s - queue_of old \<union> queue_of ?q"
      by (simp only: queue_enqueue queue_dequeue)
    with False show ?thesis by (simp add: updatePolicy_def Let_def)
  qed
  moreover have "map_of (policies ?t) = (map_of (policies s))(i \<mapsto> ?q)" "index ?t = index s" "sequences ?t = sequences s"
    using id by (simp_all add: updatePolicy_def Let_def kv_simps)
  moreover have "perm_stores_ok ?t"
    using n(1) by (auto simp: perm_stores_ok_def updatePolicy_def Let_def kv_simps kv_ok_enqueue kv_ok_dequeue)
  ultimately show "perm_ok E ?t" "grants ?t = (grants s)(k \<mapsto> terms new)" "index ?t = index s"
    using core_update [where ss = "Statements new" and t = "ExpirationTime new", OF n(3) assms(2,3) refl] n(2)
    by (auto intro!: perm_okI simp: grants_def terms_def)
qed

lemma index_policy:
  assumes "perm_ok E s" "index s k = Some i"
  obtains p where "map_of (policies s) i = Some p" "policy_slot E p = Some k" "Id p = i"
proof -
  obtain n where c: "core_ok E (index s) (map_of (policies s)) (queue s) n" by (rule perm_okE [OF assms(1)])
  from core_idx [OF c assms(2)] obtain p where "map_of (policies s) i = Some p" "policy_slot E p = Some k" by blast
  with core_pol [OF c this(1)] that show ?thesis by blast
qed

lemma put_account_ok:
  assumes ok: "perm_ok E s" and type: "PType (PrincipalOf p) = PRINCIPAL_TYPE_GNFD_ACCOUNT"
    and run: "put_account_policy E p s = (Ok r, s')"
  shows "\<exists>k. policy_slot E p = Some k \<and> perm_ok E s' \<and> grants s' = (grants s)(k \<mapsto> terms p) \<and>
    r = (if index s k = None then the (index s' k) else Id p)"
proof -
  from run obtain a where a: "AccAddressFromHex E (PValue (PrincipalOf p)) = Some a"
    "ResourceTypeOf p \<noteq> RESOURCE_TYPE_UNSPECIFIED"
    using type by (auto simp: put_account_policy_def MustGetAccountAddress_def GetAccountAddress_def account_key_def
        must_def andthen_eq_Ok split: option.splits outcome.splits if_splits)
  define key where "key = (ResourceTypeOf p, ResourceId p, a)"
  define k where "k = (ResourceTypeOf p, ResourceId p, ToAccount a)"
  have slot: "policy_slot E (p\<lparr>Id := i\<rparr>) = Some k" "policy_slot E p = Some k" for i
    using type a by (simp_all add: policy_slot_def principal_grantee_def k_def)
  have idx: "index s k = map_of (accountPolicies s) key" by (simp add: k_def key_def)
  have run': "(case map_of (accountPolicies s) key of
          Some i \<Rightarrow> andthen (MustGetPolicyByID i s) (override_policy p)
        | None \<Rightarrow> andthen (next_id PolicySequencePrefix s) (add_account_policy key p)) = (Ok r, s')"
    unfolding key_def using run type a
    by (simp add: put_account_policy_def MustGetAccountAddress_def GetAccountAddress_def account_key_def must_def)
  obtain n where n: "perm_stores_ok s" "u256.holds PolicySequencePrefix n (sequences s)"
    "core_ok E (index s) (map_of (policies s)) (queue s) n" by (rule perm_okE [OF ok])
  show ?thesis
  proof (cases "map_of (accountPolicies s) key")
    case (Some i)
    then have i: "index s k = Some i" using idx by simp
    obtain old where old: "map_of (policies s) i = Some old" by (rule index_policy [OF ok i])
    from updatePolicy_ok [OF ok i old] run' Some i old slot show ?thesis
      by (auto simp: MustGetPolicyByID_def GetPolicyByID_def override_policy_def)
  next
    case None
    then have new: "index s k = None" using idx by simp
    show ?thesis
    proof (cases rule: next_id_cases [OF n(2)])
      case 1
      with run' None show ?thesis by simp
    next
      case (2 q)
      define t where "t = s\<lparr>sequences := q, accountPolicies := kv_set key (n + 1) (accountPolicies s)\<rparr>"
      have s': "s' = storePolicy (p\<lparr>Id := n + 1\<rparr>) t" "r = n + 1"
        using run' None 2 by (auto simp: t_def add_account_policy_def)
      have t: "index t = (index s)(k \<mapsto> n + 1)" "policies t = policies s" "policyQueue t = policyQueue s"
        "u256.holds PolicySequencePrefix (n + 1) (sequences t)" "perm_stores_ok t"
        using 2 n(1) a(2) by (auto simp: t_def key_def k_def perm_stores_ok_def stores_simps)
      from storePolicy_ok [OF n(1,3) 2(2) t(4) slot(1) new t(1-3,5)] s' slot(2) new t(1)
      show ?thesis by (auto simp: storePolicy_def)
    qed
  qed
qed

lemma override_items_spec:
  assumes "MustGetGroupID E (PrincipalOf p) = Some g" "distinct (map GroupId items)"
  shows "override_items E items p found s = (case item_of g items of
      None \<Rightarrow> (Ok found, s)
    | Some it \<Rightarrow> andthen (andthen (MustGetPolicyByID (PolicyId it) s) (override_policy p)) (\<lambda>_ s. (Ok True, s)))"
  using assms(2)
proof (induction items arbitrary: found s)
  case (Cons it items)
  have none: "override_items E items p f = Pair (Ok f)" if "GroupId it = g" for f
    using Cons that by (simp add: fun_eq_iff item_of_None [THEN iffD2])
  show ?case
  proof (cases "GroupId it = g")
    case True
    with none assms(1) show ?thesis by (simp add: must_def item_of_def)
  next
    case False
    with Cons assms(1) show ?thesis by (simp add: must_def item_of_def)
  qed
qed (simp add: item_of_def)

lemma append_group_ok:
  assumes n: "perm_stores_ok s" "u256.holds PolicySequencePrefix n (sequences s)"
      "core_ok E (index s) (map_of (policies s)) (queue s) n"
    and g: "MustGetGroupID E (PrincipalOf p) = Some g" "PType (PrincipalOf p) = PRINCIPAL_TYPE_GNFD_GROUP"
    and key: "group_key (ResourceTypeOf p) (ResourceId p) = Some (ResourceTypeOf p, ResourceId p)"
    and items: "items = items_at (groupPolicies s) (ResourceTypeOf p, ResourceId p)" "item_of g items = None"
    and run: "append_group_policy E (ResourceTypeOf p, ResourceId p) items p s = (Ok r, s')"
  shows "policy_slot E p = Some (ResourceTypeOf p, ResourceId p, ToGroup g)" and "perm_ok E s'"
    and "grants s' = (grants s)((ResourceTypeOf p, ResourceId p, ToGroup g) \<mapsto> terms p)"
    and "index s' (ResourceTypeOf p, ResourceId p, ToGroup g) = Some r"
proof -
  define k where "k = (ResourceTypeOf p, ResourceId p, ToGroup g)"
  have parse: "ParseUint E (PValue (PrincipalOf p)) = Some g"
    using g by (auto simp: MustGetGroupID_def GetGroupID_def split: outcome.splits option.splits if_splits)
  then have slot: "policy_slot E (p\<lparr>Id := i\<rparr>) = Some k" "policy_slot E p = Some k" for i
    using g(2) by (simp_all add: policy_slot_def principal_grantee_def k_def)
  have new: "index s k = None" using items by (simp add: k_def)
  have dist: "distinct (map GroupId (items @ [\<lparr>PolicyId = i, GroupId = g\<rparr>]))" for i
    using items n(1) groups_ok_items by (auto simp: perm_stores_ok_def item_of_None)
  have "perm_ok E s' \<and> grants s' = (grants s)(k \<mapsto> terms p) \<and> index s' k = Some r"
  proof (cases rule: next_id_cases [OF n(2)])
    case 1
    with run show ?thesis by (simp add: append_group_policy_def)
  next
    case (2 q)
    let ?new = "items @ [\<lparr>PolicyId = n + 1, GroupId = g\<rparr>]"
    define t where "t = s\<lparr>sequences := q,
      groupPolicies := kv_set (ResourceTypeOf p, ResourceId p) ?new (groupPolicies s)\<rparr>"
    have s': "s' = storePolicy (p\<lparr>Id := n + 1\<rparr>) t" "r = n + 1"
      using run 2 g(1) by (auto simp: append_group_policy_def add_group_policy_def must_def t_def)
    have "index t = (index s)(k := map_option PolicyId (item_of g ?new))"
      unfolding k_def using items index_group [of g ?new "items_at (groupPolicies s)"]
      by (simp add: t_def item_of_append split: option.splits)
    then have idx: "index t = (index s)(k \<mapsto> n + 1)" using items(2) by (simp add: item_of_append)
    have t: "policies t = policies s" "policyQueue t = policyQueue s"
      "u256.holds PolicySequencePrefix (n + 1) (sequences t)" "perm_stores_ok t"
      using 2 n(1) key dist by (auto simp: t_def perm_stores_ok_def stores_simps)
    from storePolicy_ok [OF n(1,3) 2(2) t(3) slot(1) new idx t(1,2,4)] s' idx
    show ?thesis by (simp add: storePolicy_def)
  qed
  with slot(2) show "policy_slot E p = Some (ResourceTypeOf p, ResourceId p, ToGroup g)" "perm_ok E s'"
    "grants s' = (grants s)((ResourceTypeOf p, ResourceId p, ToGroup g) \<mapsto> terms p)"
    "index s' (ResourceTypeOf p, ResourceId p, ToGroup g) = Some r"
    by (simp_all add: k_def)
qed

lemma group_key_Some: "group_key rt i = Some key \<longleftrightarrow> key = (rt, i) \<and> (rt = RESOURCE_TYPE_BUCKET \<or> rt = RESOURCE_TYPE_OBJECT)"
  by (auto simp: group_key_def)

lemma override_items_None:
  "MustGetGroupID E (PrincipalOf p) = None \<Longrightarrow> items \<noteq> [] \<Longrightarrow> override_items E items p found s = (Panic, s)"
  by (cases items) (auto simp: must_def)

lemma put_group_ok:
  assumes ok: "perm_ok E s" and type: "PType (PrincipalOf p) = PRINCIPAL_TYPE_GNFD_GROUP"
    and run: "put_group_policy E p s = (Ok r, s')"
  shows "\<exists>k. policy_slot E p = Some k \<and> perm_ok E s' \<and> grants s' = (grants s)(k \<mapsto> terms p) \<and>
    r = (if index s k = None then the (index s' k) else Id p)"
proof -
  define key where "key = (ResourceTypeOf p, ResourceId p)"
  have key: "group_key (ResourceTypeOf p) (ResourceId p) = Some key"
    using run by (auto simp: put_group_policy_def must_def key_def group_key_def split: if_splits)
  obtain n where n: "perm_stores_ok s" "u256.holds PolicySequencePrefix n (sequences s)"
    "core_ok E (index s) (map_of (policies s)) (queue s) n" by (rule perm_okE [OF ok])
  note add = append_group_ok [OF n _ type key [unfolded key_def]]
  have run': "(case map_of (groupPolicies s) key of
        Some items \<Rightarrow>
          if unat (MaximumPolicyGroupSize s) \<le> length items then (Err ErrLimitExceeded, s)
          else andthen (override_items E items p False s) (\<lambda>found s.
            if found then (Ok (Id p), s) else append_group_policy E key items p s)
      | None \<Rightarrow> append_group_policy E key [] p s) = (Ok r, s')"
    using run key by (simp add: put_group_policy_def must_def)
  show ?thesis
  proof (cases "map_of (groupPolicies s) key")
    case None
    then have r: "append_group_policy E key [] p s = (Ok r, s')" using run' by simp
    then obtain g where g: "MustGetGroupID E (PrincipalOf p) = Some g"
      by (auto simp: append_group_policy_def andthen_eq_Ok)
    have i: "[] = items_at (groupPolicies s) key" "item_of g [] = None" using None by (simp_all add: items_at_def item_of_def)
    from add [OF g i [unfolded key_def] r [unfolded key_def]] i show ?thesis by (auto simp: key_def)
  next
    case (Some items)
    have items: "items = items_at (groupPolicies s) key" "items \<noteq> []" "distinct (map GroupId items)"
      using Some n(1) by (auto simp: items_at_def perm_stores_ok_def groups_ok_def simp del: split_paired_All)
    have r: "andthen (override_items E items p False s) (\<lambda>found s.
        if found then (Ok (Id p), s) else append_group_policy E key items p s) = (Ok r, s')"
      using run' Some by (simp split: if_splits)
    then obtain g where g: "MustGetGroupID E (PrincipalOf p) = Some g"
      using override_items_None [OF _ items(2)] by (cases "MustGetGroupID E (PrincipalOf p)") auto
    show ?thesis
    proof (cases "item_of g items")
      case None
      then have a: "append_group_policy E key items p s = (Ok r, s')"
        using r override_items_spec [OF g items(3)] by simp
      from add [OF g items(1) [unfolded key_def] None a [unfolded key_def]] None items(1) show ?thesis by (auto simp: key_def)
    next
      case (Some it)
      have i: "index s (ResourceTypeOf p, ResourceId p, ToGroup g) = Some (PolicyId it)"
        using Some items(1) by (simp add: key_def)
      obtain old where old: "map_of (policies s) (PolicyId it) = Some old" by (rule index_policy [OF ok i])
      have "s' = snd (updatePolicy old p s)" "r = Id p"
        using r override_items_spec [OF g items(3)] Some old
        by (auto simp: MustGetPolicyByID_def GetPolicyByID_def override_policy_def)
      moreover have "policy_slot E p = Some (ResourceTypeOf p, ResourceId p, ToGroup g)"
        using g type by (auto simp: policy_slot_def principal_grantee_def MustGetGroupID_def GetGroupID_def
            split: outcome.splits option.splits if_splits)
      ultimately show ?thesis using updatePolicy_ok [OF ok i old] i by auto
    qed
  qed
qed

text \<open>\<open>PutPolicy\<close> on success sets exactly the grant of its slot; an error changes nothing.\<close>

lemma PutPolicy_ok:
  assumes "perm_ok E s" "PutPolicy E p s = (Ok r, s')"
  obtains k where "policy_slot E p = Some k" "perm_ok E s'" "grants s' = (grants s)(k \<mapsto> terms p)"
    "r = (if index s k = None then the (index s' k) else Id p)"
  using assms put_account_ok [OF assms(1), of p r s'] put_group_ok [OF assms(1), of p r s']
  by (cases "PType (PrincipalOf p)") (auto simp: PutPolicy_def)



section \<open>Deleting policies\<close>

lemma delete_step_ok:
  assumes ok: "perm_ok E s" and k: "index s k = Some i" "map_of (policies s) i = Some p"
    and t: "index t = (index s)(k := None)" "map_of (policies t) = (map_of (policies s))(i := None)"
      "queue t = queue s - queue_of p" "sequences t = sequences s" "perm_stores_ok t"
  shows "perm_ok E t" and "grants t = (grants s)(k := None)"
proof -
  obtain n where n: "u256.holds PolicySequencePrefix n (sequences s)"
    "core_ok E (index s) (map_of (policies s)) (queue s) n" by (rule perm_okE [OF ok])
  from core_delete [OF n(2) k] t n(1) show "perm_ok E t" "grants t = (grants s)(k := None)"
    by (auto intro: perm_okI simp: grants_def)
qed

lemma drop_policy_fields [simp]:
  "accountPolicies (drop_policy i s) = accountPolicies s" "groupPolicies (drop_policy i s) = groupPolicies s"
  "policies (drop_policy i s) = kv_del i (policies s)" "sequences (drop_policy i s) = sequences s"
  "permParams (drop_policy i s) = permParams s"
  "groupMembers (drop_policy i s) = groupMembers s" "membersById (drop_policy i s) = membersById s"
  by (simp_all add: drop_policy_def Let_def)

lemma drop_policy_queue: "map_of (policies s) i = Some p \<Longrightarrow> queue (drop_policy i s) = queue s - queue_of p"
  using queue_dequeue [of p "s\<lparr>policies := kv_del i (policies s)\<rparr>"]
  by (simp add: drop_policy_def GetPolicyByID_def Let_def)

lemma kv_ok_drop: "kv_ok (policyQueue s) \<Longrightarrow> kv_ok (policyQueue (drop_policy i s))"
  by (simp add: drop_policy_def Let_def kv_ok_dequeue)

lemma stores_ok_drop: "perm_stores_ok s \<Longrightarrow> perm_stores_ok (drop_policy i s)"
  by (simp add: perm_stores_ok_def kv_simps kv_ok_drop)

lemma store_items_fields [simp]:
  "accountPolicies (store_items key items s) = accountPolicies s" "policies (store_items key items s) = policies s"
  "policyQueue (store_items key items s) = policyQueue s" "sequences (store_items key items s) = sequences s"
  "permParams (store_items key items s) = permParams s"
  "groupMembers (store_items key items s) = groupMembers s" "membersById (store_items key items s) = membersById s"
  "items_at (groupPolicies (store_items key items s)) = (items_at (groupPolicies s))(key := items)"
  by (simp_all add: store_items_def)

lemma stores_ok_items:
  "perm_stores_ok s \<Longrightarrow> distinct (map GroupId items) \<Longrightarrow> items = [] \<or> group_key (fst key) (snd key) = Some key
   \<Longrightarrow> perm_stores_ok (store_items key items s)"
  by (auto simp: perm_stores_ok_def store_items_def stores_simps)

lemma remove_account_ok:
  assumes ok: "perm_ok E s" and key: "map_of (accountPolicies s) (rt, i, a) = Some v"
    and t: "t = (drop_policy v s)\<lparr>accountPolicies := kv_del (rt, i, a) (accountPolicies s)\<rparr>"
  shows "perm_ok E t" and "grants t = (grants s)((rt, i, ToAccount a) := None)"
proof -
  have k: "index s (rt, i, ToAccount a) = Some v" using key by simp
  obtain p where p: "map_of (policies s) v = Some p" by (rule index_policy [OF ok k])
  have st: "perm_stores_ok s" by (rule perm_okE [OF ok])
  then have "perm_stores_ok t" using stores_ok_drop [OF st, of v] by (simp add: t perm_stores_ok_def stores_simps)
  then show "perm_ok E t" "grants t = (grants s)((rt, i, ToAccount a) := None)"
    using delete_step_ok [OF ok k p, of t] drop_policy_queue [OF p] by (simp_all add: t kv_simps)
qed

lemma remove_group_ok:
  assumes ok: "perm_ok E s" and it: "item_of g (items_at (groupPolicies s) (rt, i)) = Some it"
    and t: "t = store_items (rt, i) (remove_first (\<lambda>it. GroupId it = g) (items_at (groupPolicies s) (rt, i)))
      (drop_policy (PolicyId it) s)"
  shows "perm_ok E t" and "grants t = (grants s)((rt, i, ToGroup g) := None)"
proof -
  let ?items = "items_at (groupPolicies s) (rt, i)"
  have k: "index s (rt, i, ToGroup g) = Some (PolicyId it)" using it by simp
  obtain p where p: "map_of (policies s) (PolicyId it) = Some p" by (rule index_policy [OF ok k])
  have st: "perm_stores_ok s" by (rule perm_okE [OF ok])
  then have d: "distinct (map GroupId ?items)" by (simp add: perm_stores_ok_def groups_ok_items)
  have "map_of (groupPolicies s) (rt, i) \<noteq> None"
    using it by (auto simp: items_at_def item_of_def split: option.splits)
  then have "group_key rt i = Some (rt, i)" using st by (auto simp: perm_stores_ok_def groups_ok_def)
  then have "perm_stores_ok t"
    using stores_ok_items [OF stores_ok_drop [OF st]] distinct_remove_first [OF d] by (simp add: t)
  moreover have "index t = (index s)((rt, i, ToGroup g) := None)"
    using index_group [of g "remove_first (\<lambda>it. GroupId it = g) ?items" "items_at (groupPolicies s)" rt i]
      item_of_remove [OF d, of _ g] by (simp add: t)
  ultimately show "perm_ok E t" "grants t = (grants s)((rt, i, ToGroup g) := None)"
    using delete_step_ok [OF ok k p, of t] drop_policy_queue [OF p] by (simp_all add: t kv_simps)
qed

text \<open>\<open>DeletePolicy\<close> removes exactly the grant of its slot, when there is one.\<close>

lemma DeletePolicy_ok:
  assumes ok: "perm_ok E s" and run: "DeletePolicy E who rt i s = (Ok r, s')"
  obtains g where "principal_grantee E who = Some g" "perm_ok E s'"
    "grants s' = (grants s)((rt, i, g) := None)" "r = index s (rt, i, g)"
proof (cases "PType who")
  case PRINCIPAL_TYPE_UNSPECIFIED
  with run show thesis by (simp add: DeletePolicy_def)
next
  case PRINCIPAL_TYPE_GNFD_ACCOUNT
  with run obtain a where a: "AccAddressFromHex E (PValue who) = Some a" "rt \<noteq> RESOURCE_TYPE_UNSPECIFIED"
    by (auto simp: DeletePolicy_def must_def account_key_def andthen_eq_Ok split: option.splits if_splits)
  have g: "principal_grantee E who = Some (ToAccount a)"
    using PRINCIPAL_TYPE_GNFD_ACCOUNT a by (simp add: principal_grantee_def)
  show thesis
  proof (cases "map_of (accountPolicies s) (rt, i, a)")
    case None
    then have "grants s (rt, i, ToAccount a) = None" by (simp add: grants_def core_grants_def)
    then have "grants s = (grants s)((rt, i, ToAccount a) := None)" by auto
    with that [OF g] None run ok a PRINCIPAL_TYPE_GNFD_ACCOUNT show thesis
      by (auto simp: DeletePolicy_def must_def account_key_def GetPolicyForAccount_def)
  next
    case (Some v)
    then have "index s (rt, i, ToAccount a) = Some v" by simp
    from index_policy [OF ok this] obtain p where p: "map_of (policies s) v = Some p" "Id p = v" by blast
    have "s' = (drop_policy v s)\<lparr>accountPolicies := kv_del (rt, i, a) (accountPolicies s)\<rparr>" "r = Some v"
      using run Some a p PRINCIPAL_TYPE_GNFD_ACCOUNT
      by (auto simp: DeletePolicy_def must_def account_key_def GetPolicyForAccount_def GetPolicyByID_def
          drop_policy_def dequeue_def split: option.splits)
    with remove_account_ok [OF ok Some this(1)] Some that [OF g] show thesis by simp
  qed
next
  case PRINCIPAL_TYPE_GNFD_GROUP
  with run obtain h where h: "ParseUint E (PValue who) = Some h"
    by (auto simp: DeletePolicy_def GetGroupID_def split: option.splits)
  then have g: "principal_grantee E who = Some (ToGroup h)"
    using PRINCIPAL_TYPE_GNFD_GROUP by (simp add: principal_grantee_def)
  have key: "group_key rt i = Some (rt, i)"
    using run PRINCIPAL_TYPE_GNFD_GROUP h by (auto simp: DeletePolicy_def GetGroupID_def must_def group_key_def split: if_splits)
  let ?items = "items_at (groupPolicies s) (rt, i)"
  show thesis
  proof (cases "item_of h ?items")
    case None
    then have "grants s (rt, i, ToGroup h) = None" by (simp add: grants_def core_grants_def)
    then have "grants s = (grants s)((rt, i, ToGroup h) := None)" by auto
    moreover have "s' = s" "r = None"
      using None run h key PRINCIPAL_TYPE_GNFD_GROUP
      by (auto simp: DeletePolicy_def GetGroupID_def must_def items_at_def item_of_def split: option.splits)
    ultimately show thesis using that [OF g] ok None by simp
  next
    case (Some it)
    then have "map_of (groupPolicies s) (rt, i) = Some ?items"
      by (auto simp: items_at_def item_of_def split: option.splits)
    then have "s' = store_items (rt, i) (remove_first (\<lambda>it. GroupId it = h) ?items) (drop_policy (PolicyId it) s)"
      "r = Some (PolicyId it)"
      using Some run h key PRINCIPAL_TYPE_GNFD_GROUP
      by (auto simp: DeletePolicy_def GetGroupID_def must_def item_of_def)
    with remove_group_ok [OF ok Some this(1)] Some that [OF g] show thesis by simp
  qed
qed

end
