(* ===== verification/PermissionClean.thy ===== *)
theory PermissionClean
  imports PermissionInv
begin

text \<open>
  The loops that clean the permission stores: the forced deletions after a resource is deleted, with
  their budget of deletions, and the removal of expired policies at the end of a block.
\<close>

definition without :: "'k set \<Rightarrow> ('k \<Rightarrow> 'v option) \<Rightarrow> 'k \<Rightarrow> 'v option" where
  "without K f k = (if k \<in> K then None else f k)"

lemma without_empty [simp]: "without {} f = f"
  by (simp add: without_def fun_eq_iff)

lemma without_upd: "without K (f(k := None)) = without (insert k K) f"
  by (auto simp: without_def fun_eq_iff)

lemma without_same: "K \<subseteq> L \<Longrightarrow> (\<And>k. k \<in> L \<Longrightarrow> k \<notin> K \<Longrightarrow> f k = None) \<Longrightarrow> without K f = without L f"
  by (auto simp: without_def fun_eq_iff)


section \<open>Forced deletion\<close>

text \<open>How many of \<open>n\<close> entries a budget still allows.\<close>

definition allowed :: "64 word \<Rightarrow> 64 word \<Rightarrow> nat \<Rightarrow> nat" where
  "allowed maxDelete deletedTotal n = min n (unat maxDelete - unat deletedTotal)"

lemma allowed_step:
  assumes "\<not> maxDelete \<le> deletedTotal"
  shows "allowed maxDelete deletedTotal (Suc n) = Suc (allowed maxDelete (deletedTotal + 1) n)"
    and "unat (deletedTotal + 1) = unat deletedTotal + 1"
proof -
  from assms have lt: "unat deletedTotal < unat maxDelete" by (simp add: not_le word_less_nat_alt)
  have "unat maxDelete < 2 ^ 64" using unsigned_less [of maxDelete] by simp
  with lt have "unat deletedTotal + 1 < 2 ^ 64" by linarith
  then show u: "unat (deletedTotal + 1) = unat deletedTotal + 1" by (simp add: unat_word_ariths)
  show "allowed maxDelete deletedTotal (Suc n) = Suc (allowed maxDelete (deletedTotal + 1) n)"
    unfolding allowed_def u using lt by linarith
qed

lemma allowed_stop: "maxDelete \<le> deletedTotal \<Longrightarrow> allowed maxDelete deletedTotal n = 0"
  by (simp add: allowed_def word_le_nat_alt)

lemma allowed_le: "allowed m d n \<le> n"
  by (simp add: allowed_def)

definition account_slots :: "ResourceType \<Rightarrow> 256 word \<Rightarrow> (160 word \<times> 256 word) list \<Rightarrow> slot set" where
  "account_slots rt i es = (\<lambda>(a, v). (rt, i, ToAccount a)) ` set es"

lemma delete_account_entries_ok:
  assumes "perm_ok E s" "distinct (map fst es)"
    and "\<forall>(a, v) \<in> set es. map_of (accountPolicies s) (rt, i, a) = Some v"
    and "delete_account_entries rt i m es d s = ((d', fin), s')"
  shows "perm_ok E s' \<and> grants s' = without (account_slots rt i (take (allowed m d (length es)) es)) (grants s) \<and>
    unat d' = unat d + allowed m d (length es) \<and> (fin \<longleftrightarrow> allowed m d (length es) = length es)"
  using assms
proof (induction es arbitrary: d s)
  case Nil
  then show ?case by (simp add: account_slots_def allowed_def)
next
  case (Cons e es)
  obtain a v where e: "e = (a, v)" by (cases e)
  show ?case
  proof (cases "m \<le> d")
    case True
    then show ?thesis using Cons.prems e by (simp add: allowed_stop account_slots_def)
  next
    case False
    note st = allowed_step [OF False]
    define t where "t = (drop_policy v s)\<lparr>accountPolicies := kv_del (rt, i, a) (accountPolicies s)\<rparr>"
    have key: "map_of (accountPolicies s) (rt, i, a) = Some v" using Cons.prems(3) e by simp
    note t = remove_account_ok [OF Cons.prems(1) key t_def]
    have "\<forall>(b, w) \<in> set es. map_of (accountPolicies t) (rt, i, b) = Some w"
      using Cons.prems(2,3) e by (force simp: t_def kv_simps)
    moreover have "delete_account_entries rt i m es (d + 1) t = ((d', fin), s')"
      using Cons.prems(4) False e by (simp add: t_def Let_def)
    ultimately have IH: "perm_ok E s' \<and>
        grants s' = without (account_slots rt i (take (allowed m (d + 1) (length es)) es)) (grants t) \<and>
        unat d' = unat (d + 1) + allowed m (d + 1) (length es) \<and> (fin \<longleftrightarrow> allowed m (d + 1) (length es) = length es)"
      using Cons.IH [OF t(1)] Cons.prems(2) by simp
    then show ?thesis by (simp add: st e t(2) without_upd account_slots_def)
  qed
qed

lemma account_entries_mem:
  assumes "kv_ok (accountPolicies s)"
  shows "(a, v) \<in> set (account_entries rt i s) \<longleftrightarrow> map_of (accountPolicies s) (rt, i, a) = Some v"
proof -
  have "distinct (map fst (accountPolicies s))" using assms kv.iter_distinct by blast
  then have "map_of (accountPolicies s) (rt, i, a) = Some v \<longleftrightarrow> ((rt, i, a), v) \<in> set (accountPolicies s)"
    by simp
  then show ?thesis by (force simp: account_entries_def)
qed

lemma account_entries_distinct:
  assumes "kv_ok (accountPolicies s)"
  shows "distinct (map fst (account_entries rt i s))"
proof -
  define ks where "ks = map fst (filter (\<lambda>((rt', i', _), _). rt' = rt \<and> i' = i) (accountPolicies s))"
  have "distinct ks" unfolding ks_def using kv.iter_distinct [OF assms] by (rule distinct_map_filter)
  moreover have "inj_on (\<lambda>(r, j, a). a) (set ks)" by (auto simp: inj_on_def ks_def)
  ultimately have "distinct (map (\<lambda>(r, j, a). a) ks)" by (simp add: distinct_map)
  then show ?thesis by (simp add: ks_def account_entries_def comp_def case_prod_beta)
qed

lemma force_account_ok:
  assumes ok: "perm_ok E s" and run: "ForceDeleteAccountPolicyForResource m d rt i s = ((d', fin), s')"
    and rt: "rt \<noteq> RESOURCE_TYPE_UNSPECIFIED"
  defines "n \<equiv> length (account_entries rt i s)"
  shows "perm_ok E s'" and "unat d' = unat d + allowed m d n" and "fin \<longleftrightarrow> allowed m d n = n"
    and "grants s' = without (account_slots rt i (take (allowed m d n) (account_entries rt i s))) (grants s)"
proof -
  have "kv_ok (accountPolicies s)" by (rule perm_okE [OF ok]) (simp add: perm_stores_ok_def)
  note e = account_entries_mem [OF this] account_entries_distinct [OF this]
  have "\<forall>(a, v) \<in> set (account_entries rt i s). map_of (accountPolicies s) (rt, i, a) = Some v" using e(1) by auto
  from delete_account_entries_ok [OF ok e(2) this] run rt
  show "perm_ok E s'" "unat d' = unat d + allowed m d n" "fin \<longleftrightarrow> allowed m d n = n"
    "grants s' = without (account_slots rt i (take (allowed m d n) (account_entries rt i s))) (grants s)"
    unfolding ForceDeleteAccountPolicyForResource_def n_def by auto
qed

lemma force_account_done:
  assumes ok: "perm_ok E s" and run: "ForceDeleteAccountPolicyForResource m d rt i s = ((d', True), s')"
    and rt: "rt \<noteq> RESOURCE_TYPE_UNSPECIFIED"
  shows "grants s' = without {(rt, i, ToAccount a) |a. True} (grants s)"
proof -
  have "kv_ok (accountPolicies s)" by (rule perm_okE [OF ok]) (simp add: perm_stores_ok_def)
  note e = account_entries_mem [OF this]
  note f = force_account_ok [OF ok run rt]
  then have g: "grants s' = without (account_slots rt i (account_entries rt i s)) (grants s)" by simp
  have none: "grants s k = None" if "k \<in> {(rt, i, ToAccount a) |a. True}" "k \<notin> account_slots rt i (account_entries rt i s)" for k
  proof -
    from that(1) obtain a where k: "k = (rt, i, ToAccount a)" by blast
    have "map_of (accountPolicies s) (rt, i, a) = None"
    proof (rule ccontr)
      assume "map_of (accountPolicies s) (rt, i, a) \<noteq> None"
      then obtain v where "(a, v) \<in> set (account_entries rt i s)" using e by blast
      then have "k \<in> account_slots rt i (account_entries rt i s)" unfolding k account_slots_def by force
      with that(2) show False by simp
    qed
    then show ?thesis by (simp add: k grants_def core_grants_def)
  qed
  have sub: "account_slots rt i es \<subseteq> {(rt, i, ToAccount a) |a. True}" for es
    by (auto simp: account_slots_def)
  show ?thesis unfolding g by (rule without_same [OF sub none])
qed


definition group_slots :: "ResourceType \<times> 256 word \<Rightarrow> PolicyGroup \<Rightarrow> slot set" where
  "group_slots key items = (\<lambda>it. (fst key, snd key, ToGroup (GroupId it))) ` set items"

lemma drop_policy_groups: "drop_policy i (s\<lparr>groupPolicies := G\<rparr>) = (drop_policy i s)\<lparr>groupPolicies := G\<rparr>"
  by (auto simp: drop_policy_def dequeue_def GetPolicyByID_def split: option.splits)

lemma store_items_twice:
  assumes "kv_ok (groupPolicies s)"
  shows "store_items key items (drop_policy i (store_items key items' s)) = store_items key items (drop_policy i s)"
proof -
  have "kv_del key (kv_set key x (groupPolicies s)) = kv_del key (groupPolicies s)"
    "kv_del key (kv_del key (groupPolicies s)) = kv_del key (groupPolicies s)"
    "kv_set key x (kv_del key (groupPolicies s)) = kv_set key x (groupPolicies s)"
    "kv_set key x (kv_set key y (groupPolicies s)) = kv_set key x (groupPolicies s)" for x y
    using assms by (auto simp: kv_simps intro!: kv_ext)
  then show ?thesis by (simp add: store_items_def drop_policy_groups)
qed

lemma remove_head_item:
  assumes ok: "perm_ok E (store_items (rt, i) (it # items) s)" and kv: "kv_ok (groupPolicies s)"
  defines "t \<equiv> store_items (rt, i) items (drop_policy (PolicyId it) s)"
  shows "perm_ok E t" and "grants t = (grants (store_items (rt, i) (it # items) s))((rt, i, ToGroup (GroupId it)) := None)"
proof -
  let ?s = "store_items (rt, i) (it # items) s"
  have it: "item_of (GroupId it) (items_at (groupPolicies ?s) (rt, i)) = Some it" by (simp add: item_of_def)
  have "t = store_items (rt, i) (remove_first (\<lambda>x. GroupId x = GroupId it) (items_at (groupPolicies ?s) (rt, i)))
      (drop_policy (PolicyId it) ?s)"
    unfolding t_def using store_items_twice [OF kv] by simp
  from remove_group_ok [OF ok it this] show "perm_ok E t"
    "grants t = (grants ?s)((rt, i, ToGroup (GroupId it)) := None)" by simp_all
qed

lemma delete_group_items_ok:
  assumes "perm_ok E (store_items (rt, i) items s)" "kv_ok (groupPolicies s)"
    and "delete_group_items (rt, i) m items d s = ((d', fin), s')"
  shows "perm_ok E s' \<and>
    grants s' = without (group_slots (rt, i) (take (allowed m d (length items)) items)) (grants (store_items (rt, i) items s)) \<and>
    unat d' = unat d + allowed m d (length items) \<and> (fin \<longleftrightarrow> allowed m d (length items) = length items)"
  using assms
proof (induction items arbitrary: d s)
  case Nil
  then show ?case by (simp add: group_slots_def allowed_def store_items_def)
next
  case (Cons it items)
  show ?case
  proof (cases "m \<le> d")
    case True
    then show ?thesis using Cons.prems by (auto simp: allowed_stop group_slots_def store_items_def)
  next
    case False
    note st = allowed_step [OF False]
    note t = remove_head_item [OF Cons.prems(1,2)]
    have "delete_group_items (rt, i) m items (d + 1) (drop_policy (PolicyId it) s) = ((d', fin), s')"
      using Cons.prems(3) False by simp
    from Cons.IH [OF t(1) _ this, unfolded t(2) without_upd] Cons.prems(2) show ?thesis
      by (simp add: st group_slots_def)
  qed
qed

lemma force_group_ok:
  assumes ok: "perm_ok E s" and run: "ForceDeleteGroupPolicyForResource m d rt i s = ((d', fin), s')"
    and rt: "rt = RESOURCE_TYPE_BUCKET \<or> rt = RESOURCE_TYPE_OBJECT"
  defines "items \<equiv> items_at (groupPolicies s) (rt, i)"
  shows "perm_ok E s'" and "unat d' = unat d + allowed m d (length items)"
    and "fin \<longleftrightarrow> allowed m d (length items) = length items"
    and "grants s' = without (group_slots (rt, i) (take (allowed m d (length items)) items)) (grants s)"
proof -
  have kv: "kv_ok (groupPolicies s)" by (rule perm_okE [OF ok]) (simp add: perm_stores_ok_def)
  have "perm_ok E s' \<and> unat d' = unat d + allowed m d (length items) \<and> (fin \<longleftrightarrow> allowed m d (length items) = length items) \<and>
    grants s' = without (group_slots (rt, i) (take (allowed m d (length items)) items)) (grants s)"
  proof (cases "map_of (groupPolicies s) (rt, i)")
    case None
    then have "items = []" by (simp add: items_def items_at_def)
    with None run rt ok show ?thesis
      by (auto simp: ForceDeleteGroupPolicyForResource_def allowed_def group_slots_def)
  next
    case (Some xs)
    then have xs: "items = xs" by (simp add: items_def items_at_def)
    have "groups_ok (groupPolicies s)" by (rule perm_okE [OF ok]) (simp add: perm_stores_ok_def)
    with Some have ne: "xs \<noteq> []" by (auto simp: groups_ok_def)
    then have same: "store_items (rt, i) xs s = s" using kv_set_same [OF kv Some] by (simp add: store_items_def)
    have "delete_group_items (rt, i) m xs d s = ((d', fin), s')"
      using run rt Some by (auto simp: ForceDeleteGroupPolicyForResource_def)
    from delete_group_items_ok [OF _ kv this, of E] ok same xs show ?thesis by simp
  qed
  then show "perm_ok E s'" "unat d' = unat d + allowed m d (length items)" "fin \<longleftrightarrow> allowed m d (length items) = length items"
    "grants s' = without (group_slots (rt, i) (take (allowed m d (length items)) items)) (grants s)" by blast+
qed

lemma force_group_done:
  assumes ok: "perm_ok E s" and run: "ForceDeleteGroupPolicyForResource m d rt i s = ((d', True), s')"
    and rt: "rt = RESOURCE_TYPE_BUCKET \<or> rt = RESOURCE_TYPE_OBJECT"
  shows "grants s' = without {(rt, i, ToGroup g) |g. True} (grants s)"
proof -
  let ?items = "items_at (groupPolicies s) (rt, i)"
  have g: "grants s' = without (group_slots (rt, i) ?items) (grants s)" using force_group_ok [OF ok run rt] by simp
  have none: "grants s k = None" if "k \<in> {(rt, i, ToGroup g) |g. True}" "k \<notin> group_slots (rt, i) ?items" for k
  proof -
    from that(1) obtain h where k: "k = (rt, i, ToGroup h)" by blast
    have "item_of h ?items = None" using that(2) by (force simp: k item_of_None group_slots_def)
    then show ?thesis by (simp add: k grants_def core_grants_def)
  qed
  have sub: "group_slots (rt, i) ?items \<subseteq> {(rt, i, ToGroup g) |g. True}" by (auto simp: group_slots_def)
  show ?thesis unfolding g by (rule without_same [OF sub none])
qed

end
