(* ===== verification/PermissionExpiry.thy ===== *)
theory PermissionExpiry
  imports PermissionClean
begin

text \<open>
  The removal of expired policies: one call removes the oldest expirations up to its limit and never
  panics, and enough calls remove every policy that has expired.
\<close>

section \<open>One expired policy\<close>

lemma queue_entry:
  assumes "perm_ok E s" "x \<in> queue s"
  obtains k i p where "index s k = Some i" "map_of (policies s) i = Some p" "policy_slot E p = Some k"
    "queue_of p = {x}" "Id p = i" "i \<noteq> 0"
proof -
  obtain n where c: "core_ok E (index s) (map_of (policies s)) (queue s) n" by (rule perm_okE [OF assms(1)])
  from core_queue [OF c] assms(2) obtain i p where p: "map_of (policies s) i = Some p" "x \<in> queue_of p" by auto
  from core_pol [OF c p(1)] obtain k where "Id p = i" "i \<noteq> 0" "policy_slot E p = Some k" "index s k = Some i" by blast
  moreover have "queue_of p = {x}" using p(2) by (auto simp: queue_of_def split: option.splits)
  ultimately show ?thesis using that p(1) by blast
qed

lemma index_inj:
  assumes "perm_ok E s" "index s k = Some i" "index s l = Some i"
  shows "k = l"
proof -
  obtain n where c: "core_ok E (index s) (map_of (policies s)) (queue s) n" by (rule perm_okE [OF assms(1)])
  show ?thesis by (rule core_inj [where idx = "index s", OF c assms(2,3)])
qed

lemma kv_ok_queue: "perm_ok E s \<Longrightarrow> kv_ok (policyQueue s)"
  by (erule perm_okE) (simp add: perm_stores_ok_def)

lemma remove_by_policy:
  assumes ok: "perm_ok E s" and i: "index s (rt, j, ToGroup h) = Some i"
  shows "remove_first (\<lambda>it. PolicyId it = i) (items_at (groupPolicies s) (rt, j))
    = remove_first (\<lambda>it. GroupId it = h) (items_at (groupPolicies s) (rt, j))"
proof (rule remove_first_cong)
  fix y assume y: "y \<in> set (items_at (groupPolicies s) (rt, j))"
  have "perm_stores_ok s" by (rule perm_okE [OF ok])
  then have y': "item_of (GroupId y) (items_at (groupPolicies s) (rt, j)) = Some y"
    using item_of_distinct [OF groups_ok_items y] by (simp add: perm_stores_ok_def)
  have "PolicyId y = i \<Longrightarrow> GroupId y = h"
    using index_inj [OF ok i, of "(rt, j, ToGroup (GroupId y))"] y' by simp
  moreover have "GroupId y = h \<Longrightarrow> PolicyId y = i" using y' i by auto
  ultimately show "(PolicyId y = i) = (GroupId y = h)" by blast
qed

lemma remove_expired_ok:
  assumes ok: "perm_ok E s" and x: "x \<in> queue s"
  obtains k i p t where "remove_expired E x s = (Ok (), t)" "perm_ok E t" "index s k = Some i"
    "map_of (policies s) i = Some p" "queue_of p = {x}" "grants t = (grants s)(k := None)"
    "policyQueue t = kv_del x (policyQueue s)" "permParams t = permParams s"
proof -
  obtain k i p where p: "index s k = Some i" "map_of (policies s) i = Some p" "policy_slot E p = Some k"
    "queue_of p = {x}" "Id p = i" by (rule queue_entry [OF ok x])
  then obtain t0 where t0: "ExpirationTime p = Some t0" "x = (t0, uint_bytes i)"
    by (auto simp: queue_of_def split: option.splits)
  have st: "perm_stores_ok s" by (rule perm_okE [OF ok])
  define u where "u = s\<lparr>policyQueue := kv_del x (policyQueue s), policies := kv_del i (policies s)\<rparr>"
  have ust: "perm_stores_ok u" using st by (simp add: u_def perm_stores_ok_def kv_simps)
  have id: "of_nat (be_nat (snd x)) = i" using t0 by simp
  obtain g where g: "principal_grantee E (PrincipalOf p) = Some g" "k = (ResourceTypeOf p, ResourceId p, g)"
    using p(3) by (auto simp: policy_slot_def)
  note del = delete_step_ok [OF ok p(1,2)]
  show thesis
  proof (cases g)
    case (ToAccount a)
    have pt: "PType (PrincipalOf p) = PRINCIPAL_TYPE_GNFD_ACCOUNT" "AccAddressFromHex E (PValue (PrincipalOf p)) = Some a"
      using g(1) ToAccount by (auto simp: principal_grantee_def split: PrincipalType.splits)
    have "ResourceTypeOf p \<noteq> RESOURCE_TYPE_UNSPECIFIED"
      using st p(1) g(2) ToAccount by (force simp: perm_stores_ok_def accounts_ok_def)
    then have key: "account_key (ResourceTypeOf p) (ResourceId p) a = Some (ResourceTypeOf p, ResourceId p, a)"
      by (simp add: account_key_def)
    define t where "t = u\<lparr>accountPolicies := kv_del (ResourceTypeOf p, ResourceId p, a) (accountPolicies u)\<rparr>"
    have "remove_expired E x s = (Ok (), t)"
      using id p(2) pt key by (simp add: remove_expired_def t_def u_def MustGetAccountAddress_def GetAccountAddress_def must_def)
    moreover have "perm_ok E t" "grants t = (grants s)(k := None)"
      using del [of t] ust p(4) g(2) ToAccount by (auto simp: t_def u_def kv_simps perm_stores_ok_def accounts_ok_del)
    ultimately show thesis using that [of t k i p] p by (simp add: t_def u_def)
  next
    case (ToGroup h)
    let ?key = "(ResourceTypeOf p, ResourceId p)"
    let ?items = "items_at (groupPolicies s) ?key"
    have pt: "PType (PrincipalOf p) = PRINCIPAL_TYPE_GNFD_GROUP"
      using g(1) ToGroup by (auto simp: principal_grantee_def split: PrincipalType.splits)
    from p(1) g(2) ToGroup obtain it where it: "item_of h ?items = Some it" "PolicyId it = i" by auto
    then have items: "map_of (groupPolicies s) ?key = Some ?items"
      by (auto simp: items_at_def item_of_def split: option.splits)
    then have key: "group_key (ResourceTypeOf p) (ResourceId p) = Some ?key" and d: "distinct (map GroupId ?items)"
      using st by (auto simp: perm_stores_ok_def groups_ok_def)
    have same: "remove_first (\<lambda>it. PolicyId it = i) ?items = remove_first (\<lambda>it. GroupId it = h) ?items"
      using remove_by_policy [OF ok] p(1) g(2) ToGroup by simp
    define t where "t = store_items ?key (remove_first (\<lambda>it. GroupId it = h) ?items) u"
    have "remove_expired E x s = (Ok (), t)"
      using id p(2) pt key items same by (simp add: remove_expired_def t_def u_def must_def Let_def)
    moreover have "index t = (index s)(k := None)"
      using index_group [of h "remove_first (\<lambda>it. GroupId it = h) ?items" "items_at (groupPolicies s)"]
        item_of_remove [OF d, of _ h] g(2) ToGroup by (simp add: t_def u_def)
    moreover have "perm_stores_ok t"
      unfolding t_def using stores_ok_items [OF ust distinct_remove_first [OF d]] key by simp
    ultimately have "perm_ok E t" "grants t = (grants s)(k := None)" "remove_expired E x s = (Ok (), t)"
      using del [of t] p(4) by (auto simp: t_def u_def kv_simps)
    then show thesis using that [of t k i p] p by (simp add: t_def u_def)
  qed
qed



section \<open>A call\<close>

lemma queue_expired:
  assumes "perm_ok E s" "x \<in> queue s"
  shows "x < (now, [0]) \<longleftrightarrow> fst x < now"
proof -
  obtain i p where p: "queue_of p = {x}" "Id p = i" "i \<noteq> 0" by (rule queue_entry [OF assms])
  then have "snd x = uint_bytes i" using queue_of_id [of x p] by simp
  with p(3) have "snd x \<noteq> []" "hd (snd x) \<noteq> 0" using uint_bytes_hd by auto
  then have "\<not> snd x < [0]" by (cases "snd x") (auto simp: word_gt_0)
  then show ?thesis by (cases x) (auto simp: less_prod_def)
qed

lemma grant_queued:
  assumes "perm_ok E s" "grants s k = Some (ss, Some t)"
  shows "\<exists>x \<in> queue s. fst x = t"
proof -
  obtain n where c: "core_ok E (index s) (map_of (policies s)) (queue s) n" by (rule perm_okE [OF assms(1)])
  from assms(2) obtain i p where "map_of (policies s) i = Some p" "ExpirationTime p = Some t"
    by (auto simp: grants_def core_grants_def terms_def split: option.splits)
  then have "(t, uint_bytes (Id p)) \<in> queue s" using core_queue [OF c] by (force simp: queue_of_def)
  then show ?thesis by force
qed

lemma remove_all_ok:
  assumes "perm_ok E s" "distinct ks" "set ks \<subseteq> queue s"
  shows "\<exists>t. foreach (remove_expired E) ks s = (Ok (), t) \<and> perm_ok E t \<and> permParams t = permParams s \<and>
    policyQueue t = filter (\<lambda>(x, _). x \<notin> set ks) (policyQueue s) \<and>
    (\<forall>k. grants t k = grants s k \<or> grants t k = None \<and> (\<exists>ss. \<exists>x \<in> set ks. grants s k = Some (ss, Some (fst x))))"
  using assms
proof (induction ks arbitrary: s)
  case Nil
  then show ?case by simp
next
  case (Cons x ks)
  obtain k i p t where t: "remove_expired E x s = (Ok (), t)" "perm_ok E t" "index s k = Some i"
    "map_of (policies s) i = Some p" "queue_of p = {x}" "grants t = (grants s)(k := None)"
    "policyQueue t = kv_del x (policyQueue s)" "permParams t = permParams s"
    by (rule remove_expired_ok [OF Cons.prems(1), of x]) (use Cons.prems(3) in auto)
  have "set ks \<subseteq> queue t" using Cons.prems(2,3) t(7) by (auto simp: kv_simps)
  from Cons.IH [OF t(2) _ this] Cons.prems(2) obtain u where u: "foreach (remove_expired E) ks t = (Ok (), u)"
    "perm_ok E u" "permParams u = permParams t" "policyQueue u = filter (\<lambda>(x, _). x \<notin> set ks) (policyQueue t)"
    "\<forall>k. grants u k = grants t k \<or> grants u k = None \<and> (\<exists>ss. \<exists>x \<in> set ks. grants t k = Some (ss, Some (fst x)))"
    by auto
  have "grants s k = Some (Statements p, Some (fst x))"
    using t(3,4,5) by (auto simp: grants_def core_grants_def terms_def queue_of_def split: option.splits)
  then have "\<forall>l. grants u l = grants s l \<or>
      grants u l = None \<and> (\<exists>ss. \<exists>y \<in> set (x # ks). grants s l = Some (ss, Some (fst y)))"
    using u(5) t(6) by (metis fun_upd_apply list.set_intros option.distinct(1))
  moreover have "policyQueue u = filter (\<lambda>(y, _). y \<notin> set (x # ks)) (policyQueue s)"
    using u(4) t(7) by (auto simp: kv_del_def intro!: filter_cong)
  ultimately show ?case using t(1,8) u(1-3) by auto
qed

definition max_removed :: "perm_state \<Rightarrow> nat" where
  "max_removed s = unat (MaximumRemoveExpiredPoliciesIteration (perm_GetParams s))"

lemma expired_entries_facts:
  assumes "perm_ok E s"
  shows "distinct (expired_entries now s)" and "set (expired_entries now s) = {x \<in> queue s. fst x < now}"
proof -
  have "distinct (map fst (policyQueue s))" using kv_ok_queue [OF assms] kv.iter_distinct by blast
  then show "distinct (expired_entries now s)" by (simp add: expired_entries_def)
  have "set (expired_entries now s) = {x \<in> queue s. x < (now, [0])}"
    by (simp only: expired_entries_def set_filter set_map dom_map_of_conv_image_fst)
  with queue_expired [OF assms] show "set (expired_entries now s) = {x \<in> queue s. fst x < now}" by blast
qed

lemma RemoveExpiredPolicies_ok:
  assumes ok: "perm_ok E s"
  obtains t where "RemoveExpiredPolicies E now s = (Ok (), t)" "perm_ok E t" "permParams t = permParams s"
    "policyQueue t = filter (\<lambda>(x, _). x \<notin> set (take (max_removed s) (expired_entries now s))) (policyQueue s)"
    "\<forall>k. grants t k = grants s k \<or> grants t k = None \<and> (\<exists>ss e. grants s k = Some (ss, Some e) \<and> e < now)"
proof -
  let ?ks = "take (max_removed s) (expired_entries now s)"
  note e = expired_entries_facts [OF ok, of now]
  have sub: "set ?ks \<subseteq> {x \<in> queue s. fst x < now}" using e(2) set_take_subset by fastforce
  have d: "distinct ?ks" using e(1) by simp
  from remove_all_ok [OF ok d] sub obtain t where t: "foreach (remove_expired E) ?ks s = (Ok (), t)" "perm_ok E t"
    "permParams t = permParams s" "policyQueue t = filter (\<lambda>(x, _). x \<notin> set ?ks) (policyQueue s)"
    "\<forall>k. grants t k = grants s k \<or> grants t k = None \<and> (\<exists>ss. \<exists>x \<in> set ?ks. grants s k = Some (ss, Some (fst x)))"
    by auto
  have "\<forall>k. grants t k = grants s k \<or> grants t k = None \<and> (\<exists>ss e. grants s k = Some (ss, Some e) \<and> e < now)"
    using t(5) sub by blast
  with that t(1-4) show thesis by (simp add: RemoveExpiredPolicies_def max_removed_def)
qed



section \<open>Many calls\<close>

fun end_blocks :: "perm_env \<Rightarrow> int list \<Rightarrow> perm_state \<Rightarrow> perm_state" where
  "end_blocks E [] s = s"
| "end_blocks E (now # ts) s = end_blocks E ts (snd (RemoveExpiredPolicies E now s))"

lemma filter_less_split:
  fixes a b :: "'a::linorder"
  assumes "sorted_wrt (<) xs" "a \<le> b"
  shows "filter (\<lambda>x. x < b) xs = filter (\<lambda>x. x < a) xs @ filter (\<lambda>x. \<not> x < a \<and> x < b) xs"
  using assms
proof (induction xs)
  case (Cons x xs)
  then have "\<not> x < a \<Longrightarrow> filter (\<lambda>y. y < a) xs = []" by (auto simp: filter_empty_conv)
  moreover have "\<not> x < a \<Longrightarrow> filter (\<lambda>y. \<not> y < a \<and> y < b) xs = filter (\<lambda>y. y < b) xs"
    using Cons.prems by (intro filter_cong) auto
  moreover have "x < a \<Longrightarrow> x < b" using Cons.prems(2) by simp
  ultimately show ?case using Cons by auto
qed simp

lemma filter_taken:
  assumes "distinct (ys @ zs)"
  shows "filter (\<lambda>x. x \<notin> set (take m (ys @ zs))) ys = drop m ys"
proof -
  have ys: "ys = take m ys @ drop m ys" by simp
  have "set (take m ys) \<inter> set (drop m ys) = {}" "set (drop m ys) \<inter> set (take (m - length ys) zs) = {}"
    using assms set_take_disj_set_drop_if_distinct [of ys m m] by (auto dest: in_set_takeD in_set_dropD)
  then have "filter (\<lambda>x. x \<notin> set (take m (ys @ zs))) (take m ys) = []"
    "filter (\<lambda>x. x \<notin> set (take m (ys @ zs))) (drop m ys) = drop m ys"
    by (auto simp: filter_empty_conv filter_id_conv)
  then show ?thesis by (subst (2) ys) (simp only: filter_append append_Nil)
qed

lemma expired_after:
  assumes ok: "perm_ok E s" and le: "now \<le> t"
    and q: "policyQueue s' = filter (\<lambda>(x, _). x \<notin> set (take m (expired_entries t s))) (policyQueue s)"
  shows "expired_entries now s' = drop m (expired_entries now s)"
proof -
  let ?xs = "map fst (policyQueue s)"
  have srt: "sorted_wrt (<) ?xs" using kv_ok_queue [OF ok] by (simp add: kv_ok_def)
  have ab: "(now, [0]) \<le> (t, [0] :: bytes)" using le by (simp add: less_eq_prod_def)
  let ?T = "set (take m (expired_entries t s))"
  have "map fst (policyQueue s') = filter (\<lambda>x. x \<notin> ?T) ?xs"
    unfolding q by (simp add: filter_map comp_def split_def)
  then have f: "expired_entries now s' = filter (\<lambda>x. x \<notin> ?T) (expired_entries now s)"
    by (simp add: expired_entries_def conj_commute)
  have split: "expired_entries t s = expired_entries now s @ filter (\<lambda>x. \<not> x < (now, [0]) \<and> x < (t, [0])) ?xs"
    unfolding expired_entries_def by (rule filter_less_split [OF srt ab])
  have d: "distinct (expired_entries t s)" by (rule expired_entries_facts [OF ok])
  show ?thesis unfolding f split by (rule filter_taken) (use d split in simp)
qed

lemma end_blocks_ok:
  assumes "perm_ok E s" "\<forall>t \<in> set ts. now \<le> t"
  shows "perm_ok E (end_blocks E ts s) \<and>
    expired_entries now (end_blocks E ts s) = drop (length ts * max_removed s) (expired_entries now s) \<and>
    (\<forall>k ss e. grants s k = Some (ss, e) \<longrightarrow> (case e of None \<Rightarrow> True | Some e \<Rightarrow> \<forall>t \<in> set ts. t \<le> e) \<longrightarrow>
      grants (end_blocks E ts s) k = Some (ss, e))"
  using assms
proof (induction ts arbitrary: s)
  case (Cons t ts)
  obtain u where u: "RemoveExpiredPolicies E t s = (Ok (), u)" "perm_ok E u" "permParams u = permParams s"
    "policyQueue u = filter (\<lambda>(x, _). x \<notin> set (take (max_removed s) (expired_entries t s))) (policyQueue s)"
    "\<forall>k. grants u k = grants s k \<or> grants u k = None \<and> (\<exists>ss e. grants s k = Some (ss, Some e) \<and> e < t)"
    by (rule RemoveExpiredPolicies_ok [OF Cons.prems(1)])
  have m: "max_removed u = max_removed s" using u(3) by (simp add: max_removed_def perm_GetParams_def)
  have e: "expired_entries now u = drop (max_removed s) (expired_entries now s)"
    by (rule expired_after [OF Cons.prems(1) _ u(4)]) (use Cons.prems(2) in auto)
  have keep: "grants u k = Some (ss, e)" if "grants s k = Some (ss, e)" "case e of None \<Rightarrow> True | Some e \<Rightarrow> t \<le> e" for k ss e
    using u(5) [rule_format, of k] that by (auto split: option.splits)
  from Cons.IH [OF u(2)] Cons.prems(2) m e have IH: "perm_ok E (end_blocks E ts u)"
    "expired_entries now (end_blocks E ts u) = drop (max_removed s + length ts * max_removed s) (expired_entries now s)"
    "\<forall>k ss e. grants u k = Some (ss, e) \<longrightarrow> (case e of None \<Rightarrow> True | Some e \<Rightarrow> \<forall>t \<in> set ts. t \<le> e) \<longrightarrow>
      grants (end_blocks E ts u) k = Some (ss, e)" by (auto simp: add.commute)
  have "grants (end_blocks E ts u) k = Some (ss, e)"
    if "grants s k = Some (ss, e)" "case e of None \<Rightarrow> True | Some e \<Rightarrow> \<forall>t' \<in> set (t # ts). t' \<le> e" for k ss e
    using IH(3) [rule_format, of k ss e] keep [OF that(1)] that(2) by (cases e) auto
  with IH(1,2) u(1) show ?case by simp
qed simp

text \<open>Enough blocks remove every policy that had expired.\<close>

lemma end_blocks_clean:
  assumes ok: "perm_ok E s" and le: "\<forall>t \<in> set ts. now \<le> t"
    and n: "length (expired_entries now s) \<le> length ts * max_removed s"
  shows "\<forall>k ss e. grants (end_blocks E ts s) k = Some (ss, Some e) \<longrightarrow> now \<le> e"
proof (intro allI impI)
  fix k ss e assume g: "grants (end_blocks E ts s) k = Some (ss, Some e)"
  note r = end_blocks_ok [OF ok le]
  then have ok': "perm_ok E (end_blocks E ts s)" and "expired_entries now (end_blocks E ts s) = []" using n by auto
  then have none: "{x \<in> queue (end_blocks E ts s). fst x < now} = {}"
    using expired_entries_facts(2) [OF ok', of now] by simp
  from grant_queued [OF ok' g] none show "now \<le> e" by (metis (mono_tags, lifting) empty_iff mem_Collect_eq not_le)
qed

end
