(* ===== verification/PermissionMembers.thy ===== *)
theory PermissionMembers
  imports PermissionExpiry
begin

text \<open>
  Group membership as a partial map from a group and an account to an expiration, and the reachable
  states of the whole keeper.
\<close>

section \<open>Two linked stores\<close>

text \<open>
  A store of identifiers by key and a store of records by identifier: every key leads to one record,
  that belongs to the key, and every record is reached.
\<close>

definition linked :: "('k \<Rightarrow> 'r \<Rightarrow> bool) \<Rightarrow> ('k \<Rightarrow> 'i option) \<Rightarrow> ('i \<Rightarrow> 'r option) \<Rightarrow> bool" where
  "linked R ids recs \<longleftrightarrow>
     (\<forall>k i. ids k = Some i \<longrightarrow> (\<exists>r. recs i = Some r \<and> R k r)) \<and>
     (\<forall>k l i. ids k = Some i \<longrightarrow> ids l = Some i \<longrightarrow> k = l) \<and>
     (\<forall>i r. recs i = Some r \<longrightarrow> (\<exists>k. ids k = Some i))"

definition via :: "('k \<Rightarrow> 'i option) \<Rightarrow> ('i \<Rightarrow> 'r option) \<Rightarrow> 'k \<Rightarrow> 'r option" where
  "via ids recs k = (case ids k of None \<Rightarrow> None | Some i \<Rightarrow> recs i)"

lemma linked_rec: "linked R ids recs \<Longrightarrow> ids k = Some i \<Longrightarrow> \<exists>r. recs i = Some r \<and> R k r"
  unfolding linked_def by blast

lemma linked_inj: "linked R ids recs \<Longrightarrow> ids k = Some i \<Longrightarrow> ids l = Some i \<Longrightarrow> k = l"
  unfolding linked_def by blast

lemma linked_insert:
  assumes "linked R ids recs" "ids k = None" "recs i = None" "R k r"
  shows "linked R (ids(k \<mapsto> i)) (recs(i \<mapsto> r))" and "via (ids(k \<mapsto> i)) (recs(i \<mapsto> r)) = (via ids recs)(k \<mapsto> r)"
proof -
  have ne: "ids l \<noteq> Some i" for l using linked_rec [OF assms(1), of l i] assms(3) by auto
  have "(\<exists>l. (ids(k \<mapsto> i)) l = Some j)" if "(recs(i \<mapsto> r)) j = Some q" for j q
  proof (cases "j = i")
    case True
    then show ?thesis by (intro exI [of _ k]) simp
  next
    case False
    with that assms(1) obtain l where "ids l = Some j" unfolding linked_def by auto
    with assms(2) show ?thesis by (intro exI [of _ l]) auto
  qed
  then show "linked R (ids(k \<mapsto> i)) (recs(i \<mapsto> r))"
    using assms linked_rec [OF assms(1)] linked_inj [OF assms(1)] ne by (auto simp: linked_def)
  show "via (ids(k \<mapsto> i)) (recs(i \<mapsto> r)) = (via ids recs)(k \<mapsto> r)"
    using ne by (auto simp: via_def fun_eq_iff split: option.splits)
qed

lemma linked_delete:
  assumes "linked R ids recs" "ids k = Some i"
  shows "linked R (ids(k := None)) (recs(i := None))" and "via (ids(k := None)) (recs(i := None)) = (via ids recs)(k := None)"
proof -
  have ne: "l \<noteq> k \<Longrightarrow> ids l \<noteq> Some i" for l using linked_inj [OF assms(1)] assms(2) by blast
  have "(\<exists>l. (ids(k := None)) l = Some j)" if "(recs(i := None)) j = Some q" for j q
  proof -
    from that have j: "j \<noteq> i" "recs j = Some q" by (auto split: if_splits)
    with assms(1) obtain l where "ids l = Some j" unfolding linked_def by blast
    with j(1) assms(2) show ?thesis by (intro exI [of _ l]) auto
  qed
  then show "linked R (ids(k := None)) (recs(i := None))"
    using linked_rec [OF assms(1)] linked_inj [OF assms(1)] ne by (auto simp: linked_def)
  show "via (ids(k := None)) (recs(i := None)) = (via ids recs)(k := None)"
    using ne by (auto simp: via_def fun_eq_iff split: option.splits)
qed

lemma linked_update:
  assumes "linked R ids recs" "ids k = Some i" "R k r"
  shows "linked R ids (recs(i \<mapsto> r))" and "via ids (recs(i \<mapsto> r)) = (via ids recs)(k \<mapsto> r)"
proof -
  have ne: "l \<noteq> k \<Longrightarrow> ids l \<noteq> Some i" for l using linked_inj [OF assms(1)] assms(2) by blast
  have "\<exists>q. (recs(i \<mapsto> r)) j = Some q \<and> R l q" if "ids l = Some j" for l j
    using linked_rec [OF assms(1) that] that ne assms by (cases "l = k") auto
  moreover have "\<exists>l. ids l = Some j" if "(recs(i \<mapsto> r)) j = Some q" for j q
    using that assms(1,2) unfolding linked_def by (cases "j = i") auto
  ultimately show "linked R ids (recs(i \<mapsto> r))" using linked_inj [OF assms(1)] unfolding linked_def by blast
  show "via ids (recs(i \<mapsto> r)) = (via ids recs)(k \<mapsto> r)"
    using ne assms(2) by (auto simp: via_def fun_eq_iff split: option.splits)
qed


section \<open>Membership\<close>

definition member_of :: "perm_env \<Rightarrow> 256 word \<times> 160 word \<Rightarrow> GroupMember \<Rightarrow> bool" where
  "member_of E k m \<longleftrightarrow> MGroupId m = fst k \<and> Member m = AddrString E (snd k)"

definition members_ok :: "perm_env \<Rightarrow> perm_state \<Rightarrow> bool" where
  "members_ok E s \<longleftrightarrow> kv_ok (groupMembers s) \<and> kv_ok (membersById s) \<and>
     linked (member_of E) (map_of (groupMembers s)) (map_of (membersById s)) \<and>
     (\<exists>n. u256.holds GroupMemberSequencePrefix n (sequences s) \<and> (\<forall>i \<in> dom (map_of (membersById s)). i \<le> n))"

definition membership :: "perm_state \<Rightarrow> 256 word \<times> 160 word \<Rightarrow> int option option" where
  "membership s k = map_option MExpirationTime (GetGroupMember (fst k) (snd k) s)"

lemma membership_via:
  "membership s = map_option MExpirationTime \<circ> via (map_of (groupMembers s)) (map_of (membersById s))"
  by (auto simp: fun_eq_iff membership_def via_def GetGroupMember_def GetGroupMemberByID_def option.map_comp comp_def
      split: option.splits)

lemma map_option_upd: "map_option f \<circ> g(k := x) = (map_option f \<circ> g)(k := map_option f x)"
  by auto

lemma AddGroupMember_ok:
  assumes ok: "members_ok E s" and run: "AddGroupMember E g a exp s = (Ok (), s')"
  shows "members_ok E s'" and "membership s' = (membership s)((g, a) \<mapsto> exp)" and "membership s (g, a) = None"
proof -
  from ok obtain n where n: "u256.holds GroupMemberSequencePrefix n (sequences s)"
    "\<forall>i \<in> dom (map_of (membersById s)). i \<le> n" by (auto simp: members_ok_def)
  have absent: "map_of (groupMembers s) (g, a) = None"
    using run by (auto simp: AddGroupMember_def kv_has_def split: if_splits)
  then show "membership s (g, a) = None" by (simp add: membership_via via_def)
  let ?m = "\<lparr>MId = 0, MGroupId = g, Member = AddrString E a, MExpirationTime = exp\<rparr>"
  have "members_ok E s' \<and> membership s' = (membership s)((g, a) \<mapsto> exp)"
  proof (cases rule: next_id_cases [OF n(1)])
    case 1
    with run absent show ?thesis by (simp add: AddGroupMember_def kv_has_def)
  next
    case (2 q)
    have s': "s' = s\<lparr>sequences := q, groupMembers := kv_set (g, a) (n + 1) (groupMembers s),
        membersById := kv_set (n + 1) ?m (membersById s)\<rparr>"
      using run absent 2 by (simp add: AddGroupMember_def kv_has_def)
    have fresh: "map_of (membersById s) (n + 1) = None" using n(2) 2(2) by (meson domIff not_le)
    have le: "\<forall>i \<in> dom (map_of (membersById s)). i \<le> n + 1"
      using n(2) 2(2) by (meson order.strict_implies_order order_trans)
    have "linked (member_of E) (map_of (groupMembers s)) (map_of (membersById s))" using ok by (simp add: members_ok_def)
    note l = linked_insert [OF this absent fresh, of ?m]
    then show ?thesis
      using ok 2(4) le by (auto simp: s' members_ok_def kv_simps member_of_def membership_via map_option_upd)
  qed
  then show "members_ok E s'" "membership s' = (membership s)((g, a) \<mapsto> exp)" by blast+
qed

lemma drop_member_ok:
  assumes ok: "members_ok E s" and i: "map_of (groupMembers s) k = Some i"
    and t: "t = s\<lparr>membersById := kv_del i (membersById s), groupMembers := kv_del k (groupMembers s)\<rparr>"
  shows "members_ok E t" and "membership t = (membership s)(k := None)"
proof -
  have "linked (member_of E) (map_of (groupMembers s)) (map_of (membersById s))" using ok by (simp add: members_ok_def)
  note l = linked_delete [OF this i]
  then show "members_ok E t" "membership t = (membership s)(k := None)"
    using ok by (auto simp: t members_ok_def kv_simps membership_via map_option_upd)
qed

lemma RemoveGroupMember_ok:
  assumes "members_ok E s" "RemoveGroupMember g a s = (Ok (), s')"
  shows "members_ok E s'" and "membership s' = (membership s)((g, a) := None)" and "membership s (g, a) \<noteq> None"
proof -
  from assms(2) obtain i where i: "map_of (groupMembers s) (g, a) = Some i"
    "s' = s\<lparr>membersById := kv_del i (membersById s), groupMembers := kv_del (g, a) (groupMembers s)\<rparr>"
    by (auto simp: RemoveGroupMember_def split: option.splits)
  from drop_member_ok [OF assms(1) i] show "members_ok E s'" "membership s' = (membership s)((g, a) := None)" .
  have "linked (member_of E) (map_of (groupMembers s)) (map_of (membersById s))" using assms(1) by (simp add: members_ok_def)
  from linked_rec [OF this i(1)] show "membership s (g, a) \<noteq> None" using i(1) by (auto simp: membership_via via_def)
qed

lemma UpdateGroupMember_ok:
  assumes "members_ok E s" "GetGroupMember g a s = Some m"
  shows "members_ok E (UpdateGroupMember E g a (MId m) exp s)"
    and "membership (UpdateGroupMember E g a (MId m) exp s) = (membership s)((g, a) \<mapsto> exp)"
proof -
  from assms(2) have i: "map_of (groupMembers s) (g, a) = Some (MId m)"
    by (auto simp: GetGroupMember_def GetGroupMemberByID_def split: option.splits)
  let ?r = "\<lparr>MId = 0, MGroupId = g, Member = AddrString E a, MExpirationTime = exp\<rparr>"
  have l: "linked (member_of E) (map_of (groupMembers s)) (map_of (membersById s))" using assms(1) by (simp add: members_ok_def)
  have "MId m \<in> dom (map_of (membersById s))" using linked_rec [OF l i] by auto
  with linked_update [OF l i, of ?r] assms(1)
  show "members_ok E (UpdateGroupMember E g a (MId m) exp s)"
    "membership (UpdateGroupMember E g a (MId m) exp s) = (membership s)((g, a) \<mapsto> exp)"
    by (auto simp: UpdateGroupMember_def members_ok_def kv_simps member_of_def membership_via map_option_upd)
qed


definition member_slots :: "256 word \<Rightarrow> (160 word \<times> 256 word) list \<Rightarrow> (256 word \<times> 160 word) set" where
  "member_slots g es = (\<lambda>(a, v). (g, a)) ` set es"

lemma delete_members_ok:
  assumes "members_ok E s" "distinct (map fst es)"
    and "\<forall>(a, v) \<in> set es. map_of (groupMembers s) (g, a) = Some v"
    and "delete_members g m es d s = ((d', fin), s')"
  shows "members_ok E s' \<and> membership s' = without (member_slots g (take (allowed m d (length es)) es)) (membership s) \<and>
    unat d' = unat d + allowed m d (length es) \<and> (fin \<longleftrightarrow> allowed m d (length es) = length es)"
  using assms
proof (induction es arbitrary: d s)
  case Nil
  then show ?case by (simp add: member_slots_def allowed_def)
next
  case (Cons e es)
  obtain a v where e: "e = (a, v)" by (cases e)
  show ?case
  proof (cases "m \<le> d")
    case True
    then show ?thesis using Cons.prems e by (simp add: allowed_stop member_slots_def)
  next
    case False
    note st = allowed_step [OF False]
    define t where "t = s\<lparr>membersById := kv_del v (membersById s), groupMembers := kv_del (g, a) (groupMembers s)\<rparr>"
    have key: "map_of (groupMembers s) (g, a) = Some v" using Cons.prems(3) e by simp
    note t = drop_member_ok [OF Cons.prems(1) key t_def]
    have "\<forall>(b, w) \<in> set es. map_of (groupMembers t) (g, b) = Some w"
      using Cons.prems(2,3) e by (force simp: t_def kv_simps)
    moreover have "delete_members g m es (d + 1) t = ((d', fin), s')"
      using Cons.prems(4) False e by (simp add: t_def)
    ultimately have "members_ok E s' \<and>
        membership s' = without (member_slots g (take (allowed m (d + 1) (length es)) es)) (membership t) \<and>
        unat d' = unat (d + 1) + allowed m (d + 1) (length es) \<and> (fin \<longleftrightarrow> allowed m (d + 1) (length es) = length es)"
      using Cons.IH [OF t(1)] Cons.prems(2) by simp
    then show ?thesis by (simp add: st e t(2) without_upd member_slots_def)
  qed
qed

lemma member_entries_facts:
  assumes "kv_ok (groupMembers s)"
  shows "(a, v) \<in> set (member_entries g s) \<longleftrightarrow> map_of (groupMembers s) (g, a) = Some v"
    and "distinct (map fst (member_entries g s))"
proof -
  note dist = kv.iter_distinct [OF assms]
  then have "map_of (groupMembers s) (g, a) = Some v \<longleftrightarrow> ((g, a), v) \<in> set (groupMembers s)" by simp
  then show "(a, v) \<in> set (member_entries g s) \<longleftrightarrow> map_of (groupMembers s) (g, a) = Some v"
    by (force simp: member_entries_def)
  define ks where "ks = map fst (filter (\<lambda>((g', _), _). g' = g) (groupMembers s))"
  have "distinct ks" unfolding ks_def using dist by (rule distinct_map_filter)
  moreover have "inj_on snd (set ks)" by (auto simp: inj_on_def ks_def)
  ultimately have "distinct (map snd ks)" by (simp add: distinct_map)
  then show "distinct (map fst (member_entries g s))" by (simp add: ks_def member_entries_def comp_def case_prod_beta)
qed

lemma force_members_ok:
  assumes ok: "members_ok E s" and run: "ForceDeleteGroupMembers m d g s = ((d', fin), s')"
  defines "n \<equiv> length (member_entries g s)"
  shows "members_ok E s'" and "unat d' = unat d + allowed m d n" and "fin \<longleftrightarrow> allowed m d n = n"
    and "fin \<longrightarrow> membership s' = without {(g, a) |a. True} (membership s)"
proof -
  have "kv_ok (groupMembers s)" using ok by (simp add: members_ok_def)
  note e = member_entries_facts [OF this]
  have "\<forall>(a, v) \<in> set (member_entries g s). map_of (groupMembers s) (g, a) = Some v" using e(1) by auto
  from delete_members_ok [OF ok e(2) this] run
  have r: "members_ok E s'" "unat d' = unat d + allowed m d n" "fin \<longleftrightarrow> allowed m d n = n"
    "membership s' = without (member_slots g (take (allowed m d n) (member_entries g s))) (membership s)"
    unfolding ForceDeleteGroupMembers_def n_def by auto
  then show "members_ok E s'" "unat d' = unat d + allowed m d n" "fin \<longleftrightarrow> allowed m d n = n" by blast+
  have sub: "member_slots g (member_entries g s) \<subseteq> {(g, a) |a. True}" by (auto simp: member_slots_def)
  have none: "membership s k = None" if "k \<in> {(g, a) |a. True}" "k \<notin> member_slots g (member_entries g s)" for k
  proof -
    from that(1) obtain a where k: "k = (g, a)" by blast
    have "map_of (groupMembers s) (g, a) = None"
    proof (rule ccontr)
      assume "map_of (groupMembers s) (g, a) \<noteq> None"
      then obtain v where "(a, v) \<in> set (member_entries g s)" using e(1) by blast
      then have "k \<in> member_slots g (member_entries g s)" unfolding k member_slots_def by force
      with that(2) show False by simp
    qed
    then show ?thesis by (simp add: k membership_via via_def)
  qed
  show "fin \<longrightarrow> membership s' = without {(g, a) |a. True} (membership s)"
    using r(3,4) without_same [OF sub none] by (simp add: n_def)
qed


section \<open>Reachable states\<close>

text \<open>Operations on policies leave the members alone, and the other way round.\<close>

definition same_members :: "perm_state \<Rightarrow> perm_state \<Rightarrow> bool" where
  "same_members s t \<longleftrightarrow> groupMembers t = groupMembers s \<and> membersById t = membersById s \<and>
     map_of (sequences t) GroupMemberSequencePrefix = map_of (sequences s) GroupMemberSequencePrefix"

definition same_policies :: "perm_state \<Rightarrow> perm_state \<Rightarrow> bool" where
  "same_policies s t \<longleftrightarrow> accountPolicies t = accountPolicies s \<and> groupPolicies t = groupPolicies s \<and>
     policies t = policies s \<and> policyQueue t = policyQueue s \<and>
     map_of (sequences t) PolicySequencePrefix = map_of (sequences s) PolicySequencePrefix"

lemma same_members_refl [simp]: "same_members s s"
  by (simp add: same_members_def)

lemma same_members_trans: "same_members s t \<Longrightarrow> same_members t u \<Longrightarrow> same_members s u"
  by (simp add: same_members_def)

lemma same_members_ok: "same_members s t \<Longrightarrow> members_ok E s \<Longrightarrow> members_ok E t"
  using u256.holds_other [of "sequences t" GroupMemberSequencePrefix "sequences s"]
  by (auto simp: same_members_def members_ok_def)

lemma same_policies_ok:
  assumes "same_policies s t" "perm_ok E s"
  shows "perm_ok E t" "grants t = grants s"
  using assms u256.holds_other [of "sequences t" PolicySequencePrefix "sequences s"]
  by (auto simp: same_policies_def perm_ok_def perm_stores_ok_def grants_def)

lemma andthen_frame:
  assumes "same_members s (snd r)" "\<And>a t. same_members s t \<Longrightarrow> same_members s (snd (k a t))"
  shows "same_members s (snd (andthen r k))"
proof (cases r)
  case (Pair x t)
  with assms show ?thesis by (cases x) (simp_all add: andthen_def)
qed

lemma must_snd [simp]: "snd (must x s) = s"
  by (simp add: must_def split: option.splits)

lemma next_id_frame: "same_members s (snd (next_id PolicySequencePrefix s))"
proof -
  have "map_of (snd (NextVal seq_Uint PolicySequencePrefix q :: (perm_error, 256 word) outcome \<times> byte_store)) GroupMemberSequencePrefix
      = map_of q GroupMemberSequencePrefix" for q
    by (auto simp: NextVal_def kv_simps PolicySequencePrefix_def GroupMemberSequencePrefix_def split: option.splits)
  then show ?thesis by (auto simp: next_id_def same_members_def split: prod.splits) (metis snd_conv)
qed

lemma same_members_update:
  assumes "same_members s t"
  shows "same_members s (snd (updatePolicy old new t))" and "same_members s (storePolicy p t)"
    and "same_members s (t\<lparr>accountPolicies := A\<rparr>)" and "same_members s (t\<lparr>groupPolicies := G\<rparr>)"
    and "same_members s (drop_policy i t)" and "same_members s (store_items key items t)"
    and "same_members s (t\<lparr>policies := P\<rparr>)" and "same_members s (t\<lparr>policyQueue := Q\<rparr>)" and "same_members s (dequeue e i t)"
  using assms by (simp_all add: same_members_def updatePolicy_def storePolicy_def Let_def)

lemma next_id_frame': "same_members s t \<Longrightarrow> same_members s (snd (next_id PolicySequencePrefix t))"
  using next_id_frame same_members_trans by blast

lemma MustGetPolicyByID_snd [simp]: "snd (MustGetPolicyByID i s) = s"
  by (simp add: MustGetPolicyByID_def split: option.splits)

lemma override_frame: "same_members s t \<Longrightarrow> same_members s (snd (override_items E items p found t))"
proof (induction items arbitrary: found t)
  case (Cons it items)
  then show ?case by (auto simp: override_policy_def intro!: andthen_frame Cons.IH same_members_update)
qed simp

lemma PutPolicy_frame: "same_members s (snd (PutPolicy E p s))"
  by (auto simp: PutPolicy_def put_account_policy_def put_group_policy_def append_group_policy_def
      override_policy_def add_account_policy_def add_group_policy_def intro!: andthen_frame same_members_update next_id_frame' override_frame split: PrincipalType.splits option.splits)

lemma DeletePolicy_frame: "same_members s (snd (DeletePolicy E who rt i s))"
  by (auto simp: DeletePolicy_def GetPolicyForAccount_def
      intro!: andthen_frame same_members_update split: PrincipalType.splits option.splits outcome.splits)

lemma delete_account_frame: "same_members s t \<Longrightarrow> same_members s (snd (delete_account_entries rt i m es d t))"
  by (induction rt i m es d t rule: delete_account_entries.induct) (auto simp: Let_def same_members_update)

lemma delete_group_frame: "same_members s t \<Longrightarrow> same_members s (snd (delete_group_items key m items d t))"
  by (induction key m items d t rule: delete_group_items.induct) (auto simp: same_members_update)

lemma force_frame:
  "same_members s (snd (ForceDeleteAccountPolicyForResource m d rt i s))"
  "same_members s (snd (ForceDeleteGroupPolicyForResource m d rt i s))"
  by (auto simp: ForceDeleteAccountPolicyForResource_def ForceDeleteGroupPolicyForResource_def
      delete_account_frame delete_group_frame split: option.splits)

lemma remove_expired_frame: "same_members s t \<Longrightarrow> same_members s (snd (remove_expired E x t))"
  by (auto simp: remove_expired_def Let_def intro!: andthen_frame same_members_update
      split: option.splits PrincipalType.splits)

lemma RemoveExpired_frame: "same_members s (snd (RemoveExpiredPolicies E now s))"
proof -
  have "same_members s t \<Longrightarrow> same_members s (snd (foreach (remove_expired E) ks t))" for ks t
    by (induction ks arbitrary: t) (auto intro!: andthen_frame remove_expired_frame)
  then show ?thesis by (simp add: RemoveExpiredPolicies_def)
qed


lemma members_same_policies:
  "AddGroupMember E g a exp s = (Ok (), t) \<Longrightarrow> same_policies s t"
  "RemoveGroupMember g a s = (Ok (), t) \<Longrightarrow> same_policies s t"
  "same_policies s (UpdateGroupMember E g a i exp s)"
proof -
  have q: "map_of (snd (NextVal seq_Uint GroupMemberSequencePrefix q :: (perm_error, 256 word) outcome \<times> byte_store)) PolicySequencePrefix
      = map_of q PolicySequencePrefix" for q
    by (auto simp: NextVal_def kv_simps PolicySequencePrefix_def GroupMemberSequencePrefix_def split: option.splits)
  show "AddGroupMember E g a exp s = (Ok (), t) \<Longrightarrow> same_policies s t"
    using q [of "sequences s"]
    by (auto simp: AddGroupMember_def next_id_def same_policies_def outcome_simps split: if_splits prod.splits)
  show "RemoveGroupMember g a s = (Ok (), t) \<Longrightarrow> same_policies s t"
    by (auto simp: RemoveGroupMember_def same_policies_def split: option.splits)
  show "same_policies s (UpdateGroupMember E g a i exp s)"
    by (simp add: UpdateGroupMember_def same_policies_def)
qed

lemma force_members_same: "same_policies s (snd (ForceDeleteGroupMembers m d g s))"
proof -
  have "same_policies s t \<Longrightarrow> same_policies s (snd (delete_members g m es d t))" for es d t
    by (induction g m es d t rule: delete_members.induct) (auto simp: same_policies_def)
  then show ?thesis by (simp add: ForceDeleteGroupMembers_def same_policies_def)
qed

definition perm_init :: "PermParams \<Rightarrow> perm_state" where
  "perm_init p = \<lparr>accountPolicies = [], groupPolicies = [], policies = [], policyQueue = [],
     groupMembers = [], membersById = [], sequences = [], permParams = Some p\<rparr>"

inductive perm_reach :: "perm_env \<Rightarrow> perm_state \<Rightarrow> bool" for E where
  init: "perm_reach E (perm_init p)"
| put: "perm_reach E s \<Longrightarrow> PutPolicy E p s = (Ok r, t) \<Longrightarrow> perm_reach E t"
| delete: "perm_reach E s \<Longrightarrow> DeletePolicy E who rt i s = (Ok d, t) \<Longrightarrow> perm_reach E t"
| add_member: "perm_reach E s \<Longrightarrow> AddGroupMember E g a exp s = (Ok (), t) \<Longrightarrow> perm_reach E t"
| remove_member: "perm_reach E s \<Longrightarrow> RemoveGroupMember g a s = (Ok (), t) \<Longrightarrow> perm_reach E t"
| renew_member: "perm_reach E s \<Longrightarrow> GetGroupMember g a s = Some m \<Longrightarrow>
    perm_reach E (UpdateGroupMember E g a (MId m) exp s)"
| force_accounts: "perm_reach E s \<Longrightarrow> perm_reach E (snd (ForceDeleteAccountPolicyForResource n d rt i s))"
| force_groups: "perm_reach E s \<Longrightarrow> perm_reach E (snd (ForceDeleteGroupPolicyForResource n d rt i s))"
| force_members: "perm_reach E s \<Longrightarrow> perm_reach E (snd (ForceDeleteGroupMembers n d g s))"
| expire: "perm_reach E s \<Longrightarrow> perm_reach E (snd (RemoveExpiredPolicies E now s))"
| params: "perm_reach E s \<Longrightarrow> perm_reach E (snd (perm_UpdateParams keeperAuthority authority p s))"

lemma perm_init_ok: "perm_ok E (perm_init p)" "members_ok E (perm_init p)"
proof -
  have h: "u256.holds k 0 []" for k by (rule u256.holds_fresh) (simp add: kv_has_def)
  then show "members_ok E (perm_init p)" by (auto simp: members_ok_def perm_init_def linked_def)
  have i: "index_of Map.empty (items_at []) k = None" for k
    by (cases k; cases "snd (snd k)") (auto simp: items_at_def item_of_def)
  have "core_ok E (index_of Map.empty (items_at [])) Map.empty {} 0" unfolding core_ok_def by (simp add: i)
  with h show "perm_ok E (perm_init p)"
    by (auto intro!: perm_okI simp: perm_init_def perm_stores_ok_def groups_ok_def accounts_ok_def)
qed

lemma force_accounts_ok:
  assumes "perm_ok E s"
  shows "perm_ok E (snd (ForceDeleteAccountPolicyForResource n d rt i s))"
proof (cases "rt = RESOURCE_TYPE_UNSPECIFIED")
  case False
  obtain d' fin t where "ForceDeleteAccountPolicyForResource n d rt i s = ((d', fin), t)" by (metis surj_pair)
  with force_account_ok(1) [OF assms this False] show ?thesis by simp
qed (use assms in \<open>simp add: ForceDeleteAccountPolicyForResource_def\<close>)

lemma force_groups_ok:
  assumes "perm_ok E s"
  shows "perm_ok E (snd (ForceDeleteGroupPolicyForResource n d rt i s))"
proof (cases "rt = RESOURCE_TYPE_BUCKET \<or> rt = RESOURCE_TYPE_OBJECT")
  case True
  obtain d' fin t where "ForceDeleteGroupPolicyForResource n d rt i s = ((d', fin), t)" by (metis surj_pair)
  with force_group_ok(1) [OF assms this True] show ?thesis by simp
next
  case False
  then have "rt = RESOURCE_TYPE_UNSPECIFIED \<or> rt = RESOURCE_TYPE_GROUP" by (cases rt) auto
  then show ?thesis using assms by (auto simp: ForceDeleteGroupPolicyForResource_def)
qed

lemma perm_reach_ok: "perm_reach E s \<Longrightarrow> perm_ok E s \<and> members_ok E s"
proof (induction rule: perm_reach.induct)
  case (init p)
  then show ?case by (simp add: perm_init_ok)
next
  case (put s p r t)
  then show ?case using PutPolicy_frame [of s E p] by (auto intro: same_members_ok elim: PutPolicy_ok)
next
  case (delete s who rt i d t)
  then show ?case using DeletePolicy_frame [of s E who rt i] by (auto intro: same_members_ok elim: DeletePolicy_ok)
next
  case (add_member s g a exp t)
  then show ?case using members_same_policies(1) same_policies_ok(1) AddGroupMember_ok(1) by blast
next
  case (remove_member s g a t)
  then show ?case using members_same_policies(2) same_policies_ok(1) RemoveGroupMember_ok(1) by blast
next
  case (renew_member s g a m exp)
  then show ?case using members_same_policies(3) same_policies_ok(1) UpdateGroupMember_ok(1) by blast
next
  case (force_accounts s n d rt i)
  then show ?case using force_accounts_ok force_frame(1) same_members_ok by blast
next
  case (force_groups s n d rt i)
  then show ?case using force_groups_ok force_frame(2) same_members_ok by blast
next
  case (force_members s n d g)
  obtain d' fin t where r: "ForceDeleteGroupMembers n d g s = ((d', fin), t)" by (metis surj_pair)
  have "same_policies s t" using force_members_same [of s n d g] r by simp
  with force_members_ok(1) [OF _ r] force_members.IH r show ?case by (auto intro: same_policies_ok(1))
next
  case (expire s now)
  obtain t where "RemoveExpiredPolicies E now s = (Ok (), t)" "perm_ok E t"
    by (rule RemoveExpiredPolicies_ok) (use expire.IH in auto)
  then show ?case using RemoveExpired_frame [of s E now] expire.IH same_members_ok by auto
next
  case (params s keeperAuthority authority p)
  have "same_policies s (snd (perm_UpdateParams keeperAuthority authority p s))"
    "same_members s (snd (perm_UpdateParams keeperAuthority authority p s))"
    by (auto simp: perm_UpdateParams_def perm_SetParams_def same_policies_def same_members_def split: option.splits)
  with params show ?case using same_policies_ok(1) same_members_ok by blast
qed

end
