(* ===== verification/PermissionEval.thy ===== *)
theory PermissionEval
  imports PermissionTypes
begin

text \<open>
  Evaluation of a policy as a rule over its statements: a statement applies or not, each applicable
  statement has a verdict, denial overrides permission, and a size limit is charged once for every
  applicable statement that has one.
\<close>

definition sub_resource :: "VerifyOptions option \<Rightarrow> string" where
  "sub_resource opts = (case opts of None \<Rightarrow> [] | Some v \<Rightarrow> Resource v)"

definition wanted :: "ActionType \<Rightarrow> VerifyOptions option \<Rightarrow> 64 word option" where
  "wanted action opts =
     (if action = ACTION_CREATE_OBJECT then (case opts of None \<Rightarrow> None | Some v \<Rightarrow> WantedSize v) else None)"

definition applies :: "perm_env \<Rightarrow> int \<Rightarrow> ActionType \<Rightarrow> VerifyOptions option \<Rightarrow> Statement \<Rightarrow> bool" where
  "applies E now action opts s \<longleftrightarrow>
     \<not> before (SExpirationTime s) now \<and>
     (sub_resource opts \<noteq> [] \<longrightarrow> list_ex (\<lambda>r. MatchString E r (sub_resource opts)) (Resources s)) \<and>
     (action \<in> set (Actions s) \<or> ACTION_TYPE_ALL \<in> set (Actions s))"

definition verdict :: "ActionType \<Rightarrow> VerifyOptions option \<Rightarrow> Statement \<Rightarrow> Effect" where
  "verdict action opts s =
     (if SEffect s = EFFECT_DENY then EFFECT_DENY
      else (case (LimitSize s, wanted action opts) of
          (Some limit, Some w) \<Rightarrow> if w \<le> limit then EFFECT_ALLOW else EFFECT_DENY
        | _ \<Rightarrow> SEffect s))"

definition charges :: "ActionType \<Rightarrow> VerifyOptions option \<Rightarrow> Statement \<Rightarrow> bool" where
  "charges action opts s \<longleftrightarrow> SEffect s \<noteq> EFFECT_DENY \<and>
     (case (LimitSize s, wanted action opts) of (Some limit, Some w) \<Rightarrow> w \<le> limit | _ \<Rightarrow> False)"

definition charge :: "ActionType \<Rightarrow> VerifyOptions option \<Rightarrow> Statement \<Rightarrow> Statement" where
  "charge action opts s =
     (if charges action opts s then s\<lparr>LimitSize := Some (the (LimitSize s) - the (wanted action opts))\<rparr> else s)"

definition compiles :: "perm_env \<Rightarrow> Statement \<Rightarrow> bool" where
  "compiles E s \<longleftrightarrow> list_all (Compiles E) (Resources s)"

lemma eval_actions_spec:
  "eval_actions acts s action opts =
     (if action \<in> set acts \<or> ACTION_TYPE_ALL \<in> set acts
      then (verdict action opts s, if charges action opts s then Some (charge action opts s) else None)
      else (EFFECT_UNSPECIFIED, None))"
  by (induction acts)
    (auto simp: verdict_def charges_def charge_def wanted_def split: option.splits)

lemma match_resources_spec:
  "list_all (Compiles E) rs \<Longrightarrow> match_resources E rs x = Ok (list_ex (\<lambda>r. MatchString E r x) rs)"
  by (induction rs) auto

lemma stmt_Eval_spec:
  assumes "compiles E s" "\<not> before (SExpirationTime s) now"
  shows "stmt_Eval E s action opts =
     Ok (if applies E now action opts s
         then (verdict action opts s, if charges action opts s then Some (charge action opts s) else None)
         else (EFFECT_UNSPECIFIED, None))"
proof -
  note m = match_resources_spec [OF assms(1) [unfolded compiles_def], of "sub_resource opts"]
  show ?thesis
  proof (cases "sub_resource opts = []")
    case True
    then show ?thesis
      using assms(2) by (simp add: stmt_Eval_def Let_def sub_resource_def [symmetric] eval_actions_spec applies_def)
  next
    case False
    then show ?thesis
      using assms(2) m
      by (auto simp: stmt_Eval_def Let_def sub_resource_def [symmetric] eval_actions_spec applies_def split: bool.splits)
  qed
qed

lemma eval_statements_deny:
  assumes "list_all (compiles E) ss" "\<exists>s \<in> set ss. applies E now action opts s \<and> verdict action opts s = EFFECT_DENY"
  shows "\<exists>u ts. eval_statements E action now opts ss allowed updated = Ok (EFFECT_DENY, u, ts)"
  using assms
proof (induction ss arbitrary: allowed updated)
  case (Cons s ss)
  show ?case
  proof (cases "applies E now action opts s \<and> verdict action opts s = EFFECT_DENY")
    case True
    then have "\<not> before (SExpirationTime s) now" by (simp add: applies_def)
    with True Cons.prems(1) show ?thesis by (simp add: stmt_Eval_spec Let_def)
  next
    case False
    then have ex: "\<exists>s \<in> set ss. applies E now action opts s \<and> verdict action opts s = EFFECT_DENY" using Cons.prems(2) by auto
    have IH: "\<exists>u ts. eval_statements E action now opts ss a u0 = Ok (EFFECT_DENY, u, ts)" for a u0
      using Cons.IH [OF _ ex] Cons.prems(1) by simp
    show ?thesis
    proof (cases "before (SExpirationTime s) now")
      case True
      with IH [of allowed updated] show ?thesis by auto
    next
      case nb: False
      have "\<exists>e t. stmt_Eval E s action opts = Ok (e, t) \<and> e \<noteq> EFFECT_DENY"
        using False nb Cons.prems(1) by (auto simp: stmt_Eval_spec)
      then obtain e t where r: "stmt_Eval E s action opts = Ok (e, t)" "e \<noteq> EFFECT_DENY" by blast
      obtain u ts where "eval_statements E action now opts ss (allowed \<or> e = EFFECT_ALLOW) (updated \<or> t \<noteq> None)
          = Ok (EFFECT_DENY, u, ts)" using IH by blast
      with r nb show ?thesis by (simp add: Let_def)
    qed
  qed
qed simp

definition charge_if :: "perm_env \<Rightarrow> int \<Rightarrow> ActionType \<Rightarrow> VerifyOptions option \<Rightarrow> Statement \<Rightarrow> Statement" where
  "charge_if E now action opts s = (if applies E now action opts s then charge action opts s else s)"

lemma charge_if_not: "\<not> charges action opts s \<Longrightarrow> charge_if E now action opts s = s"
  by (simp add: charge_if_def charge_def)

lemma eval_statements_pass:
  assumes "list_all (compiles E) ss" "\<forall>s \<in> set ss. applies E now action opts s \<longrightarrow> verdict action opts s \<noteq> EFFECT_DENY"
  shows "eval_statements E action now opts ss allowed updated =
    Ok (if allowed \<or> (\<exists>s \<in> set ss. applies E now action opts s \<and> verdict action opts s = EFFECT_ALLOW)
          then EFFECT_ALLOW else EFFECT_UNSPECIFIED,
        updated \<or> (\<exists>s \<in> set ss. applies E now action opts s \<and> charges action opts s),
        map (charge_if E now action opts) ss)"
  using assms
proof (induction ss arbitrary: allowed updated)
  case (Cons s ss)
  have IH: "eval_statements E action now opts ss a u =
    Ok (if a \<or> (\<exists>s \<in> set ss. applies E now action opts s \<and> verdict action opts s = EFFECT_ALLOW)
          then EFFECT_ALLOW else EFFECT_UNSPECIFIED,
        u \<or> (\<exists>s \<in> set ss. applies E now action opts s \<and> charges action opts s),
        map (charge_if E now action opts) ss)" for a u
    using Cons.IH [of a u] Cons.prems by simp
  show ?case
  proof (cases "before (SExpirationTime s) now")
    case True
    then have "\<not> applies E now action opts s" by (simp add: applies_def)
    with True show ?thesis by (simp add: IH charge_if_def)
  next
    case False
    with Cons.prems show ?thesis
      by (auto simp: stmt_Eval_spec IH Let_def charge_if_def charge_def)
  qed
qed simp

text \<open>The rule of a policy.\<close>

definition policy_rule :: "perm_env \<Rightarrow> Policy \<Rightarrow> ActionType \<Rightarrow> int \<Rightarrow> VerifyOptions option \<Rightarrow> Effect \<times> Policy option" where
  "policy_rule E p action now opts =
     (let ss = filter (applies E now action opts) (Statements p) in
      if before (ExpirationTime p) now then (EFFECT_UNSPECIFIED, None)
      else if list_ex (\<lambda>s. verdict action opts s = EFFECT_DENY) ss then (EFFECT_DENY, None)
      else if list_ex (\<lambda>s. verdict action opts s = EFFECT_ALLOW) ss
      then (EFFECT_ALLOW,
            if list_ex (charges action opts) ss
            then Some (p\<lparr>Statements := map (charge_if E now action opts) (Statements p)\<rparr>) else None)
      else (EFFECT_UNSPECIFIED, None))"

lemma policy_Eval_rule:
  assumes "list_all (compiles E) (Statements p)"
  shows "policy_Eval E p action now opts = Ok (policy_rule E p action now opts)"
proof (cases "before (ExpirationTime p) now")
  case True
  then show ?thesis by (simp add: policy_Eval_def policy_rule_def)
next
  case live: False
  show ?thesis
  proof (cases "\<exists>s \<in> set (Statements p). applies E now action opts s \<and> verdict action opts s = EFFECT_DENY")
    case True
    from eval_statements_deny [OF assms True, of False False] True live show ?thesis
      by (auto simp: policy_Eval_def policy_rule_def Let_def list_ex_iff)
  next
    case False
    then have "\<forall>s \<in> set (Statements p). applies E now action opts s \<longrightarrow> verdict action opts s \<noteq> EFFECT_DENY" by blast
    from eval_statements_pass [OF assms this, of False False] False live show ?thesis
      by (auto simp: policy_Eval_def policy_rule_def Let_def list_ex_iff)
  qed
qed

text \<open>
  Whatever the expressions, an evaluation that returns follows the rule: it agrees with the evaluation in
  the environment where every expression compiles.  It panics only on an expression that does not compile,
  and only when a sub-resource is matched.
\<close>

definition lenient :: "perm_env \<Rightarrow> perm_env" where
  "lenient E = E\<lparr>Compiles := \<lambda>_. True\<rparr>"

lemma lenient_simps [simp]:
  "Compiles (lenient E) r" "MatchString (lenient E) = MatchString E" "list_all (compiles (lenient E)) ss"
  "applies (lenient E) = applies E" "charge_if (lenient E) = charge_if E"
  by (simp_all add: lenient_def compiles_def applies_def charge_if_def list_all_iff fun_eq_iff)

lemma policy_rule_lenient: "policy_rule (lenient E) = policy_rule E"
  by (intro ext) (simp add: policy_rule_def Let_def)

lemma match_resources_cases:
  "match_resources E rs x = match_resources (lenient E) rs x \<or>
   match_resources E rs x = Panic \<and> \<not> list_all (Compiles E) rs"
  by (induction rs) auto

lemma stmt_Eval_cases:
  "stmt_Eval E s action opts = stmt_Eval (lenient E) s action opts \<or>
   stmt_Eval E s action opts = Panic \<and> sub_resource opts \<noteq> [] \<and> \<not> compiles E s"
  using match_resources_cases [of E "Resources s" "sub_resource opts"]
  by (auto simp: stmt_Eval_def Let_def sub_resource_def [symmetric] compiles_def)

lemma eval_statements_cases:
  "eval_statements E action now opts ss al u = eval_statements (lenient E) action now opts ss al u \<or>
   eval_statements E action now opts ss al u = Panic \<and> sub_resource opts \<noteq> [] \<and> \<not> list_all (compiles E) ss"
proof (induction ss arbitrary: al u)
  case (Cons s ss)
  show ?case
  proof (cases "before (SExpirationTime s) now")
    case True
    with Cons [of al u] show ?thesis by auto
  next
    case False
    obtain e t where r: "stmt_Eval (lenient E) s action opts = Ok (e, t)"
      using stmt_Eval_spec [OF _ False, of "lenient E" action opts] by (metis compiles_def lenient_simps(1) list.pred_True list_all_iff surj_pair)
    from stmt_Eval_cases [of E s action opts] r False Cons [of "al \<or> e = EFFECT_ALLOW" "u \<or> t \<noteq> None"]
    show ?thesis by (auto simp: Let_def)
  qed
qed simp

lemma policy_Eval_cases:
  "policy_Eval E p action now opts = Ok (policy_rule E p action now opts) \<or>
   policy_Eval E p action now opts = Panic \<and> sub_resource opts \<noteq> [] \<and> \<not> list_all (compiles E) (Statements p)"
proof -
  have "policy_Eval E p action now opts = policy_Eval (lenient E) p action now opts \<or>
    policy_Eval E p action now opts = Panic \<and> sub_resource opts \<noteq> [] \<and> \<not> list_all (compiles E) (Statements p)"
    using eval_statements_cases [of E action now opts "Statements p" False False] by (auto simp: policy_Eval_def)
  then show ?thesis by (simp add: policy_Eval_rule policy_rule_lenient)
qed

text \<open>A rule that allows without storing anything leaves every statement as it is.\<close>

lemma policy_rule_uncharged:
  assumes "policy_rule E p action now opts = (EFFECT_ALLOW, None)"
  shows "map (charge_if E now action opts) (Statements p) = Statements p"
proof -
  have "charge_if E now action opts s = s" if "s \<in> set (Statements p)" for s
    using assms that by (auto simp: policy_rule_def Let_def list_ex_iff charge_if_def charge_def split: if_splits)
  then show ?thesis by (simp add: map_idI)
qed

lemma policy_rule_no_size:
  "wanted action opts = None \<Longrightarrow> snd (policy_rule E p action now opts) = None"
  by (auto simp: policy_rule_def Let_def list_ex_iff charges_def split: option.splits)

text \<open>A charged limit covers the size, so that subtracting it does not wrap around.\<close>

lemma charge_limit:
  assumes "charges action opts s" "LimitSize s = Some l" "wanted action opts = Some w"
  shows "LimitSize (charge action opts s) = Some (l - w)" and "unat (l - w) = unat l - unat w" and "unat w \<le> unat l"
proof -
  have le: "w \<le> l" using assms by (simp add: charges_def split: option.splits)
  then show "unat (l - w) = unat l - unat w" "unat w \<le> unat l"
    by (simp_all add: unat_sub word_le_nat_alt)
  show "LimitSize (charge action opts s) = Some (l - w)" using assms by (simp add: charge_def)
qed

end
