(* ===== verification/StorageAccess.thy ===== *)
theory StorageAccess
  imports PermissionMembers PermissionEval
begin

text \<open>
  Access control of the storage module (\<open>x/storage/keeper/permission.go\<close>) over the permission module: the
  decision whether an operator may act on a bucket, an object or a group, and the messages by which
  owners store and delete policies (\<open>keeper/msg_server.go\<close>).

  Of the records of buckets, objects and groups only the fields these functions read are modelled.  The
  stores by name are keyed by the hash of the name (\<open>types/keys.go\<close>), a parameter.  The operator
  of a read may be empty (\<open>None\<close>).
\<close>

section \<open>Data\<close>

datatype VisibilityType =
    VISIBILITY_TYPE_UNSPECIFIED
  | VISIBILITY_TYPE_PUBLIC_READ
  | VISIBILITY_TYPE_PRIVATE
  | VISIBILITY_TYPE_INHERIT

record BucketInfo =
  BOwner :: string
  BVisibility :: VisibilityType
  BId :: "256 word"

record ObjectInfo =
  OOwner :: string
  OBucketName :: string
  OObjectName :: string
  OVisibility :: VisibilityType
  OId :: "256 word"

record GroupInfo =
  GOwner :: string
  GId :: "256 word"

record storage_state =
  bucketIds :: "(bytes \<times> 256 word) list"
  buckets :: "(256 word \<times> BucketInfo) list"
  objectIds :: "((bytes \<times> bytes) \<times> 256 word) list"
  objects :: "(256 word \<times> ObjectInfo) list"
  groupIds :: "((160 word \<times> bytes) \<times> 256 word) list"
  groups :: "(256 word \<times> GroupInfo) list"
  perm :: perm_state

type_synonym 'a storage_result = "(perm_error, 'a) outcome \<times> storage_state"

text \<open>The block time, and whether the call is part of a transaction (\<open>ctx.TxBytes() != nil\<close>).\<close>

record access_ctx =
  Now :: int
  InTx :: bool

record storage_env =
  permEnv :: perm_env
  Keccak256 :: "string \<Rightarrow> bytes"

record MsgPutPolicy =
  Operator :: string
  MPrincipal :: "Principal option"
  MResource :: string
  MStatements :: "Statement list"
  MExpiration :: "int option"


section \<open>Stores\<close>

definition GetBucketInfoById :: "256 word \<Rightarrow> storage_state \<Rightarrow> BucketInfo option" where
  "GetBucketInfoById i s = map_of (buckets s) i"

definition GetBucketInfo :: "storage_env \<Rightarrow> string \<Rightarrow> storage_state \<Rightarrow> BucketInfo option" where
  "GetBucketInfo E bucketName s = (case map_of (bucketIds s) (Keccak256 E bucketName) of
      None \<Rightarrow> None | Some i \<Rightarrow> GetBucketInfoById i s)"

definition GetObjectInfoById :: "256 word \<Rightarrow> storage_state \<Rightarrow> ObjectInfo option" where
  "GetObjectInfoById i s = map_of (objects s) i"

definition GetObjectInfo :: "storage_env \<Rightarrow> string \<Rightarrow> string \<Rightarrow> storage_state \<Rightarrow> ObjectInfo option" where
  "GetObjectInfo E bucketName objectName s =
     (case map_of (objectIds s) (Keccak256 E bucketName, Keccak256 E objectName) of
      None \<Rightarrow> None | Some i \<Rightarrow> GetObjectInfoById i s)"

definition GetGroupInfoById :: "256 word \<Rightarrow> storage_state \<Rightarrow> GroupInfo option" where
  "GetGroupInfoById i s = map_of (groups s) i"

text \<open>No group is stored under an empty owner: every key has the 20 bytes of an address.\<close>

definition GetGroupInfo :: "storage_env \<Rightarrow> 160 word option \<Rightarrow> string \<Rightarrow> storage_state \<Rightarrow> GroupInfo option" where
  "GetGroupInfo E ownerAddr groupName s = (case ownerAddr of
      None \<Rightarrow> None
    | Some a \<Rightarrow> (case map_of (groupIds s) (a, Keccak256 E groupName) of
          None \<Rightarrow> None | Some i \<Rightarrow> GetGroupInfoById i s))"

definition hasGroup :: "(256 word \<times> GroupInfo) list \<Rightarrow> 256 word \<Rightarrow> bool" where
  "hasGroup G groupID = kv_has G groupID"


section \<open>Deciding an access\<close>

text \<open>
  Storing the policy whose size limits an evaluation charged.  An error of \<open>PutPolicy\<close> becomes a
  panic.
\<close>

definition save_policy :: "perm_env \<Rightarrow> access_ctx \<Rightarrow> ActionType \<Rightarrow> Policy option \<Rightarrow> perm_state \<Rightarrow> unit perm_result" where
  "save_policy E ctx action newPolicy s = (case newPolicy of
      None \<Rightarrow> (Ok (), s)
    | Some q \<Rightarrow>
        if action = ACTION_CREATE_OBJECT \<and> InTx ctx then
          (case PutPolicy E q s of (Ok _, t) \<Rightarrow> (Ok (), t) | (_, t) \<Rightarrow> (Panic, t))
        else (Ok (), s))"

definition live_member :: "256 word \<Rightarrow> 160 word \<Rightarrow> int \<Rightarrow> perm_state \<Rightarrow> bool" where
  "live_member groupID operator now s = (case GetGroupMember groupID operator s of
      None \<Rightarrow> False
    | Some m \<Rightarrow> (case MExpirationTime m of None \<Rightarrow> True | Some t \<Rightarrow> now < t))"

text \<open>
  The loop over the items of a policy group: \<open>None\<close> is an explicit denial, otherwise whether some group
  allows, with the policy to store of the last that does.
\<close>

fun verify_items ::
  "perm_env \<Rightarrow> access_ctx \<Rightarrow> (256 word \<times> GroupInfo) list \<Rightarrow> 160 word \<Rightarrow> ActionType \<Rightarrow> VerifyOptions option \<Rightarrow>
   PolicyGroup \<Rightarrow> bool \<Rightarrow> Policy option \<Rightarrow> perm_state \<Rightarrow> (perm_error, (bool \<times> Policy option) option) outcome" where
  "verify_items E ctx G operator action opts [] isAllowed allowedPolicy s = Ok (Some (isAllowed, allowedPolicy))"
| "verify_items E ctx G operator action opts (item # items) isAllowed allowedPolicy s =
     (if \<not> hasGroup G (GroupId item) then verify_items E ctx G operator action opts items isAllowed allowedPolicy s
      else (case GetPolicyByID (PolicyId item) s of
          None \<Rightarrow> Panic
        | Some p \<Rightarrow> (case policy_Eval E p action (Now ctx) opts of
              Ok (effect, newPolicy) \<Rightarrow>
                if effect \<noteq> EFFECT_UNSPECIFIED \<and> live_member (GroupId item) operator (Now ctx) s then
                  (if effect = EFFECT_ALLOW
                   then verify_items E ctx G operator action opts items True newPolicy s
                   else if effect = EFFECT_DENY then Ok None
                   else verify_items E ctx G operator action opts items isAllowed allowedPolicy s)
                else verify_items E ctx G operator action opts items isAllowed allowedPolicy s
            | Err e \<Rightarrow> Err e
            | Panic \<Rightarrow> Panic)))"

definition verify_groups ::
  "perm_env \<Rightarrow> access_ctx \<Rightarrow> (256 word \<times> GroupInfo) list \<Rightarrow> 256 word \<Rightarrow> ResourceType \<Rightarrow> 160 word \<Rightarrow>
   ActionType \<Rightarrow> VerifyOptions option \<Rightarrow> perm_state \<Rightarrow> Effect perm_result" where
  "verify_groups E ctx G resourceID resourceType operator action opts s =
     andthen (GetPolicyGroupForResource resourceID resourceType s) (\<lambda>group s.
       (case group of
          None \<Rightarrow> (Ok EFFECT_UNSPECIFIED, s)
        | Some items \<Rightarrow> (case verify_items E ctx G operator action opts items False None s of
              Ok None \<Rightarrow> (Ok EFFECT_DENY, s)
            | Ok (Some (isAllowed, allowedPolicy)) \<Rightarrow>
                if isAllowed then andthen (save_policy E ctx action allowedPolicy s) (\<lambda>_ s. (Ok EFFECT_ALLOW, s))
                else (Ok EFFECT_UNSPECIFIED, s)
            | Err e \<Rightarrow> (Err e, s)
            | Panic \<Rightarrow> (Panic, s))))"

definition VerifyPolicy ::
  "perm_env \<Rightarrow> access_ctx \<Rightarrow> (256 word \<times> GroupInfo) list \<Rightarrow> 256 word \<Rightarrow> ResourceType \<Rightarrow> 160 word \<Rightarrow>
   ActionType \<Rightarrow> VerifyOptions option \<Rightarrow> perm_state \<Rightarrow> Effect perm_result" where
  "VerifyPolicy E ctx G resourceID resourceType operator action opts s =
     andthen (GetPolicyForAccount resourceID resourceType operator s) (\<lambda>policy s.
       (case policy of
          None \<Rightarrow> verify_groups E ctx G resourceID resourceType operator action opts s
        | Some p \<Rightarrow> (case policy_Eval E p action (Now ctx) opts of
              Ok (effect, newPolicy) \<Rightarrow>
                if effect \<noteq> EFFECT_UNSPECIFIED then
                  (if effect = EFFECT_ALLOW then andthen (save_policy E ctx action newPolicy s) (\<lambda>_ s. (Ok effect, s))
                   else (Ok effect, s))
                else verify_groups E ctx G resourceID resourceType operator action opts s
            | Err e \<Rightarrow> (Err e, s)
            | Panic \<Rightarrow> (Panic, s))))"

definition PublicReadBucketAllowedActions :: "ActionType \<Rightarrow> bool" where
  "PublicReadBucketAllowedActions a \<longleftrightarrow>
     a \<in> {ACTION_GET_OBJECT, ACTION_COPY_OBJECT, ACTION_EXECUTE_OBJECT, ACTION_LIST_OBJECT}"

definition PublicReadObjectAllowedActions :: "ActionType \<Rightarrow> bool" where
  "PublicReadObjectAllowedActions a \<longleftrightarrow> a \<in> {ACTION_GET_OBJECT, ACTION_COPY_OBJECT, ACTION_EXECUTE_OBJECT}"

definition allow_or_deny :: "Effect \<Rightarrow> Effect" where
  "allow_or_deny e = (if e = EFFECT_ALLOW then EFFECT_ALLOW else EFFECT_DENY)"

definition VerifyBucketPermission ::
  "perm_env \<Rightarrow> access_ctx \<Rightarrow> (256 word \<times> GroupInfo) list \<Rightarrow> BucketInfo \<Rightarrow> 160 word option \<Rightarrow> ActionType \<Rightarrow>
   VerifyOptions option \<Rightarrow> perm_state \<Rightarrow> Effect perm_result" where
  "VerifyBucketPermission E ctx G bucketInfo operator action options s =
     (if BVisibility bucketInfo = VISIBILITY_TYPE_PUBLIC_READ \<and> PublicReadBucketAllowedActions action
      then (Ok EFFECT_ALLOW, s)
      else (case operator of
          None \<Rightarrow> (Ok EFFECT_DENY, s)
        | Some a \<Rightarrow> andthen (must (AccAddressFromHex E (BOwner bucketInfo)) s) (\<lambda>owner s.
            if a = owner then (Ok EFFECT_ALLOW, s)
            else andthen (VerifyPolicy E ctx G (BId bucketInfo) RESOURCE_TYPE_BUCKET a action options s)
                   (\<lambda>effect s. (Ok (allow_or_deny effect), s)))))"

definition VerifyObjectPermission ::
  "perm_env \<Rightarrow> access_ctx \<Rightarrow> (256 word \<times> GroupInfo) list \<Rightarrow> BucketInfo \<Rightarrow> ObjectInfo \<Rightarrow> 160 word option \<Rightarrow>
   ActionType \<Rightarrow> perm_state \<Rightarrow> Effect perm_result" where
  "VerifyObjectPermission E ctx G bucketInfo objectInfo operator action s =
     (let visibility = (OVisibility objectInfo = VISIBILITY_TYPE_PUBLIC_READ \<or>
            OVisibility objectInfo = VISIBILITY_TYPE_INHERIT \<and> BVisibility bucketInfo = VISIBILITY_TYPE_PUBLIC_READ) in
      if visibility \<and> PublicReadObjectAllowedActions action then (Ok EFFECT_ALLOW, s)
      else (case operator of
          None \<Rightarrow> (Ok EFFECT_DENY, s)
        | Some a \<Rightarrow> andthen (must (AccAddressFromHex E (OOwner objectInfo)) s) (\<lambda>owner s.
            if owner = a then (Ok EFFECT_ALLOW, s)
            else
              (let opts = \<lparr>Resource = grn_String E (NewObjectGRN (OBucketName objectInfo) (OObjectName objectInfo)),
                           WantedSize = None\<rparr> in
               andthen (VerifyPolicy E ctx G (BId bucketInfo) RESOURCE_TYPE_BUCKET a action (Some opts) s)
                 (\<lambda>bucketEffect s.
                    if bucketEffect = EFFECT_DENY then (Ok EFFECT_DENY, s)
                    else andthen (VerifyPolicy E ctx G (OId objectInfo) RESOURCE_TYPE_OBJECT a action None s)
                      (\<lambda>objectEffect s.
                         if objectEffect = EFFECT_DENY then (Ok EFFECT_DENY, s)
                         else if bucketEffect = EFFECT_ALLOW \<or> objectEffect = EFFECT_ALLOW then (Ok EFFECT_ALLOW, s)
                         else (Ok EFFECT_DENY, s)))))))"

definition VerifyGroupPermission ::
  "perm_env \<Rightarrow> access_ctx \<Rightarrow> (256 word \<times> GroupInfo) list \<Rightarrow> GroupInfo \<Rightarrow> 160 word \<Rightarrow> ActionType \<Rightarrow>
   perm_state \<Rightarrow> Effect perm_result" where
  "VerifyGroupPermission E ctx G groupInfo operator action s =
     (if EqualFold (GOwner groupInfo) (AddrString E operator) then (Ok EFFECT_ALLOW, s)
      else andthen (VerifyPolicy E ctx G (GId groupInfo) RESOURCE_TYPE_GROUP operator action None s)
             (\<lambda>effect s. (Ok (allow_or_deny effect), s)))"


section \<open>Policies of owners\<close>

text \<open>The errors of the functions on resource names, as the callers see them.\<close>

definition grn_error :: "name_error \<Rightarrow> perm_error" where
  "grn_error e = (if e = ErrGRNMismatch then ErrGRNTypeMismatch else ErrInvalidGRN)"

definition getResourceOwnerAndIDFromGRN ::
  "storage_env \<Rightarrow> GRN \<Rightarrow> storage_state \<Rightarrow> (perm_error, 160 word \<times> 256 word) outcome" where
  "getResourceOwnerAndIDFromGRN E grn s =
     (let owned = (\<lambda>owner i. case AccAddressFromHex (permEnv E) owner of None \<Rightarrow> Panic | Some a \<Rightarrow> Ok (a, i)) in
      case resType grn of
        RESOURCE_TYPE_BUCKET \<Rightarrow> (case GetBucketName grn of
            Ok bucketName \<Rightarrow> (case GetBucketInfo E bucketName s of
                None \<Rightarrow> Err ErrNoSuchBucket | Some b \<Rightarrow> owned (BOwner b) (BId b))
          | Err e \<Rightarrow> Err (grn_error e)
          | Panic \<Rightarrow> Panic)
      | RESOURCE_TYPE_OBJECT \<Rightarrow> (case GetBucketAndObjectName grn of
            Ok (bucketName, objectName) \<Rightarrow> (case GetObjectInfo E bucketName objectName s of
                None \<Rightarrow> Err ErrNoSuchObject | Some b \<Rightarrow> owned (OOwner b) (OId b))
          | Err e \<Rightarrow> Err (grn_error e)
          | Panic \<Rightarrow> Panic)
      | RESOURCE_TYPE_GROUP \<Rightarrow> (case GetGroupOwnerAndAccount grn of
            Ok (owner, groupName) \<Rightarrow> (case GetGroupInfo E owner groupName s of
                None \<Rightarrow> Err ErrNoSuchBucket | Some b \<Rightarrow> owned (GOwner b) (GId b))
          | Err e \<Rightarrow> Err (grn_error e)
          | Panic \<Rightarrow> Panic)
      | RESOURCE_TYPE_UNSPECIFIED \<Rightarrow> Err ErrInvalidGRN)"

text \<open>A group named by its resource name becomes its identifier; whatever cannot be resolved stays.\<close>

definition NormalizePrincipal :: "storage_env \<Rightarrow> Principal \<Rightarrow> storage_state \<Rightarrow> Principal" where
  "NormalizePrincipal E who s =
     (if PType who \<noteq> PRINCIPAL_TYPE_GNFD_GROUP \<or> ParseUint (permEnv E) (PValue who) \<noteq> None then who
      else (case ParseFromString (permEnv E) (PValue who) False of
          Ok grn \<Rightarrow> (case GetGroupOwnerAndAccount grn of
              Ok (owner, groupName) \<Rightarrow> (case GetGroupInfo E owner groupName s of
                  Some g \<Rightarrow> who\<lparr>PValue := UintString (permEnv E) (GId g)\<rparr>
                | None \<Rightarrow> who)
            | _ \<Rightarrow> who)
        | _ \<Rightarrow> who))"

definition ValidatePrincipal ::
  "storage_env \<Rightarrow> 160 word \<Rightarrow> Principal \<Rightarrow> storage_state \<Rightarrow> (perm_error, unit) outcome" where
  "ValidatePrincipal E resOwner who s = (case PType who of
      PRINCIPAL_TYPE_GNFD_ACCOUNT \<Rightarrow> (case GetAccountAddress (permEnv E) who of
          Ok a \<Rightarrow> if a = resOwner then Err (ErrInvalidPrincipal ''principal account can not be the bucket owner'') else Ok ()
        | Err e \<Rightarrow> Err e
        | Panic \<Rightarrow> Panic)
    | PRINCIPAL_TYPE_GNFD_GROUP \<Rightarrow> (case ParseUint (permEnv E) (PValue who) of
          None \<Rightarrow> Err ErrParseUint
        | Some groupID \<Rightarrow> if GetGroupInfoById groupID s = None then Err ErrNoSuchGroup else Ok ())
    | PRINCIPAL_TYPE_UNSPECIFIED \<Rightarrow> Err (ErrInvalidPrincipal ''Unknown principal type.''))"

definition on_perm :: "(perm_state \<Rightarrow> 'a perm_result) \<Rightarrow> storage_state \<Rightarrow> 'a storage_result" where
  "on_perm f s = (case f (perm s) of (r, p) \<Rightarrow> (r, s\<lparr>perm := p\<rparr>))"

text \<open>\<open>PutPolicy\<close> of the keeper; a nil principal is dereferenced once the operator is known to be the owner.\<close>

definition storage_PutPolicy ::
  "storage_env \<Rightarrow> 160 word \<Rightarrow> GRN \<Rightarrow> Principal option \<Rightarrow> Policy \<Rightarrow> storage_state \<Rightarrow> 256 word storage_result" where
  "storage_PutPolicy E operator grn who policy s =
     (case getResourceOwnerAndIDFromGRN E grn s of
        Ok (resOwner, resID) \<Rightarrow>
          if operator \<noteq> resOwner then (Err ErrAccessDenied, s)
          else (case who of
              None \<Rightarrow> (Panic, s)
            | Some who \<Rightarrow>
                (let who = NormalizePrincipal E who s in
                 case ValidatePrincipal E resOwner who s of
                   Ok _ \<Rightarrow> on_perm (PutPolicy (permEnv E) (policy\<lparr>PrincipalOf := who, ResourceId := resID\<rparr>)) s
                 | Err e \<Rightarrow> (Err e, s)
                 | Panic \<Rightarrow> (Panic, s)))
      | Err e \<Rightarrow> (Err e, s)
      | Panic \<Rightarrow> (Panic, s))"

definition storage_DeletePolicy ::
  "storage_env \<Rightarrow> 160 word \<Rightarrow> Principal option \<Rightarrow> GRN \<Rightarrow> storage_state \<Rightarrow> 256 word option storage_result" where
  "storage_DeletePolicy E operator who grn s =
     (case getResourceOwnerAndIDFromGRN E grn s of
        Ok (resOwner, resID) \<Rightarrow>
          if operator \<noteq> resOwner then (Err ErrAccessDenied, s)
          else (case who of
              None \<Rightarrow> (Panic, s)
            | Some who \<Rightarrow> on_perm (DeletePolicy (permEnv E) who (resType grn) resID) s)
      | Err e \<Rightarrow> (Err e, s)
      | Panic \<Rightarrow> (Panic, s))"

text \<open>
  The message handlers.  The policy built from a message has no identifier yet (0 here) and gets its
  resource identifier in the keeper.
\<close>

definition msg_PutPolicy :: "storage_env \<Rightarrow> access_ctx \<Rightarrow> MsgPutPolicy \<Rightarrow> storage_state \<Rightarrow> 256 word storage_result" where
  "msg_PutPolicy E ctx msg s =
     (case AccAddressFromHex (permEnv E) (Operator msg) of
        None \<Rightarrow> (Panic, s)
      | Some operator \<Rightarrow> (case ParseFromString (permEnv E) (MResource msg) True of
            Ok grn \<Rightarrow>
              if before (MExpiration msg) (Now ctx) then (Err ErrPermissionExpired, s)
              else if list_ex (\<lambda>st. before (SExpirationTime st) (Now ctx)) (MStatements msg)
              then (Err ErrPermissionExpired, s)
              else storage_PutPolicy E operator grn (MPrincipal msg)
                     \<lparr>Id = 0, PrincipalOf = \<lparr>PType = PRINCIPAL_TYPE_UNSPECIFIED, PValue = []\<rparr>,
                      ResourceTypeOf = resType grn, ResourceId = 0, Statements = MStatements msg,
                      ExpirationTime = MExpiration msg\<rparr> s
          | Err e \<Rightarrow> (Err (grn_error e), s)
          | Panic \<Rightarrow> (Panic, s)))"

definition msg_DeletePolicy ::
  "storage_env \<Rightarrow> string \<Rightarrow> Principal option \<Rightarrow> string \<Rightarrow> storage_state \<Rightarrow> 256 word option storage_result" where
  "msg_DeletePolicy E operatorName who resourceName s =
     (case AccAddressFromHex (permEnv E) operatorName of
        None \<Rightarrow> (Panic, s)
      | Some operator \<Rightarrow> (case ParseFromString (permEnv E) resourceName False of
            Ok grn \<Rightarrow> storage_DeletePolicy E operator who grn s
          | Err e \<Rightarrow> (Err (grn_error e), s)
          | Panic \<Rightarrow> (Panic, s)))"

text \<open>The stateless and the stateful check of the message before its handler runs.\<close>

definition put_policy_ValidateBasic :: "storage_env \<Rightarrow> MsgPutPolicy \<Rightarrow> (perm_error, unit) outcome" where
  "put_policy_ValidateBasic E msg =
     (if AccAddressFromHex (permEnv E) (Operator msg) = None then Err ErrInvalidAddress
      else (case ParseFromString (permEnv E) (MResource msg) True of
          Ok grn \<Rightarrow> (case MPrincipal msg of
              None \<Rightarrow> Err (ErrInvalidPrincipal ''principal cannot be empty'')
            | Some who \<Rightarrow>
                if PType who = PRINCIPAL_TYPE_GNFD_GROUP \<and> resType grn = RESOURCE_TYPE_GROUP
                then Err (ErrInvalidPrincipal ''Not allow grant group's permission to another group'')
                else (case principal_ValidateBasic (permEnv E) who of
                    Ok _ \<Rightarrow> fst (foreach (\<lambda>st u. (stmt_ValidateBasic (permEnv E) st (resType grn), u)) (MStatements msg) ())
                  | Err e \<Rightarrow> Err e
                  | Panic \<Rightarrow> Panic))
        | Err e \<Rightarrow> Err ErrInvalidGRN
        | Panic \<Rightarrow> Panic))"

definition put_policy_ValidateRuntime :: "storage_env \<Rightarrow> MsgPutPolicy \<Rightarrow> (perm_error, unit) outcome" where
  "put_policy_ValidateRuntime E msg =
     (let rt = (case ParseFromString (permEnv E) (MResource msg) True of Ok grn \<Rightarrow> resType grn | _ \<Rightarrow> RESOURCE_TYPE_UNSPECIFIED) in
      fst (foreach (\<lambda>st u. (stmt_ValidateRuntime (permEnv E) st rt, u)) (MStatements msg) ()))"

end
