(* ===== verification/StorageRule.thy ===== *)
theory StorageRule
  imports StorageAccess
begin

text \<open>
  The rule of an access, over the grants and memberships the permission module stands for: the grant of
  the account decides if it applies, otherwise the grants of the existing groups the account is a live
  member of, where one denial outweighs every permission.  \<open>VerifyPolicy\<close> follows the rule, and what it
  stores is the charged policy of one grantee.
\<close>

definition grant_effect :: "perm_env \<Rightarrow> int \<Rightarrow> ActionType \<Rightarrow> VerifyOptions option \<Rightarrow> grant option \<Rightarrow> Effect" where
  "grant_effect E now action opts g = (case g of
      None \<Rightarrow> EFFECT_UNSPECIFIED
    | Some (ss, e) \<Rightarrow>
        (let ss = filter (applies E now action opts) ss in
         if before e now then EFFECT_UNSPECIFIED
         else if list_ex (\<lambda>st. verdict action opts st = EFFECT_DENY) ss then EFFECT_DENY
         else if list_ex (\<lambda>st. verdict action opts st = EFFECT_ALLOW) ss then EFFECT_ALLOW
         else EFFECT_UNSPECIFIED))"

definition membership_live :: "int \<Rightarrow> int option option \<Rightarrow> bool" where
  "membership_live now m = (case m of None \<Rightarrow> False | Some None \<Rightarrow> True | Some (Some t) \<Rightarrow> now < t)"

definition heard ::
  "perm_env \<Rightarrow> int \<Rightarrow> (256 word \<times> GroupInfo) list \<Rightarrow> 256 word \<Rightarrow> ResourceType \<Rightarrow> 160 word \<Rightarrow> ActionType \<Rightarrow>
   VerifyOptions option \<Rightarrow> perm_state \<Rightarrow> Effect \<Rightarrow> 256 word \<Rightarrow> bool" where
  "heard E now G i rt a action opts s e g \<longleftrightarrow>
     hasGroup G g \<and> membership_live now (membership s (g, a)) \<and> grant_effect E now action opts (grants s (rt, i, ToGroup g)) = e"

definition access_rule ::
  "perm_env \<Rightarrow> int \<Rightarrow> (256 word \<times> GroupInfo) list \<Rightarrow> 256 word \<Rightarrow> ResourceType \<Rightarrow> 160 word \<Rightarrow> ActionType \<Rightarrow>
   VerifyOptions option \<Rightarrow> perm_state \<Rightarrow> Effect" where
  "access_rule E now G i rt a action opts s =
     (let own = grant_effect E now action opts (grants s (rt, i, ToAccount a)) in
      if own \<noteq> EFFECT_UNSPECIFIED then own
      else if Ex (heard E now G i rt a action opts s EFFECT_DENY) then EFFECT_DENY
      else if Ex (heard E now G i rt a action opts s EFFECT_ALLOW) then EFFECT_ALLOW
      else EFFECT_UNSPECIFIED)"

text \<open>A grant on the resource contains an expression that does not compile.\<close>

definition uncompiled :: "perm_env \<Rightarrow> ResourceType \<Rightarrow> 256 word \<Rightarrow> perm_state \<Rightarrow> bool" where
  "uncompiled E rt i s \<longleftrightarrow> (\<exists>gr ss x. grants s (rt, i, gr) = Some (ss, x) \<and> \<not> list_all (compiles E) ss)"


section \<open>One policy\<close>

lemma policy_rule_effect: "fst (policy_rule E p action now opts) = grant_effect E now action opts (Some (terms p))"
  by (simp add: policy_rule_def grant_effect_def terms_def Let_def)

lemma policy_rule_charged:
  assumes "snd (policy_rule E p action now opts) = Some q"
  shows "q = p\<lparr>Statements := map (charge_if E now action opts) (Statements p)\<rparr>"
  using assms by (auto simp: policy_rule_def Let_def split: if_splits)

lemma live_member_eq: "live_member g a now s = membership_live now (membership s (g, a))"
  by (auto simp: live_member_def membership_live_def membership_def split: option.splits)

lemma eval_stored:
  "policy_Eval E p action now opts =
     Ok (grant_effect E now action opts (Some (terms p)), snd (policy_rule E p action now opts)) \<or>
   policy_Eval E p action now opts = Panic \<and> sub_resource opts \<noteq> [] \<and> \<not> list_all (compiles E) (Statements p)"
  using policy_Eval_cases [of E p action now opts] policy_rule_effect [of E p action now opts] by (metis prod.collapse)

lemma uncompiledI:
  "grants s (rt, i, gr) = Some (terms p) \<Longrightarrow> \<not> list_all (compiles E) (Statements p) \<Longrightarrow> uncompiled E rt i s"
  by (auto simp: uncompiled_def terms_def)

lemma grants_index:
  assumes "perm_ok E s" "index s k = Some j"
  obtains p where "GetPolicyByID j s = Some p" "policy_slot E p = Some k" "Id p = j" "grants s k = Some (terms p)"
proof -
  obtain p where p: "map_of (policies s) j = Some p" "policy_slot E p = Some k" "Id p = j"
    by (rule index_policy [OF assms])
  with assms(2) have "grants s k = Some (terms p)" by (simp add: grants_def core_grants_def)
  with p that show thesis by (simp add: GetPolicyByID_def)
qed

lemma grants_None: "index s k = None \<Longrightarrow> grants s k = None"
  by (simp add: grants_def core_grants_def)


section \<open>Storing a charged policy\<close>

text \<open>The policy group of the resource of a slot has no room, so that none of its policies can be overridden.\<close>

definition group_full :: "perm_state \<Rightarrow> slot \<Rightarrow> bool" where
  "group_full s k \<longleftrightarrow> (\<exists>g. snd (snd k) = ToGroup g) \<and>
     unat (MaximumPolicyGroupSize s) \<le> length (items_at (groupPolicies s) (fst k, fst (snd k)))"

lemma PutPolicy_stored:
  assumes ok: "perm_ok E s" and k: "index s k = Some j" and p: "GetPolicyByID j s = Some p" "policy_slot E p = Some k"
    and q: "q = p\<lparr>Statements := ss\<rparr>"
  shows "PutPolicy E q s = (if group_full s k then (Err ErrLimitExceeded, s) else (Ok (Id p), snd (updatePolicy p q s)))"
proof -
  have st: "groups_ok (groupPolicies s)" "accounts_ok (accountPolicies s)"
    using ok by (auto simp: perm_ok_def perm_stores_ok_def)
  obtain gr where gr: "principal_grantee E (PrincipalOf p) = Some gr" "k = (ResourceTypeOf p, ResourceId p, gr)"
    using p(2) by (auto simp: policy_slot_def)
  have must: "MustGetPolicyByID j s = (Ok p, s)" using p(1) by (simp add: MustGetPolicyByID_def)
  show ?thesis
  proof (cases gr)
    case (ToAccount a)
    then have t: "PType (PrincipalOf p) = PRINCIPAL_TYPE_GNFD_ACCOUNT" "AccAddressFromHex E (PValue (PrincipalOf p)) = Some a"
      using gr(1) by (auto simp: principal_grantee_def split: PrincipalType.splits)
    have m: "map_of (accountPolicies s) (ResourceTypeOf p, ResourceId p, a) = Some j" using k gr(2) ToAccount by simp
    then have "ResourceTypeOf p \<noteq> RESOURCE_TYPE_UNSPECIFIED" using st(2) by (force simp: accounts_ok_def dom_def)
    then show ?thesis using t m must ToAccount gr(2)
      by (simp add: PutPolicy_def put_account_policy_def MustGetAccountAddress_def GetAccountAddress_def
          account_key_def override_policy_def group_full_def q must_def andthen_def)
  next
    case (ToGroup g)
    then have t: "PType (PrincipalOf p) = PRINCIPAL_TYPE_GNFD_GROUP" "ParseUint E (PValue (PrincipalOf p)) = Some g"
      using gr(1) by (auto simp: principal_grantee_def split: PrincipalType.splits)
    define items where "items = items_at (groupPolicies s) (ResourceTypeOf p, ResourceId p)"
    obtain it where it: "item_of g items = Some it" "PolicyId it = j"
      using k gr(2) ToGroup by (auto simp: items_def)
    then have m: "map_of (groupPolicies s) (ResourceTypeOf p, ResourceId p) = Some items"
      by (auto simp: items_def items_at_def item_of_def split: option.splits)
    have key: "group_key (ResourceTypeOf p) (ResourceId p) = Some (ResourceTypeOf p, ResourceId p)"
      using st(1) m by (auto simp: groups_ok_def)
    have g: "MustGetGroupID E (PrincipalOf q) = Some g" using t by (simp add: MustGetGroupID_def GetGroupID_def q)
    have "override_items E items q False s = (Ok True, snd (updatePolicy p q s))"
      using override_items_spec [OF g groups_ok_items [OF st(1), of "(ResourceTypeOf p, ResourceId p)", folded items_def]]
        it must by (simp add: override_policy_def andthen_def)
    then show ?thesis using t m key ToGroup gr(2)
      by (simp add: PutPolicy_def put_group_policy_def group_full_def q must_def andthen_def items_def [symmetric])
  qed
qed

text \<open>The stored policy of a slot, which the rule of the access allows, with the update to store.\<close>

definition charge_of ::
  "perm_env \<Rightarrow> int \<Rightarrow> ActionType \<Rightarrow> VerifyOptions option \<Rightarrow> perm_state \<Rightarrow> slot \<Rightarrow> Policy option \<Rightarrow> bool" where
  "charge_of E now action opts s k q \<longleftrightarrow>
     (\<exists>j p. index s k = Some j \<and> GetPolicyByID j s = Some p \<and> policy_slot E p = Some k \<and>
        policy_rule E p action now opts = (EFFECT_ALLOW, q))"

lemma charge_of_grant:
  assumes "charge_of E now action opts s k q"
  obtains j p where "index s k = Some j" "GetPolicyByID j s = Some p" "policy_slot E p = Some k"
    "policy_rule E p action now opts = (EFFECT_ALLOW, q)" "grants s k = Some (Statements p, ExpirationTime p)"
  using assms by (auto simp: charge_of_def grants_def core_grants_def GetPolicyByID_def terms_def)

lemma save_policy_stored:
  assumes ok: "perm_ok E s" and c: "charge_of E (Now ctx) action opts s k q" and run: "save_policy E ctx action q s = (r, t)"
  shows "if InTx ctx \<and> action = ACTION_CREATE_OBJECT
    then r = Panic \<and> t = s \<and> group_full s k \<or>
      r = Ok () \<and> membership t = membership s \<and>
        (\<exists>ss x. grants s k = Some (ss, x) \<and> grants t = (grants s)(k \<mapsto> (map (charge_if E (Now ctx) action opts) ss, x)))
    else r = Ok () \<and> t = s"
proof (cases q)
  case None
  obtain p where p: "policy_rule E p action (Now ctx) opts = (EFFECT_ALLOW, q)" "grants s k = Some (Statements p, ExpirationTime p)"
    by (rule charge_of_grant [OF c])
  then have "(grants s)(k \<mapsto> (map (charge_if E (Now ctx) action opts) (Statements p), ExpirationTime p)) = grants s"
    using None policy_rule_uncharged by (simp add: fun_upd_idem)
  with run None p(2) show ?thesis by (auto simp: save_policy_def)
next
  case (Some q')
  obtain j p where p: "index s k = Some j" "GetPolicyByID j s = Some p" "policy_slot E p = Some k"
    "policy_rule E p action (Now ctx) opts = (EFFECT_ALLOW, q)" "grants s k = Some (Statements p, ExpirationTime p)"
    by (rule charge_of_grant [OF c])
  have eq: "q' = p\<lparr>Statements := map (charge_if E (Now ctx) action opts) (Statements p)\<rparr>"
    using policy_rule_charged [of E p action "Now ctx" opts q'] p(4) Some by simp
  note put = PutPolicy_stored [OF ok p(1-3) eq]
  have m: "membership (snd (updatePolicy p q' s)) = membership s"
    using same_members_update(1) [OF same_members_refl] by (simp add: membership_via same_members_def)
  have g: "grants (snd (updatePolicy p q' s)) = (grants s)(k \<mapsto> terms q')"
    using updatePolicy_ok(2) [OF ok p(1)] p(2) by (simp add: GetPolicyByID_def)
  show ?thesis
  proof (cases "InTx ctx \<and> action = ACTION_CREATE_OBJECT \<and> \<not> group_full s k")
    case True
    then have "r = Ok ()" "t = snd (updatePolicy p q' s)" using put run Some by (auto simp: save_policy_def)
    with True m g p(5) show ?thesis by (auto simp: terms_def eq)
  qed (use put run Some in \<open>auto simp: save_policy_def\<close>)
qed


section \<open>The groups of a resource\<close>

lemma item_policy:
  assumes ok: "perm_ok E s" and m: "map_of (groupPolicies s) (rt, i) = Some items" and it: "item \<in> set items"
  obtains p where "index s (rt, i, ToGroup (GroupId item)) = Some (PolicyId item)" "GetPolicyByID (PolicyId item) s = Some p"
    "policy_slot E p = Some (rt, i, ToGroup (GroupId item))" "grants s (rt, i, ToGroup (GroupId item)) = Some (terms p)"
proof -
  have "distinct (map GroupId items)"
    using ok m groups_ok_items [of "groupPolicies s" "(rt, i)"] by (auto simp: perm_ok_def perm_stores_ok_def items_at_def)
  with it m have idx: "index s (rt, i, ToGroup (GroupId item)) = Some (PolicyId item)"
    by (simp add: items_at_def item_of_distinct)
  from grants_index [OF ok idx] idx that show thesis by blast
qed

lemma verify_items_spec:
  fixes E ctx G a action opts s rt i
  defines "h \<equiv> heard E (Now ctx) G i rt a action opts s"
  defines "chosen \<equiv> \<lambda>items q. \<exists>item \<in> set items. \<exists>p. h EFFECT_ALLOW (GroupId item) \<and>
    GetPolicyByID (PolicyId item) s = Some p \<and> policy_rule E p action (Now ctx) opts = (EFFECT_ALLOW, q)"
  assumes "\<forall>item \<in> set items. \<exists>p. GetPolicyByID (PolicyId item) s = Some p \<and> grants s (rt, i, ToGroup (GroupId item)) = Some (terms p)"
  shows "verify_items E ctx G a action opts items al pol s = Panic \<and> sub_resource opts \<noteq> [] \<and> uncompiled E rt i s \<or>
    verify_items E ctx G a action opts items al pol s = Ok None \<and> (\<exists>item \<in> set items. h EFFECT_DENY (GroupId item)) \<or>
    (\<exists>q. verify_items E ctx G a action opts items al pol s = Ok (Some (al \<or> (\<exists>item \<in> set items. h EFFECT_ALLOW (GroupId item)), q)) \<and>
       \<not> (\<exists>item \<in> set items. h EFFECT_DENY (GroupId item)) \<and>
       (q = pol \<and> \<not> (\<exists>item \<in> set items. h EFFECT_ALLOW (GroupId item)) \<or> chosen items q))"
  using assms(3)
proof (induction items arbitrary: al pol)
  case (Cons item items)
  obtain p where p: "GetPolicyByID (PolicyId item) s = Some p" "grants s (rt, i, ToGroup (GroupId item)) = Some (terms p)"
    using Cons.prems by auto
  have pre: "\<forall>item \<in> set items. \<exists>p. GetPolicyByID (PolicyId item) s = Some p \<and> grants s (rt, i, ToGroup (GroupId item)) = Some (terms p)"
    using Cons.prems by simp
  define e where "e = grant_effect E (Now ctx) action opts (Some (terms p))"
  define c where "c = snd (policy_rule E p action (Now ctx) opts)"
  have h: "h x (GroupId item) \<longleftrightarrow> hasGroup G (GroupId item) \<and> live_member (GroupId item) a (Now ctx) s \<and> e = x" for x
    by (simp add: h_def heard_def p(2) live_member_eq e_def)
  have c: "policy_rule E p action (Now ctx) opts = (e, c)"
    using policy_rule_effect [of E p action "Now ctx" opts] by (simp add: e_def c_def prod_eq_iff)
  consider (panic) "hasGroup G (GroupId item)" "policy_Eval E p action (Now ctx) opts = Panic" "sub_resource opts \<noteq> []" "uncompiled E rt i s"
    | (out) "\<not> hasGroup G (GroupId item)" | (ok) "hasGroup G (GroupId item)" "policy_Eval E p action (Now ctx) opts = Ok (e, c)"
    using eval_stored [of E p action "Now ctx" opts] uncompiledI [OF p(2)] by (auto simp: e_def c_def)
  then show ?case
  proof cases
    case panic
    then show ?thesis using p(1) by simp
  next
    case out
    then have "verify_items E ctx G a action opts (item # items) al pol s = verify_items E ctx G a action opts items al pol s" by simp
    with out h Cons.IH [OF pre, of al pol] show ?thesis by (auto simp: chosen_def)
  next
    case ok
    show ?thesis
    proof (cases "live_member (GroupId item) a (Now ctx) s \<and> e = EFFECT_ALLOW")
      case True
      then have "verify_items E ctx G a action opts (item # items) al pol s = verify_items E ctx G a action opts items True c s"
        using ok p(1) by simp
      moreover have "chosen (item # items) c" "h EFFECT_ALLOW (GroupId item)" "\<not> h EFFECT_DENY (GroupId item)"
        using True ok h p(1) c by (auto simp: chosen_def)
      ultimately show ?thesis using Cons.IH [OF pre, of True c] by (auto simp: chosen_def)
    next
      case False
      show ?thesis
      proof (cases "live_member (GroupId item) a (Now ctx) s \<and> e = EFFECT_DENY")
        case True
        with ok h p(1) show ?thesis by simp
      next
        case no: False
        then have "verify_items E ctx G a action opts (item # items) al pol s = verify_items E ctx G a action opts items al pol s"
          using False ok p(1) by simp
        with False no h Cons.IH [OF pre, of al pol] show ?thesis by (auto simp: chosen_def)
      qed
    qed
  qed
qed simp

lemma heard_item:
  assumes "map_of (groupPolicies s) (rt, i) = Some items" "x \<noteq> EFFECT_UNSPECIFIED"
  shows "(\<exists>item \<in> set items. heard E now G i rt a action opts s x (GroupId item)) = Ex (heard E now G i rt a action opts s x)"
proof -
  have "g \<in> GroupId ` set items" if "heard E now G i rt a action opts s x g" for g
  proof (rule ccontr)
    assume "g \<notin> GroupId ` set items"
    then have "grants s (rt, i, ToGroup g) = None" using assms(1) by (intro grants_None) (simp add: items_at_def item_of_None)
    with that assms(2) show False by (simp add: heard_def grant_effect_def)
  qed
  then show ?thesis by blast
qed

lemma verify_groups_spec:
  fixes E ctx G a action opts s rt i
  defines "h \<equiv> heard E (Now ctx) G i rt a action opts s"
  defines "e \<equiv> (if Ex (h EFFECT_DENY) then EFFECT_DENY else if Ex (h EFFECT_ALLOW) then EFFECT_ALLOW else EFFECT_UNSPECIFIED)"
  assumes ok: "perm_ok E s" and rt: "rt = RESOURCE_TYPE_BUCKET \<or> rt = RESOURCE_TYPE_OBJECT"
  shows "verify_groups E ctx G i rt a action opts s = (Panic, s) \<and> sub_resource opts \<noteq> [] \<and> uncompiled E rt i s \<or>
    verify_groups E ctx G i rt a action opts s = (Ok e, s) \<and> e \<noteq> EFFECT_ALLOW \<or>
    e = EFFECT_ALLOW \<and> (\<exists>g q. h EFFECT_ALLOW g \<and> charge_of E (Now ctx) action opts s (rt, i, ToGroup g) q \<and>
      verify_groups E ctx G i rt a action opts s = andthen (save_policy E ctx action q s) (\<lambda>_ s. (Ok EFFECT_ALLOW, s)))"
proof (cases "map_of (groupPolicies s) (rt, i)")
  case None
  then have "grants s (rt, i, ToGroup g) = None" for g by (intro grants_None) (simp add: items_at_def item_of_def)
  then have "\<not> h EFFECT_DENY g" "\<not> h EFFECT_ALLOW g" for g by (simp_all add: h_def heard_def grant_effect_def)
  with None rt show ?thesis
    by (auto simp: verify_groups_def GetPolicyGroupForResource_def group_key_def must_def andthen_def e_def)
next
  case (Some items)
  have pre: "\<forall>item \<in> set items. \<exists>p. GetPolicyByID (PolicyId item) s = Some p \<and> grants s (rt, i, ToGroup (GroupId item)) = Some (terms p)"
    using item_policy [OF ok Some] by metis
  let ?v = "verify_items E ctx G a action opts items False None s"
  have run: "verify_groups E ctx G i rt a action opts s = (case ?v of
      Ok None \<Rightarrow> (Ok EFFECT_DENY, s)
    | Ok (Some (al, pol)) \<Rightarrow>
        if al then andthen (save_policy E ctx action pol s) (\<lambda>_ s. (Ok EFFECT_ALLOW, s)) else (Ok EFFECT_UNSPECIFIED, s)
    | Err e \<Rightarrow> (Err e, s) | Panic \<Rightarrow> (Panic, s))"
    using Some rt by (auto simp: verify_groups_def GetPolicyGroupForResource_def group_key_def must_def andthen_def)
  note d = heard_item [OF Some, of EFFECT_DENY E "Now ctx" G a action opts, folded h_def, simplified]
  note al = heard_item [OF Some, of EFFECT_ALLOW E "Now ctx" G a action opts, folded h_def, simplified]
  consider "?v = Panic" "sub_resource opts \<noteq> []" "uncompiled E rt i s" | "?v = Ok None" "Ex (h EFFECT_DENY)"
    | q where "?v = Ok (Some (Ex (h EFFECT_ALLOW), q))" "\<not> Ex (h EFFECT_DENY)" "\<not> Ex (h EFFECT_ALLOW)"
    | q item p where "?v = Ok (Some (Ex (h EFFECT_ALLOW), q))" "\<not> Ex (h EFFECT_DENY)" "item \<in> set items" "h EFFECT_ALLOW (GroupId item)"
      "GetPolicyByID (PolicyId item) s = Some p" "policy_rule E p action (Now ctx) opts = (EFFECT_ALLOW, q)"
    using verify_items_spec [OF pre, where E = E and ctx = ctx and G = G and a = a and action = action and opts = opts
        and al = False and pol = None, folded h_def] unfolding d al simp_thms by blast
  then show ?thesis
  proof cases
    case 4
    obtain p' where "index s (rt, i, ToGroup (GroupId item)) = Some (PolicyId item)" "GetPolicyByID (PolicyId item) s = Some p'"
      "policy_slot E p' = Some (rt, i, ToGroup (GroupId item))" by (rule item_policy [OF ok Some 4(3)])
    with 4 have c: "charge_of E (Now ctx) action opts s (rt, i, ToGroup (GroupId item)) q" by (auto simp: charge_of_def)
    have a: "Ex (h EFFECT_ALLOW)" using 4(4) by blast
    have "verify_groups E ctx G i rt a action opts s = andthen (save_policy E ctx action q s) (\<lambda>_ s. (Ok EFFECT_ALLOW, s))"
      unfolding run using 4(1) a by simp
    with a 4(2,4) c show ?thesis unfolding e_def by auto
  qed (simp_all add: run e_def)
qed

text \<open>The grantee whose policy an allowed access charges: the account by its own grant, else a group that allowed it.\<close>

definition speaker ::
  "perm_env \<Rightarrow> int \<Rightarrow> (256 word \<times> GroupInfo) list \<Rightarrow> 256 word \<Rightarrow> ResourceType \<Rightarrow> 160 word \<Rightarrow> ActionType \<Rightarrow>
   VerifyOptions option \<Rightarrow> perm_state \<Rightarrow> grantee \<Rightarrow> bool" where
  "speaker E now G i rt a action opts s gr \<longleftrightarrow>
     (if grant_effect E now action opts (grants s (rt, i, ToAccount a)) = EFFECT_ALLOW then gr = ToAccount a
      else (\<exists>g. gr = ToGroup g \<and> heard E now G i rt a action opts s EFFECT_ALLOW g))"

text \<open>Where no decision can be made: the store has no key for it, or an expression does not compile.\<close>

definition undecidable ::
  "perm_env \<Rightarrow> int \<Rightarrow> 256 word \<Rightarrow> ResourceType \<Rightarrow> 160 word \<Rightarrow> ActionType \<Rightarrow> VerifyOptions option \<Rightarrow> perm_state \<Rightarrow> bool" where
  "undecidable E now i rt a action opts s \<longleftrightarrow>
     rt = RESOURCE_TYPE_UNSPECIFIED \<or>
     rt = RESOURCE_TYPE_GROUP \<and> grant_effect E now action opts (grants s (rt, i, ToAccount a)) = EFFECT_UNSPECIFIED \<or>
     sub_resource opts \<noteq> [] \<and> uncompiled E rt i s"

lemma grant_effect_cases:
  "grant_effect E now action opts g \<in> {EFFECT_UNSPECIFIED, EFFECT_ALLOW, EFFECT_DENY}"
  by (auto simp: grant_effect_def Let_def split: option.splits)

lemma verify_groups_decides:
  fixes E ctx G i rt a action opts s
  defines "rule \<equiv> access_rule E (Now ctx) G i rt a action opts s"
  assumes ok: "perm_ok E s" and rt: "rt \<noteq> RESOURCE_TYPE_UNSPECIFIED"
    and own: "grant_effect E (Now ctx) action opts (grants s (rt, i, ToAccount a)) = EFFECT_UNSPECIFIED"
  shows "verify_groups E ctx G i rt a action opts s = (Panic, s) \<and> undecidable E (Now ctx) i rt a action opts s \<or>
    verify_groups E ctx G i rt a action opts s = (Ok rule, s) \<and> rule \<noteq> EFFECT_ALLOW \<or>
    rule = EFFECT_ALLOW \<and> (\<exists>gr q. speaker E (Now ctx) G i rt a action opts s gr \<and>
      charge_of E (Now ctx) action opts s (rt, i, gr) q \<and>
      verify_groups E ctx G i rt a action opts s = andthen (save_policy E ctx action q s) (\<lambda>_ s. (Ok EFFECT_ALLOW, s)))"
proof (cases "rt = RESOURCE_TYPE_GROUP")
  case True
  with own show ?thesis
    by (simp add: verify_groups_def GetPolicyGroupForResource_def group_key_def must_def andthen_def undecidable_def)
next
  case False
  with rt have rt': "rt = RESOURCE_TYPE_BUCKET \<or> rt = RESOURCE_TYPE_OBJECT" by (cases rt) auto
  have e: "rule = (if Ex (heard E (Now ctx) G i rt a action opts s EFFECT_DENY) then EFFECT_DENY
      else if Ex (heard E (Now ctx) G i rt a action opts s EFFECT_ALLOW) then EFFECT_ALLOW else EFFECT_UNSPECIFIED)"
    using own by (simp add: rule_def access_rule_def)
  from verify_groups_spec [OF ok rt', where ctx = ctx and G = G and i = i and a = a and action = action and opts = opts, folded e] own show ?thesis
    unfolding undecidable_def speaker_def by auto
qed

lemma VerifyPolicy_spec:
  fixes E ctx G i rt a action opts s
  defines "rule \<equiv> access_rule E (Now ctx) G i rt a action opts s"
  assumes ok: "perm_ok E s"
  shows "VerifyPolicy E ctx G i rt a action opts s = (Panic, s) \<and> undecidable E (Now ctx) i rt a action opts s \<or>
    VerifyPolicy E ctx G i rt a action opts s = (Ok rule, s) \<and> rule \<noteq> EFFECT_ALLOW \<or>
    rule = EFFECT_ALLOW \<and> (\<exists>gr q. speaker E (Now ctx) G i rt a action opts s gr \<and>
      charge_of E (Now ctx) action opts s (rt, i, gr) q \<and>
      VerifyPolicy E ctx G i rt a action opts s = andthen (save_policy E ctx action q s) (\<lambda>_ s. (Ok EFFECT_ALLOW, s)))"
proof (cases "rt = RESOURCE_TYPE_UNSPECIFIED")
  case True
  then show ?thesis
    by (simp add: VerifyPolicy_def GetPolicyForAccount_def account_key_def must_def andthen_def undecidable_def)
next
  case rt: False
  let ?own = "grant_effect E (Now ctx) action opts (grants s (rt, i, ToAccount a))"
  have key: "account_key rt i a = Some (rt, i, a)" using rt by (simp add: account_key_def)
  note grp = verify_groups_decides [OF ok rt, where ctx = ctx and G = G and i = i and a = a and action = action and opts = opts,
      folded rule_def]
  show ?thesis
  proof (cases "map_of (accountPolicies s) (rt, i, a)")
    case None
    then have "?own = EFFECT_UNSPECIFIED" using grants_None [of s "(rt, i, ToAccount a)"] by (simp add: grant_effect_def)
    moreover have "VerifyPolicy E ctx G i rt a action opts s = verify_groups E ctx G i rt a action opts s"
      using None key by (simp add: VerifyPolicy_def GetPolicyForAccount_def must_def andthen_def)
    ultimately show ?thesis using grp by simp
  next
    case (Some j)
    then have idx: "index s (rt, i, ToAccount a) = Some j" by simp
    obtain p where p: "GetPolicyByID j s = Some p" "policy_slot E p = Some (rt, i, ToAccount a)" "Id p = j"
      "grants s (rt, i, ToAccount a) = Some (terms p)" by (rule grants_index [OF ok idx])
    define c where "c = snd (policy_rule E p action (Now ctx) opts)"
    have c: "policy_rule E p action (Now ctx) opts = (?own, c)"
      using policy_rule_effect [of E p action "Now ctx" opts] p(4) by (simp add: c_def prod_eq_iff)
    have run: "VerifyPolicy E ctx G i rt a action opts s = (case policy_Eval E p action (Now ctx) opts of
          Ok (effect, newPolicy) \<Rightarrow>
            if effect \<noteq> EFFECT_UNSPECIFIED then
              (if effect = EFFECT_ALLOW then andthen (save_policy E ctx action newPolicy s) (\<lambda>_ s. (Ok effect, s)) else (Ok effect, s))
            else verify_groups E ctx G i rt a action opts s
        | Err e \<Rightarrow> (Err e, s) | Panic \<Rightarrow> (Panic, s))"
      using Some key p(1) by (simp add: VerifyPolicy_def GetPolicyForAccount_def must_def andthen_def)
    consider "policy_Eval E p action (Now ctx) opts = Panic" "sub_resource opts \<noteq> []" "uncompiled E rt i s"
      | "policy_Eval E p action (Now ctx) opts = Ok (EFFECT_UNSPECIFIED, c)" "?own = EFFECT_UNSPECIFIED"
      | "policy_Eval E p action (Now ctx) opts = Ok (EFFECT_ALLOW, c)" "?own = EFFECT_ALLOW"
      | "policy_Eval E p action (Now ctx) opts = Ok (EFFECT_DENY, c)" "?own = EFFECT_DENY"
      using policy_Eval_cases [of E p action "Now ctx" opts] uncompiledI [OF p(4)] c
        grant_effect_cases [of E "Now ctx" action opts "grants s (rt, i, ToAccount a)"] by auto
    then show ?thesis
    proof cases
      case 1
      then show ?thesis by (simp add: run undecidable_def)
    next
      case 2
      with grp show ?thesis by (simp add: run)
    next
      case 3
      have "charge_of E (Now ctx) action opts s (rt, i, ToAccount a) c" using idx p c 3(2) by (auto simp: charge_of_def)
      moreover have "rule = EFFECT_ALLOW" "speaker E (Now ctx) G i rt a action opts s (ToAccount a)"
        using 3(2) by (simp_all add: rule_def access_rule_def speaker_def)
      moreover have "VerifyPolicy E ctx G i rt a action opts s = andthen (save_policy E ctx action c s) (\<lambda>_ s. (Ok EFFECT_ALLOW, s))"
        unfolding run using 3(1) by simp
      ultimately show ?thesis by blast
    next
      case 4
      then show ?thesis by (simp add: run rule_def access_rule_def)
    qed
  qed
qed

text \<open>An access that names no size, or that is not the creation of an object in a transaction, stores nothing.\<close>

lemma VerifyPolicy_readonly:
  assumes "perm_ok E s" and "\<not> (InTx ctx \<and> action = ACTION_CREATE_OBJECT) \<or> wanted action opts = None"
  shows "VerifyPolicy E ctx G i rt a action opts s = (Panic, s) \<and> undecidable E (Now ctx) i rt a action opts s \<or>
    VerifyPolicy E ctx G i rt a action opts s = (Ok (access_rule E (Now ctx) G i rt a action opts s), s)"
proof -
  have "save_policy E ctx action q s = (Ok (), s)" if c: "charge_of E (Now ctx) action opts s k q" for k q
  proof -
    obtain p where "policy_rule E p action (Now ctx) opts = (EFFECT_ALLOW, q)" using c by (auto simp: charge_of_def)
    then have "wanted action opts = None \<Longrightarrow> q = None" using policy_rule_no_size by (metis snd_conv)
    with assms(2) show ?thesis by (auto simp: save_policy_def split: option.splits)
  qed
  with VerifyPolicy_spec [OF assms(1), where ctx = ctx and G = G and i = i and rt = rt and a = a and action = action and opts = opts] show ?thesis by (auto simp: andthen_def)
qed

lemma VerifyPolicy_outcome:
  assumes ok: "perm_ok E s"
  shows "VerifyPolicy E ctx G i rt a action opts s = (Panic, s) \<or>
    (\<exists>t. VerifyPolicy E ctx G i rt a action opts s = (Ok (access_rule E (Now ctx) G i rt a action opts s), t) \<and>
       (\<not> (InTx ctx \<and> action = ACTION_CREATE_OBJECT) \<longrightarrow> t = s))"
proof (cases "InTx ctx \<and> action = ACTION_CREATE_OBJECT")
  case True
  have "r = Panic \<and> t = s \<or> r = Ok ()"
    if "charge_of E (Now ctx) action opts s k q" "save_policy E ctx action q s = (r, t)" for k q r t
    using save_policy_stored [OF ok that] True by auto
  then have "andthen (save_policy E ctx action q s) (\<lambda>_ s. (Ok EFFECT_ALLOW, s)) = (Panic, s) \<or>
      (\<exists>t. andthen (save_policy E ctx action q s) (\<lambda>_ s. (Ok EFFECT_ALLOW, s)) = (Ok EFFECT_ALLOW, t))"
    if "charge_of E (Now ctx) action opts s k q" for k q
    using that by (cases "save_policy E ctx action q s") (fastforce simp: andthen_def)
  with True VerifyPolicy_spec [OF ok, where ctx = ctx and G = G and i = i and rt = rt and a = a and action = action and opts = opts]
  show ?thesis by (elim disjE conjE exE) auto
next
  case False
  with VerifyPolicy_readonly [OF ok disjI1 [OF False], of G i rt a opts] show ?thesis by auto
qed

end
