(* ===== verification/PermissionProps.thy ===== *)
theory PermissionProps
  imports PermissionMembers PermissionEval
begin

text \<open>
  What the permission module guarantees, over every state its operations reach: the invariant of the
  stores, the policies as a map of grants, expiry, forced deletion, membership, and the rule by which a
  policy is evaluated.
\<close>

section \<open>A sample\<close>

definition sample_perm_env :: perm_env where
  "sample_perm_env =
     \<lparr>AccAddressFromHex = (\<lambda>x. if x = ''a'' then Some 1 else if x = ''b'' then Some 2 else None),
      AddrString = (\<lambda>a. if a = 1 then ''a'' else ''b''),
      ParseUint = (\<lambda>x. if x = ''7'' then Some 7 else None), UintString = (\<lambda>_. ''7''),
      Compiles = (\<lambda>_. True), MatchString = (\<lambda>r x. r = x)\<rparr>"

definition sample_statement :: Statement where
  "sample_statement = \<lparr>SEffect = EFFECT_ALLOW, Actions = [ACTION_CREATE_OBJECT], Resources = [],
     SExpirationTime = None, LimitSize = Some 100\<rparr>"

definition sample_account_policy :: Policy where
  "sample_account_policy = \<lparr>Id = 0, PrincipalOf = \<lparr>PType = PRINCIPAL_TYPE_GNFD_ACCOUNT, PValue = ''a''\<rparr>,
     ResourceTypeOf = RESOURCE_TYPE_BUCKET, ResourceId = 5, Statements = [sample_statement], ExpirationTime = Some 10\<rparr>"

definition sample_group_policy :: Policy where
  "sample_group_policy = \<lparr>Id = 0, PrincipalOf = \<lparr>PType = PRINCIPAL_TYPE_GNFD_GROUP, PValue = ''7''\<rparr>,
     ResourceTypeOf = RESOURCE_TYPE_BUCKET, ResourceId = 5, Statements = [sample_statement], ExpirationTime = None\<rparr>"

definition sample_perm1 :: perm_state where
  "sample_perm1 = snd (PutPolicy sample_perm_env sample_account_policy (perm_init perm_DefaultParams))"

definition sample_perm2 :: perm_state where
  "sample_perm2 = snd (PutPolicy sample_perm_env sample_group_policy sample_perm1)"

definition sample_perm :: perm_state where
  "sample_perm = snd (AddGroupMember sample_perm_env 7 2 None sample_perm2)"

lemma sample_runs:
  "PutPolicy sample_perm_env sample_account_policy (perm_init perm_DefaultParams) = (Ok 1, sample_perm1)"
  "PutPolicy sample_perm_env sample_group_policy sample_perm1 = (Ok 2, sample_perm2)"
  "AddGroupMember sample_perm_env 7 2 None sample_perm2 = (Ok (), sample_perm)"
proof -
  have "fst (PutPolicy sample_perm_env sample_account_policy (perm_init perm_DefaultParams)) = Ok 1"
    "fst (PutPolicy sample_perm_env sample_group_policy sample_perm1) = Ok 2"
    "fst (AddGroupMember sample_perm_env 7 2 None sample_perm2) = Ok ()" by code_simp+
  then show "PutPolicy sample_perm_env sample_account_policy (perm_init perm_DefaultParams) = (Ok 1, sample_perm1)"
    "PutPolicy sample_perm_env sample_group_policy sample_perm1 = (Ok 2, sample_perm2)"
    "AddGroupMember sample_perm_env 7 2 None sample_perm2 = (Ok (), sample_perm)"
    by (simp_all add: prod_eq_iff sample_perm1_def sample_perm2_def sample_perm_def)
qed

lemma sample_reach:
  "perm_reach sample_perm_env (perm_init perm_DefaultParams)" "perm_reach sample_perm_env sample_perm1"
  "perm_reach sample_perm_env sample_perm2" "perm_reach sample_perm_env sample_perm"
proof -
  show 0: "perm_reach sample_perm_env (perm_init perm_DefaultParams)" by (rule perm_reach.init)
  show 1: "perm_reach sample_perm_env sample_perm1" by (rule perm_reach.put [OF 0 sample_runs(1)])
  show 2: "perm_reach sample_perm_env sample_perm2" by (rule perm_reach.put [OF 1 sample_runs(2)])
  show "perm_reach sample_perm_env sample_perm" by (rule perm_reach.add_member [OF 2 sample_runs(3)])
qed


section \<open>The stores\<close>

text \<open>
  C3: the stores are consistent.  In every state that policies, deletions, members, forced deletions,
  expirations and parameter changes reach from an empty one, each slot of the indexes leads to one
  stored policy of that slot, every stored policy stands at its slot under its own identifier, the
  queue holds exactly the expirations of the stored policies, and each membership entry leads to one
  record of its own group and account.
\<close>

theorem permission_stores_consistent:
  assumes "perm_reach E s"
  shows "(\<forall>k i. index s k = Some i \<longrightarrow> (\<exists>p. GetPolicyByID i s = Some p \<and> policy_slot E p = Some k)) \<and>
    (\<forall>i p. GetPolicyByID i s = Some p \<longrightarrow> Id p = i \<and> i \<noteq> 0 \<and> (\<exists>k. policy_slot E p = Some k \<and> index s k = Some i)) \<and>
    (\<forall>t bs. (t, bs) \<in> queue s \<longleftrightarrow> (\<exists>i p. GetPolicyByID i s = Some p \<and> ExpirationTime p = Some t \<and> bs = uint_bytes i)) \<and>
    linked (member_of E) (map_of (groupMembers s)) (map_of (membersById s))"
proof -
  have ok: "perm_ok E s" "members_ok E s" using perm_reach_ok [OF assms] by auto
  obtain n where c: "core_ok E (index s) (map_of (policies s)) (queue s) n" by (rule perm_okE [OF ok(1)])
  have "\<forall>t bs. (t, bs) \<in> queue s \<longleftrightarrow> (\<exists>i p. map_of (policies s) i = Some p \<and> ExpirationTime p = Some t \<and> bs = uint_bytes i)"
  proof (intro allI)
    fix t bs
    have "x \<in> queue s \<longleftrightarrow> (\<exists>i p. map_of (policies s) i = Some p \<and> x \<in> queue_of p)" for x
      by (subst core_queue [OF c]) auto
    moreover have "(t, bs) \<in> queue_of p \<longleftrightarrow> ExpirationTime p = Some t \<and> bs = uint_bytes i"
      if "map_of (policies s) i = Some p" for i p
      using core_pol [OF c that] by (auto simp: queue_of_def split: option.splits)
    ultimately show "(t, bs) \<in> queue s \<longleftrightarrow> (\<exists>i p. map_of (policies s) i = Some p \<and> ExpirationTime p = Some t \<and> bs = uint_bytes i)"
      by blast
  qed
  moreover have "linked (member_of E) (map_of (groupMembers s)) (map_of (membersById s))"
    using ok(2) by (simp add: members_ok_def)
  moreover have "\<forall>k i. index s k = Some i \<longrightarrow> (\<exists>p. map_of (policies s) i = Some p \<and> policy_slot E p = Some k)"
    using core_idx [OF c] by blast
  moreover have "\<forall>i p. map_of (policies s) i = Some p \<longrightarrow> Id p = i \<and> i \<noteq> 0 \<and> (\<exists>k. policy_slot E p = Some k \<and> index s k = Some i)"
    using core_pol [OF c] by blast
  ultimately show ?thesis unfolding GetPolicyByID_def by (intro conjI)
qed

theorem permission_stores_consistent_witness:
  "perm_reach sample_perm_env sample_perm \<and> index sample_perm (RESOURCE_TYPE_BUCKET, 5, ToAccount 1) = Some 1 \<and>
   (\<exists>p. GetPolicyByID 1 sample_perm = Some p \<and> policy_slot sample_perm_env p = Some (RESOURCE_TYPE_BUCKET, 5, ToAccount 1))"
proof -
  have "index sample_perm (RESOURCE_TYPE_BUCKET, 5, ToAccount 1) = Some 1" by code_simp
  with permission_stores_consistent [OF sample_reach(4)] sample_reach(4) show ?thesis by blast
qed


section \<open>Policies as grants\<close>

lemma next_id_Err: "next_id key s \<noteq> (Err e, t)"
  by (auto simp: next_id_def NextVal_def split: option.splits prod.splits)

lemma MustGet_Err: "MustGetPolicyByID i s \<noteq> (Err e, t)"
  by (simp add: MustGetPolicyByID_def split: option.splits)

lemma override_Err: "override_items E items p found s \<noteq> (Err e, t)"
  by (induction items arbitrary: found s)
    (auto simp: andthen_eq_Err override_policy_def MustGetPolicyByID_def split: option.splits if_splits)

lemma PutPolicy_Err: "PutPolicy E p s = (Err e, t) \<Longrightarrow> t = s"
  by (auto simp: PutPolicy_def put_account_policy_def put_group_policy_def append_group_policy_def andthen_eq_Err
      override_policy_def add_account_policy_def add_group_policy_def next_id_Err override_Err MustGet_Err split: PrincipalType.splits option.splits if_splits)

text \<open>
  C9: storing a policy.  When \<open>PutPolicy\<close> succeeds, the grants change exactly at the slot of the policy,
  to its statements and expiration, whether the slot was free or overridden; members are untouched.
  When it returns an error, nothing changes.
\<close>

theorem put_policy_refines:
  assumes "perm_reach E s"
  shows "(case PutPolicy E p s of
      (Ok r, t) \<Rightarrow> \<exists>k. policy_slot E p = Some k \<and> grants t = (grants s)(k \<mapsto> (Statements p, ExpirationTime p)) \<and>
        membership t = membership s \<and> (index s k = None \<longrightarrow> index t k = Some r)
    | (Err e, t) \<Rightarrow> grants t = grants s \<and> membership t = membership s
    | (Panic, t) \<Rightarrow> True)"
proof -
  have ok: "perm_ok E s" using perm_reach_ok [OF assms] by simp
  have mem: "membership t = membership s" if "PutPolicy E p s = (r, t)" for r t
    using PutPolicy_frame [of s E p] that by (auto simp: membership_via same_members_def)
  show ?thesis
  proof (cases "PutPolicy E p s")
    case (Pair r t)
    show ?thesis
    proof (cases r)
      case (Ok i)
      obtain k where k: "policy_slot E p = Some k" "perm_ok E t" "grants t = (grants s)(k \<mapsto> terms p)"
        "i = (if index s k = None then the (index t k) else Id p)"
        by (rule PutPolicy_ok [OF ok]) (use Pair Ok in auto)
      have "index t k \<noteq> None"
      proof
        assume "index t k = None"
        then have "grants t k = None" by (simp add: grants_def core_grants_def)
        with k(3) show False by simp
      qed
      with k mem [OF Pair] Pair Ok show ?thesis by (auto simp: terms_def simp del: split_paired_Ex)
    next
      case (Err e)
      then have "t = s" using Pair PutPolicy_Err by blast
      with Pair Err show ?thesis by simp
    qed (use Pair in simp)
  qed
qed

theorem put_policy_refines_witness:
  "perm_reach sample_perm_env sample_perm1 \<and>
   grants sample_perm2 (RESOURCE_TYPE_BUCKET, 5, ToGroup 7) = Some ([sample_statement], None) \<and>
   membership sample_perm2 = membership sample_perm1"
proof -
  have slot: "policy_slot sample_perm_env sample_group_policy = Some (RESOURCE_TYPE_BUCKET, 5, ToGroup 7)"
    "Statements sample_group_policy = [sample_statement]" "ExpirationTime sample_group_policy = None"
    by (simp_all add: policy_slot_def principal_grantee_def sample_group_policy_def sample_perm_env_def)
  from put_policy_refines [OF sample_reach(2), of sample_group_policy] slot sample_reach(2) show ?thesis
    by (simp add: sample_runs(2))
qed

text \<open>
  C27: deleting a policy.  When \<open>DeletePolicy\<close> returns, the grant of the principal on the resource is gone,
  every other grant and every member is as before, and the identifier returned is the one the slot had.
\<close>

theorem delete_policy_refines:
  assumes "perm_reach E s" "DeletePolicy E who rt i s = (Ok r, t)"
  shows "\<exists>g. principal_grantee E who = Some g \<and> grants t = (grants s)((rt, i, g) := None) \<and>
    membership t = membership s \<and> r = index s (rt, i, g) \<and> (r = None \<longleftrightarrow> grants s (rt, i, g) = None)"
proof -
  have ok: "perm_ok E s" using perm_reach_ok [OF assms(1)] by simp
  obtain g where g: "principal_grantee E who = Some g" "grants t = (grants s)((rt, i, g) := None)" "r = index s (rt, i, g)"
    by (rule DeletePolicy_ok [OF ok assms(2)])
  have mem: "membership t = membership s"
    using DeletePolicy_frame [of s E who rt i] assms(2) by (auto simp: membership_via same_members_def)
  have iff: "r = None \<longleftrightarrow> grants s (rt, i, g) = None"
  proof (cases r)
    case None
    with g(3) show ?thesis by (simp add: grants_def core_grants_def)
  next
    case (Some j)
    obtain p where "map_of (policies s) j = Some p" by (rule index_policy [OF ok]) (use g(3) Some in auto)
    moreover have "index s (rt, i, g) = Some j" using g(3) Some by simp
    ultimately show ?thesis using Some by (simp add: grants_def core_grants_def)
  qed
  show ?thesis by (rule exI [of _ g], intro conjI) (fact g mem iff)+
qed

theorem delete_policy_refines_witness:
  "\<exists>t. DeletePolicy sample_perm_env (PrincipalOf sample_account_policy) RESOURCE_TYPE_BUCKET 5 sample_perm = (Ok (Some 1), t) \<and>
     grants t (RESOURCE_TYPE_BUCKET, 5, ToAccount 1) = None"
proof -
  let ?run = "DeletePolicy sample_perm_env (PrincipalOf sample_account_policy) RESOURCE_TYPE_BUCKET 5 sample_perm"
  have "fst ?run = Ok (Some 1)" by code_simp
  then have run: "?run = (Ok (Some 1), snd ?run)" by (simp add: prod_eq_iff)
  have "principal_grantee sample_perm_env (PrincipalOf sample_account_policy) = Some (ToAccount 1)"
    by (simp add: principal_grantee_def sample_account_policy_def sample_perm_env_def)
  with delete_policy_refines [OF sample_reach(4) run] run show ?thesis by (metis fun_upd_same option.inject)
qed


section \<open>Expiry\<close>

text \<open>
  C14: the end of a block.  In every reachable state the removal of expired policies completes without
  a panic; a grant that is not expired stays as it is, a grant that is removed had expired, and the
  queue shrinks by the number of expired entries or by the limit of the parameters, whichever is less.
\<close>

theorem remove_expired_exact:
  assumes "perm_reach E s"
  shows "\<exists>t. RemoveExpiredPolicies E now s = (Ok (), t) \<and>
    (\<forall>k. grants t k = grants s k \<or> grants t k = None \<and> (\<exists>ss e. grants s k = Some (ss, Some e) \<and> e < now)) \<and>
    length (policyQueue t) + min (max_removed s) (length (expired_entries now s)) = length (policyQueue s)"
proof -
  have ok: "perm_ok E s" using perm_reach_ok [OF assms] by simp
  obtain t where t: "RemoveExpiredPolicies E now s = (Ok (), t)"
    "policyQueue t = filter (\<lambda>(x, _). x \<notin> set (take (max_removed s) (expired_entries now s))) (policyQueue s)"
    "\<forall>k. grants t k = grants s k \<or> grants t k = None \<and> (\<exists>ss e. grants s k = Some (ss, Some e) \<and> e < now)"
    by (rule RemoveExpiredPolicies_ok [OF ok])
  let ?T = "take (max_removed s) (expired_entries now s)" and ?xs = "map fst (policyQueue s)"
  have d: "distinct ?xs" using kv_ok_queue [OF ok] kv.iter_distinct by blast
  have T: "distinct ?T" "set ?T \<subseteq> set ?xs"
    using expired_entries_facts(1) [OF ok, of now] by (auto simp: expired_entries_def dest!: in_set_takeD)
  have "map fst (policyQueue t) = filter (\<lambda>x. x \<notin> set ?T) ?xs"
    unfolding t(2) by (simp add: filter_map comp_def split_def)
  then have "length (policyQueue t) = length (filter (\<lambda>x. x \<notin> set ?T) ?xs)" by (metis length_map)
  moreover have "length (filter (\<lambda>x. x \<in> set ?T) ?xs) = min (max_removed s) (length (expired_entries now s))"
  proof -
    have "set (filter (\<lambda>x. x \<in> set ?T) ?xs) = set ?T" using T(2) by (simp only: set_filter) blast
    then have "length (filter (\<lambda>x. x \<in> set ?T) ?xs) = length ?T"
      using distinct_card [OF distinct_filter [OF d, of "\<lambda>x. x \<in> set ?T"]] distinct_card [OF T(1)] by simp
    then show ?thesis by (simp only: length_take min.commute)
  qed
  ultimately have "length (policyQueue t) + min (max_removed s) (length (expired_entries now s)) = length (policyQueue s)"
    using sum_length_filter_compl [of "\<lambda>x. x \<in> set ?T" ?xs] by (simp only: length_map)
  with t(1,3) show ?thesis by blast
qed

theorem remove_expired_exact_witness:
  "\<exists>t. RemoveExpiredPolicies sample_perm_env 11 sample_perm = (Ok (), t) \<and> length (policyQueue t) = 0"
proof -
  have e: "expired_entries 11 sample_perm = [(10, [1])]" "length (policyQueue sample_perm) = 1" by code_simp+
  have "MaximumRemoveExpiredPoliciesIteration (perm_GetParams sample_perm) = 100" by code_simp
  then have "max_removed sample_perm = 100" by (simp add: max_removed_def)
  with e remove_expired_exact [OF sample_reach(4), of 11] show ?thesis by auto
qed

text \<open>
  C15: every expired policy is removed in time.  When the limit is positive and the blocks that end
  at or after a time are as many as the policies expired by then divided by the limit, none of
  those policies is left, while every grant that outlives these blocks is still there.
\<close>

theorem expired_policies_removed:
  assumes "perm_reach E s" "\<forall>t \<in> set ts. now \<le> t"
    and "length (expired_entries now s) \<le> length ts * max_removed s"
  shows "(\<forall>k ss e. grants (end_blocks E ts s) k = Some (ss, Some e) \<longrightarrow> now \<le> e) \<and>
    (\<forall>k ss e. grants s k = Some (ss, e) \<longrightarrow> (case e of None \<Rightarrow> True | Some e \<Rightarrow> \<forall>t \<in> set ts. t \<le> e) \<longrightarrow>
      grants (end_blocks E ts s) k = Some (ss, e))"
proof -
  have ok: "perm_ok E s" using perm_reach_ok [OF assms(1)] by simp
  from end_blocks_clean [OF ok assms(2,3)] end_blocks_ok [OF ok assms(2)] show ?thesis by blast
qed

theorem expired_policies_removed_witness:
  "grants sample_perm (RESOURCE_TYPE_BUCKET, 5, ToAccount 1) = Some ([sample_statement], Some 10) \<and>
   grants (end_blocks sample_perm_env [11] sample_perm) (RESOURCE_TYPE_BUCKET, 5, ToAccount 1)
     \<noteq> Some ([sample_statement], Some 10) \<and>
   grants (end_blocks sample_perm_env [11] sample_perm) (RESOURCE_TYPE_BUCKET, 5, ToGroup 7)
     = Some ([sample_statement], None)"
proof -
  have e: "expired_entries 11 sample_perm = [(10, [1])]" by code_simp
  have g: "grants sample_perm (RESOURCE_TYPE_BUCKET, 5, ToAccount 1) = Some ([sample_statement], Some 10)"
    "grants sample_perm (RESOURCE_TYPE_BUCKET, 5, ToGroup 7) = Some ([sample_statement], None)" by code_simp+
  have "MaximumRemoveExpiredPoliciesIteration (perm_GetParams sample_perm) = 100" by code_simp
  then have "max_removed sample_perm = 100" by (simp add: max_removed_def)
  then have p: "length (expired_entries 11 sample_perm) \<le> length [11 :: int] * max_removed sample_perm"
    by (simp add: e)
  have b: "\<forall>t \<in> set [11]. (11 :: int) \<le> t" by simp
  note r = expired_policies_removed [OF sample_reach(4) b p]
  have "grants (end_blocks sample_perm_env [11] sample_perm) (RESOURCE_TYPE_BUCKET, 5, ToAccount 1)
    \<noteq> Some ([sample_statement], Some 10)" using conjunct1 [OF r] by fastforce
  moreover have "grants (end_blocks sample_perm_env [11] sample_perm) (RESOURCE_TYPE_BUCKET, 5, ToGroup 7)
    = Some ([sample_statement], None)" using conjunct2 [OF r] g(2) by fastforce
  ultimately show ?thesis using g(1) by simp
qed


section \<open>Cleaning up after a resource\<close>

lemma allowed_bounds:
  assumes "unat d' = unat d + allowed m d n"
  shows "d \<le> d' \<and> (d \<le> m \<longrightarrow> d' \<le> m) \<and> (allowed m d n \<noteq> n \<longrightarrow> m \<le> d')"
  unfolding word_le_nat_alt assms by (auto simp: allowed_def)

text \<open>
  C28: forced deletion.  Deleting the policies of accounts and then of groups on a bucket or object
  spends at most the budget, never touches another resource, and when both calls report that they are
  done no grant on the resource is left; a call that reports it is not done has spent the budget.
\<close>

theorem force_delete_exact:
  assumes "perm_reach E s" "rt = RESOURCE_TYPE_BUCKET \<or> rt = RESOURCE_TYPE_OBJECT"
    and "ForceDeleteAccountPolicyForResource m d rt i s = ((d1, done1), s1)"
    and "ForceDeleteGroupPolicyForResource m d1 rt i s1 = ((d2, done2), s2)"
  shows "d \<le> d1 \<and> d1 \<le> d2 \<and> (d \<le> m \<longrightarrow> d2 \<le> m) \<and> (\<not> done1 \<longrightarrow> m \<le> d1) \<and> (\<not> done2 \<longrightarrow> m \<le> d2) \<and>
    (\<forall>k. (fst k, fst (snd k)) \<noteq> (rt, i) \<longrightarrow> grants s2 k = grants s k) \<and>
    (done1 \<and> done2 \<longrightarrow> (\<forall>g. grants s2 (rt, i, g) = None))"
proof -
  have ok: "perm_ok E s" using perm_reach_ok [OF assms(1)] by simp
  have rt: "rt \<noteq> RESOURCE_TYPE_UNSPECIFIED" using assms(2) by auto
  note a = force_account_ok [OF ok assms(3) rt]
  note g = force_group_ok [OF a(1) assms(4,2)]
  have budget: "d \<le> d1 \<and> d1 \<le> d2 \<and> (d \<le> m \<longrightarrow> d2 \<le> m) \<and> (\<not> done1 \<longrightarrow> m \<le> d1) \<and> (\<not> done2 \<longrightarrow> m \<le> d2)"
    using allowed_bounds [OF a(2)] allowed_bounds [OF g(2)] a(3) g(3) by simp
  have other: "grants s2 k = grants s k" if "(fst k, fst (snd k)) \<noteq> (rt, i)" for k
  proof -
    have "k \<notin> account_slots rt i es" "k \<notin> group_slots (rt, i) items" for es items
      using that by (auto simp: account_slots_def group_slots_def)
    then show ?thesis unfolding g(4) a(4) without_def by simp
  qed
  have gone: "grants s2 (rt, i, h) = None" if "done1" "done2" for h
  proof -
    have "grants s1 = without {(rt, i, ToAccount a) |a. True} (grants s)"
      by (rule force_account_done [OF ok _ rt]) (use assms(3) that in simp)
    moreover have "grants s2 = without {(rt, i, ToGroup g) |g. True} (grants s1)"
      by (rule force_group_done [OF a(1) _ assms(2)]) (use assms(4) that in simp)
    ultimately show ?thesis by (cases h) (simp_all add: without_def)
  qed
  from budget other gone show ?thesis by blast
qed

theorem force_delete_exact_witness:
  "\<exists>s1 s2. ForceDeleteAccountPolicyForResource 10 0 RESOURCE_TYPE_BUCKET 5 sample_perm = ((1, True), s1) \<and>
     ForceDeleteGroupPolicyForResource 10 1 RESOURCE_TYPE_BUCKET 5 s1 = ((2, True), s2) \<and>
     grants s2 (RESOURCE_TYPE_BUCKET, 5, ToGroup 7) = None"
proof -
  let ?a = "ForceDeleteAccountPolicyForResource 10 0 RESOURCE_TYPE_BUCKET 5 sample_perm"
  let ?g = "ForceDeleteGroupPolicyForResource 10 1 RESOURCE_TYPE_BUCKET 5 (snd ?a)"
  have "fst ?a = (1, True)" "fst ?g = (2, True)" by code_simp+
  then have r: "?a = ((1, True), snd ?a)" "?g = ((2, True), snd ?g)" by (simp_all add: prod_eq_iff)
  have "grants (snd ?g) (RESOURCE_TYPE_BUCKET, 5, ToGroup 7) = None"
    using force_delete_exact [OF sample_reach(4) _ r] by blast
  with r show ?thesis by blast
qed


section \<open>Members\<close>

text \<open>
  C29: group membership is a map.  Adding a member that is absent sets its expiration and adding one
  that is present is an error; removing one that is present clears it and one that is absent is an
  error; renewing a member sets its expiration.  No other member and no grant changes.
\<close>

theorem membership_refines:
  assumes "perm_reach E s"
  shows "(case AddGroupMember E g a exp s of
      (Ok _, t) \<Rightarrow> membership s (g, a) = None \<and> membership t = (membership s)((g, a) \<mapsto> exp) \<and> grants t = grants s
    | (Err e, t) \<Rightarrow> e = ErrGroupMemberAlreadyExists \<and> t = s \<and> membership s (g, a) \<noteq> None
    | (Panic, t) \<Rightarrow> True) \<and>
    (case RemoveGroupMember g a s of
      (Ok _, t) \<Rightarrow> membership s (g, a) \<noteq> None \<and> membership t = (membership s)((g, a) := None) \<and> grants t = grants s
    | (Err e, t) \<Rightarrow> e = ErrNoSuchGroupMember \<and> t = s \<and> membership s (g, a) = None
    | (Panic, t) \<Rightarrow> False) \<and>
    (\<forall>m. GetGroupMember g a s = Some m \<longrightarrow>
      membership (UpdateGroupMember E g a (MId m) exp s) = (membership s)((g, a) \<mapsto> exp) \<and>
      grants (UpdateGroupMember E g a (MId m) exp s) = grants s)"
proof -
  have ok: "perm_ok E s" "members_ok E s" using perm_reach_ok [OF assms] by auto
  have l: "linked (member_of E) (map_of (groupMembers s)) (map_of (membersById s))" using ok(2) by (simp add: members_ok_def)
  have known: "membership s (g, a) \<noteq> None" if "kv_has (groupMembers s) (g, a)"
    using that linked_rec [OF l] by (fastforce simp: kv_has_def membership_via via_def)
  have add: "(case AddGroupMember E g a exp s of
      (Ok _, t) \<Rightarrow> membership s (g, a) = None \<and> membership t = (membership s)((g, a) \<mapsto> exp) \<and> grants t = grants s
    | (Err e, t) \<Rightarrow> e = ErrGroupMemberAlreadyExists \<and> t = s \<and> membership s (g, a) \<noteq> None
    | (Panic, t) \<Rightarrow> True)"
  proof (cases "AddGroupMember E g a exp s")
    case (Pair r t)
    show ?thesis
    proof (cases r)
      case (Ok u)
      then have run: "AddGroupMember E g a exp s = (Ok (), t)" using Pair by simp
      from AddGroupMember_ok [OF ok(2) run] same_policies_ok(2) [OF members_same_policies(1) [OF run] ok(1)] run
      show ?thesis by simp
    next
      case (Err e)
      with Pair known show ?thesis
        by (auto simp: AddGroupMember_def andthen_eq_Err next_id_Err Let_def split: if_splits)
    qed (use Pair in simp)
  qed
  have remove: "(case RemoveGroupMember g a s of
      (Ok _, t) \<Rightarrow> membership s (g, a) \<noteq> None \<and> membership t = (membership s)((g, a) := None) \<and> grants t = grants s
    | (Err e, t) \<Rightarrow> e = ErrNoSuchGroupMember \<and> t = s \<and> membership s (g, a) = None
    | (Panic, t) \<Rightarrow> False)"
  proof (cases "map_of (groupMembers s) (g, a)")
    case None
    then show ?thesis by (simp add: RemoveGroupMember_def membership_via via_def)
  next
    case (Some i)
    then obtain t where run: "RemoveGroupMember g a s = (Ok (), t)" by (simp add: RemoveGroupMember_def)
    from RemoveGroupMember_ok [OF ok(2) run] same_policies_ok(2) [OF members_same_policies(2) [OF run] ok(1)] run
    show ?thesis by simp
  qed
  have renew: "\<forall>m. GetGroupMember g a s = Some m \<longrightarrow>
      membership (UpdateGroupMember E g a (MId m) exp s) = (membership s)((g, a) \<mapsto> exp) \<and>
      grants (UpdateGroupMember E g a (MId m) exp s) = grants s"
    using UpdateGroupMember_ok(2) [OF ok(2)] same_policies_ok(2) [OF members_same_policies(3) ok(1)] by blast
  show ?thesis by (intro conjI add remove renew)
qed

theorem membership_refines_witness:
  "perm_reach sample_perm_env sample_perm \<and> fst (AddGroupMember sample_perm_env 7 2 None sample_perm) = Err ErrGroupMemberAlreadyExists \<and>
   membership sample_perm (7, 2) \<noteq> None"
proof -
  have "fst (AddGroupMember sample_perm_env 7 2 None sample_perm) = Err ErrGroupMemberAlreadyExists" by code_simp
  with membership_refines [OF sample_reach(4), of 7 2 None] sample_reach(4) show ?thesis
    by (auto split: prod.splits outcome.splits)
qed


section \<open>Evaluation\<close>

text \<open>
  C13: the rule of a policy.  When the expressions of its statements compile, evaluating a policy never
  panics and gives: nothing when it has expired; denial when an applicable statement denies or lacks
  the size asked for; otherwise permission when an applicable statement allows.  A policy handed
  back for storing differs only in size limits, each reduced by exactly the size asked for, which it
  covered.
\<close>

theorem policy_eval_rule:
  assumes "list_all (compiles E) (Statements p)"
  shows "policy_Eval E p action now opts = Ok (policy_rule E p action now opts) \<and>
    (\<forall>q. snd (policy_rule E p action now opts) = Some q \<longrightarrow>
      q = p\<lparr>Statements := Statements q\<rparr> \<and>
      list_all2 (\<lambda>s t. t = s \<or> (\<exists>l w. LimitSize s = Some l \<and> wanted action opts = Some w \<and> unat w \<le> unat l \<and>
          t = s\<lparr>LimitSize := Some (l - w)\<rparr> \<and> unat (l - w) = unat l - unat w))
        (Statements p) (Statements q))"
proof -
  have "charge_if E now action opts s = s \<or> (\<exists>l w. LimitSize s = Some l \<and> wanted action opts = Some w \<and>
      unat w \<le> unat l \<and> charge_if E now action opts s = s\<lparr>LimitSize := Some (l - w)\<rparr> \<and> unat (l - w) = unat l - unat w)" for s
  proof (cases "charges action opts s")
    case True
    then obtain l w where lw: "LimitSize s = Some l" "wanted action opts = Some w"
      by (auto simp: charges_def split: option.splits)
    from charge_limit [OF True lw] lw True show ?thesis by (auto simp: charge_if_def charge_def)
  qed (simp add: charge_if_not)
  then show ?thesis
    using policy_Eval_rule [OF assms]
    by (auto simp: policy_rule_def Let_def list_all2_conv_all_nth split: if_splits)
qed

theorem policy_eval_rule_witness:
  "policy_Eval sample_perm_env sample_account_policy ACTION_CREATE_OBJECT 9 (Some \<lparr>Resource = [], WantedSize = Some 30\<rparr>)
   = Ok (EFFECT_ALLOW, Some (sample_account_policy\<lparr>Statements := [sample_statement\<lparr>LimitSize := Some 70\<rparr>]\<rparr>))"
proof -
  have c: "list_all (compiles sample_perm_env) (Statements sample_account_policy)" by code_simp
  have "policy_rule sample_perm_env sample_account_policy ACTION_CREATE_OBJECT 9 (Some \<lparr>Resource = [], WantedSize = Some 30\<rparr>)
    = (EFFECT_ALLOW, Some (sample_account_policy\<lparr>Statements := [sample_statement\<lparr>LimitSize := Some 70\<rparr>]\<rparr>))" by code_simp
  with policy_eval_rule [OF c, of ACTION_CREATE_OBJECT 9 "Some \<lparr>Resource = [], WantedSize = Some 30\<rparr>"] show ?thesis by simp
qed

end
