(* ===== verification/StorageProps.thy ===== *)
theory StorageProps
  imports StorageRule PermissionProps
begin

text \<open>
  What access control guarantees: the decision on a policy and what it stores, the decisions on buckets,
  objects and groups, and that only the owner of a resource changes its grants.
\<close>

section \<open>Policies\<close>

text \<open>
  C7: deciding by policy, whatever expressions the policies contain and for every kind of resource.  If
  \<open>VerifyPolicy\<close> returns, it returns the rule of the access: the account's own grant first, then its live
  groups, where a denial outweighs permissions.  If it allows the creation of an object in a
  transaction, it stores the grant that allowed it (the account's own one, else that of a group that
  allowed it) with the size limits charged; in every other case it stores nothing.  It never returns an
  error.  It panics, storing nothing, only on a resource type without a key, on a group
  resource the account's own grant does not decide, on a policy of the resource with an expression
  that does not compile, or when the grant to charge is in a policy group without room.
\<close>

theorem verify_policy_decides:
  assumes "perm_reach E s"
  shows "(case VerifyPolicy E ctx G i rt a action opts s of
      (Ok e, t) \<Rightarrow> e = access_rule E (Now ctx) G i rt a action opts s \<and> membership t = membership s \<and>
        (if e = EFFECT_ALLOW \<and> InTx ctx \<and> action = ACTION_CREATE_OBJECT
         then \<exists>gr ss x. speaker E (Now ctx) G i rt a action opts s gr \<and> grants s (rt, i, gr) = Some (ss, x) \<and>
            grants t = (grants s)((rt, i, gr) \<mapsto> (map (charge_if E (Now ctx) action opts) ss, x))
         else t = s)
    | (Err e, t) \<Rightarrow> False
    | (Panic, t) \<Rightarrow> t = s \<and>
        (undecidable E (Now ctx) i rt a action opts s \<or>
         InTx ctx \<and> action = ACTION_CREATE_OBJECT \<and> access_rule E (Now ctx) G i rt a action opts s = EFFECT_ALLOW \<and>
         \<not> speaker E (Now ctx) G i rt a action opts s (ToAccount a) \<and>
         unat (MaximumPolicyGroupSize s) \<le> length (items_at (groupPolicies s) (rt, i))))"
proof -
  have ok: "perm_ok E s" using perm_reach_ok [OF assms] by simp
  let ?v = "VerifyPolicy E ctx G i rt a action opts s" and ?rule = "access_rule E (Now ctx) G i rt a action opts s"
  consider "?v = (Panic, s)" "undecidable E (Now ctx) i rt a action opts s" | "?v = (Ok ?rule, s)" "?rule \<noteq> EFFECT_ALLOW"
    | gr q where "?rule = EFFECT_ALLOW" "speaker E (Now ctx) G i rt a action opts s gr"
      "charge_of E (Now ctx) action opts s (rt, i, gr) q"
      "?v = andthen (save_policy E ctx action q s) (\<lambda>_ s. (Ok EFFECT_ALLOW, s))"
    using VerifyPolicy_spec [OF ok, where ctx = ctx and G = G and i = i and rt = rt and a = a and action = action and opts = opts]
    by blast
  then show ?thesis
  proof cases
    case 3
    obtain r t where st: "save_policy E ctx action q s = (r, t)" by force
    note st' = save_policy_stored [OF ok 3(3) st]
    show ?thesis
    proof (cases "r = Panic")
      case True
      with st' have full: "InTx ctx" "action = ACTION_CREATE_OBJECT" "group_full s (rt, i, gr)" "t = s"
        by (auto split: if_splits)
      have "\<not> speaker E (Now ctx) G i rt a action opts s (ToAccount a)"
        using 3(2) full(3) by (auto simp: speaker_def group_full_def split: if_splits)
      with True 3(1,4) st full show ?thesis by (simp add: andthen_def group_full_def)
    next
      case False
      with st' have "r = Ok ()" by (auto split: if_splits)
      with 3(4) st have v: "?v = (Ok EFFECT_ALLOW, t)" by (simp add: andthen_def)
      show ?thesis
      proof (cases "InTx ctx \<and> action = ACTION_CREATE_OBJECT")
        case True
        obtain ss x where "grants s (rt, i, gr) = Some (ss, x)" "membership t = membership s"
          "grants t = (grants s)((rt, i, gr) \<mapsto> (map (charge_if E (Now ctx) action opts) ss, x))"
          using st' True False by auto
        with 3(1,2) True show ?thesis unfolding v by auto
      next
        case no: False
        with st' have "t = s" by (auto split: if_splits)
        with no 3(1) show ?thesis unfolding v by auto
      qed
    qed
  qed simp_all
qed

definition sample_groups :: "(256 word \<times> GroupInfo) list" where
  "sample_groups = [(7, \<lparr>GOwner = ''b'', GId = 7\<rparr>)]"

definition sample_access :: access_ctx where
  "sample_access = \<lparr>Now = 9, InTx = True\<rparr>"

theorem verify_policy_decides_witness:
  "\<exists>t. VerifyPolicy sample_perm_env sample_access sample_groups 5 RESOURCE_TYPE_BUCKET 2 ACTION_CREATE_OBJECT
     (Some \<lparr>Resource = [], WantedSize = Some 30\<rparr>) sample_perm = (Ok EFFECT_ALLOW, t) \<and>
   access_rule sample_perm_env 9 sample_groups 5 RESOURCE_TYPE_BUCKET 2 ACTION_CREATE_OBJECT
     (Some \<lparr>Resource = [], WantedSize = Some 30\<rparr>) sample_perm = EFFECT_ALLOW \<and>
   grants sample_perm (RESOURCE_TYPE_BUCKET, 5, ToGroup 7) = Some ([sample_statement], None) \<and>
   grants t (RESOURCE_TYPE_BUCKET, 5, ToGroup 7) = Some ([sample_statement\<lparr>LimitSize := Some 70\<rparr>], None)"
proof -
  let ?o = "Some \<lparr>Resource = [], WantedSize = Some 30\<rparr>" and ?b = RESOURCE_TYPE_BUCKET
  let ?v = "VerifyPolicy sample_perm_env sample_access sample_groups 5 ?b 2 ACTION_CREATE_OBJECT ?o sample_perm"
  have r: "fst ?v = Ok EFFECT_ALLOW" by code_simp
  then obtain t where t: "?v = (Ok EFFECT_ALLOW, t)" by (metis prod.collapse)
  have n: "Now sample_access = 9" "InTx sample_access" by (simp_all add: sample_access_def)
  have own: "grant_effect sample_perm_env 9 ACTION_CREATE_OBJECT ?o (grants sample_perm (?b, 5, ToAccount 2)) = EFFECT_UNSPECIFIED"
    and g: "grants sample_perm (?b, 5, ToGroup 7) = Some ([sample_statement], None)"
    and c: "charge_if sample_perm_env 9 ACTION_CREATE_OBJECT ?o sample_statement = sample_statement\<lparr>LimitSize := Some 70\<rparr>"
    by code_simp+
  have sp: "gr = ToGroup 7" if "speaker sample_perm_env 9 sample_groups 5 ?b 2 ACTION_CREATE_OBJECT ?o sample_perm gr" for gr
    using that own by (auto simp: speaker_def heard_def hasGroup_def sample_groups_def kv_has_def split: if_splits)
  from verify_policy_decides [OF sample_reach(4), of sample_access sample_groups 5 ?b 2 ACTION_CREATE_OBJECT ?o] g c
  show ?thesis unfolding t n(1) by (auto simp: n(2) dest!: sp)
qed


section \<open>Buckets, objects and groups\<close>

lemma VerifyPolicy_on_group:
  assumes ok: "perm_ok E s"
  shows "VerifyPolicy E ctx G i RESOURCE_TYPE_GROUP a action None s =
    (let e = grant_effect E (Now ctx) action None (grants s (RESOURCE_TYPE_GROUP, i, ToAccount a)) in
     if e = EFFECT_UNSPECIFIED then (Panic, s) else (Ok e, s))"
proof -
  let ?e = "grant_effect E (Now ctx) action None (grants s (RESOURCE_TYPE_GROUP, i, ToAccount a))"
  have w: "wanted action None = None" "sub_resource None = []" by (simp_all add: wanted_def sub_resource_def)
  have grp: "verify_groups E ctx G i RESOURCE_TYPE_GROUP a action None s = (Panic, s)"
    by (simp add: verify_groups_def GetPolicyGroupForResource_def group_key_def must_def andthen_def)
  note ro = VerifyPolicy_readonly [OF ok, of ctx action None G i RESOURCE_TYPE_GROUP a]
  show ?thesis
  proof (cases "?e = EFFECT_UNSPECIFIED")
    case False
    then have "\<not> undecidable E (Now ctx) i RESOURCE_TYPE_GROUP a action None s" by (simp add: undecidable_def w)
    with ro w False show ?thesis by (simp add: access_rule_def Let_def)
  next
    case un: True
    have "VerifyPolicy E ctx G i RESOURCE_TYPE_GROUP a action None s = (Panic, s)"
    proof (cases "index s (RESOURCE_TYPE_GROUP, i, ToAccount a)")
      case None
      with grp show ?thesis by (simp add: VerifyPolicy_def GetPolicyForAccount_def account_key_def must_def andthen_def)
    next
      case (Some j)
      obtain p where p: "GetPolicyByID j s = Some p" "grants s (RESOURCE_TYPE_GROUP, i, ToAccount a) = Some (terms p)"
        by (rule grants_index [OF ok Some])
      with Some grp un eval_stored [of E p action "Now ctx" None] w show ?thesis
        by (simp add: VerifyPolicy_def GetPolicyForAccount_def account_key_def must_def andthen_def)
    qed
    with un show ?thesis by simp
  qed
qed

lemma bucket_access:
  assumes ok: "perm_ok E s" and o: "AccAddressFromHex E (BOwner b) = Some bo"
  shows "case VerifyBucketPermission E ctx G b (Some a) action opts s of
      (Ok e, t) \<Rightarrow>
        e = (if BVisibility b = VISIBILITY_TYPE_PUBLIC_READ \<and> PublicReadBucketAllowedActions action \<or> a = bo \<or>
               access_rule E (Now ctx) G (BId b) RESOURCE_TYPE_BUCKET a action opts s = EFFECT_ALLOW
             then EFFECT_ALLOW else EFFECT_DENY) \<and>
        t = (if BVisibility b = VISIBILITY_TYPE_PUBLIC_READ \<and> PublicReadBucketAllowedActions action \<or> a = bo \<or>
               \<not> (InTx ctx \<and> action = ACTION_CREATE_OBJECT)
             then s else snd (VerifyPolicy E ctx G (BId b) RESOURCE_TYPE_BUCKET a action opts s))
    | (Err e, t) \<Rightarrow> False
    | (Panic, t) \<Rightarrow> t = s \<and> \<not> (BVisibility b = VISIBILITY_TYPE_PUBLIC_READ \<and> PublicReadBucketAllowedActions action) \<and>
        a \<noteq> bo \<and> fst (VerifyPolicy E ctx G (BId b) RESOURCE_TYPE_BUCKET a action opts s) = Panic"
proof (cases "BVisibility b = VISIBILITY_TYPE_PUBLIC_READ \<and> PublicReadBucketAllowedActions action \<or> a = bo")
  case True
  with o show ?thesis by (auto simp: VerifyBucketPermission_def must_def andthen_def)
next
  case False
  let ?v = "VerifyPolicy E ctx G (BId b) RESOURCE_TYPE_BUCKET a action opts s"
  let ?rule = "access_rule E (Now ctx) G (BId b) RESOURCE_TYPE_BUCKET a action opts s"
  have run: "VerifyBucketPermission E ctx G b (Some a) action opts s = andthen ?v (\<lambda>e s. (Ok (allow_or_deny e), s))"
    using False o by (auto simp: VerifyBucketPermission_def must_def andthen_def)
  have v: "?v = (Panic, s) \<or> (\<exists>t. ?v = (Ok ?rule, t) \<and> (\<not> (InTx ctx \<and> action = ACTION_CREATE_OBJECT) \<longrightarrow> t = s))"
    by (rule VerifyPolicy_outcome [OF ok])
  with False show ?thesis unfolding run by (auto simp: andthen_def allow_or_deny_def)
qed

lemma object_access:
  assumes ok: "perm_ok E s" and o: "AccAddressFromHex E (OOwner ob) = Some oo"
  shows "(let be = access_rule E (Now ctx) G (BId b) RESOURCE_TYPE_BUCKET a action
             (Some \<lparr>Resource = grn_String E (NewObjectGRN (OBucketName ob) (OObjectName ob)), WantedSize = None\<rparr>) s;
           oe = access_rule E (Now ctx) G (OId ob) RESOURCE_TYPE_OBJECT a action None s;
           public = ((OVisibility ob = VISIBILITY_TYPE_PUBLIC_READ \<or>
             OVisibility ob = VISIBILITY_TYPE_INHERIT \<and> BVisibility b = VISIBILITY_TYPE_PUBLIC_READ) \<and>
             PublicReadObjectAllowedActions action) in
      VerifyObjectPermission E ctx G b ob (Some a) action s =
        (Ok (if public \<or> a = oo \<or> EFFECT_DENY \<notin> {be, oe} \<and> EFFECT_ALLOW \<in> {be, oe}
             then EFFECT_ALLOW else EFFECT_DENY), s) \<or>
      VerifyObjectPermission E ctx G b ob (Some a) action s = (Panic, s) \<and>
        \<not> public \<and> a \<noteq> oo \<and> uncompiled E RESOURCE_TYPE_BUCKET (BId b) s)"
proof -
  let ?n = "Some \<lparr>Resource = grn_String E (NewObjectGRN (OBucketName ob) (OObjectName ob)), WantedSize = None\<rparr>"
  have w: "wanted action ?n = None" "wanted action None = None" "sub_resource None = []"
    by (simp_all add: wanted_def sub_resource_def)
  have ov: "VerifyPolicy E ctx G (OId ob) RESOURCE_TYPE_OBJECT a action None s =
      (Ok (access_rule E (Now ctx) G (OId ob) RESOURCE_TYPE_OBJECT a action None s), s)"
    using VerifyPolicy_readonly [OF ok, of ctx action None G "OId ob" RESOURCE_TYPE_OBJECT a] w by (simp add: undecidable_def)
  from VerifyPolicy_readonly [OF ok, of ctx action ?n G "BId b" RESOURCE_TYPE_BUCKET a] w(1)
  consider "VerifyPolicy E ctx G (BId b) RESOURCE_TYPE_BUCKET a action ?n s = (Panic, s)" "uncompiled E RESOURCE_TYPE_BUCKET (BId b) s"
    | "VerifyPolicy E ctx G (BId b) RESOURCE_TYPE_BUCKET a action ?n s =
        (Ok (access_rule E (Now ctx) G (BId b) RESOURCE_TYPE_BUCKET a action ?n s), s)" by (auto simp: undecidable_def)
  then show ?thesis
  proof cases
    case 1
    with o show ?thesis by (auto simp: VerifyObjectPermission_def must_def andthen_def Let_def)
  next
    case 2
    with o ov show ?thesis by (auto simp: VerifyObjectPermission_def must_def andthen_def Let_def)
  qed
qed

lemma group_access:
  assumes ok: "perm_ok E s"
  shows "VerifyGroupPermission E ctx G gi a action s =
      (let e = grant_effect E (Now ctx) action None (grants s (RESOURCE_TYPE_GROUP, GId gi, ToAccount a)) in
       if EqualFold (GOwner gi) (AddrString E a) then (Ok EFFECT_ALLOW, s)
       else if e = EFFECT_UNSPECIFIED then (Panic, s) else (Ok e, s))"
  using VerifyPolicy_on_group [OF ok, of ctx G "GId gi" a action]
    grant_effect_cases [of E "Now ctx" action None "grants s (RESOURCE_TYPE_GROUP, GId gi, ToAccount a)"]
  by (auto simp: VerifyGroupPermission_def andthen_def allow_or_deny_def Let_def)

lemma VerifyBucketPermission_anonymous:
  "VerifyBucketPermission E ctx G b None action opts s =
     (Ok (if BVisibility b = VISIBILITY_TYPE_PUBLIC_READ \<and> PublicReadBucketAllowedActions action
          then EFFECT_ALLOW else EFFECT_DENY), s)"
  by (simp add: VerifyBucketPermission_def)

lemma VerifyObjectPermission_anonymous:
  "VerifyObjectPermission E ctx G b ob None action s =
     (Ok (if (OVisibility ob = VISIBILITY_TYPE_PUBLIC_READ \<or>
             OVisibility ob = VISIBILITY_TYPE_INHERIT \<and> BVisibility b = VISIBILITY_TYPE_PUBLIC_READ) \<and>
             PublicReadObjectAllowedActions action
          then EFFECT_ALLOW else EFFECT_DENY), s)"
  by (simp add: VerifyObjectPermission_def)

text \<open>
  C8: access to resources whose owner's address parses.  A bucket is open to reads when it is public, to
  its owner, and to whom its policies allow; an anonymous operator gets public reads only.  The check
  stores something only when a transaction creates an object and its policies decide: then what
  \<open>VerifyPolicy\<close> stores.  An object is open likewise to public reads and to its owner, else by its policies
  together with its bucket's: neither may deny and one must allow.  It never stores anything, and an
  anonymous operator gets public reads only.  The two checks panic only when the policies are asked and
  their evaluation panics, for an object only on a bucket policy with an expression that does not compile.
  A group is open to its owner and to accounts their own grant allows; an operator who is neither owner nor
  decided by an own grant makes the check panic.
\<close>

theorem resource_access:
  assumes "perm_reach E s"
    and "AccAddressFromHex E (BOwner b) = Some bo" "AccAddressFromHex E (OOwner ob) = Some oo"
  shows "(let public = (BVisibility b = VISIBILITY_TYPE_PUBLIC_READ \<and> PublicReadBucketAllowedActions action);
         policy = VerifyPolicy E ctx G (BId b) RESOURCE_TYPE_BUCKET a action opts s in
      (case VerifyBucketPermission E ctx G b (Some a) action opts s of
         (Ok e, t) \<Rightarrow>
           e = (if public \<or> a = bo \<or> access_rule E (Now ctx) G (BId b) RESOURCE_TYPE_BUCKET a action opts s = EFFECT_ALLOW
                then EFFECT_ALLOW else EFFECT_DENY) \<and>
           t = (if public \<or> a = bo \<or> \<not> (InTx ctx \<and> action = ACTION_CREATE_OBJECT) then s else snd policy)
       | (Err e, t) \<Rightarrow> False
       | (Panic, t) \<Rightarrow> t = s \<and> \<not> public \<and> a \<noteq> bo \<and> fst policy = Panic) \<and>
      VerifyBucketPermission E ctx G b None action opts s = (Ok (if public then EFFECT_ALLOW else EFFECT_DENY), s)) \<and>
    (let public = ((OVisibility ob = VISIBILITY_TYPE_PUBLIC_READ \<or>
             OVisibility ob = VISIBILITY_TYPE_INHERIT \<and> BVisibility b = VISIBILITY_TYPE_PUBLIC_READ) \<and>
           PublicReadObjectAllowedActions action);
         name = Some \<lparr>Resource = grn_String E (NewObjectGRN (OBucketName ob) (OObjectName ob)), WantedSize = None\<rparr>;
         effects = {access_rule E (Now ctx) G (BId b) RESOURCE_TYPE_BUCKET a action name s,
                    access_rule E (Now ctx) G (OId ob) RESOURCE_TYPE_OBJECT a action None s} in
      (VerifyObjectPermission E ctx G b ob (Some a) action s =
         (Ok (if public \<or> a = oo \<or> EFFECT_DENY \<notin> effects \<and> EFFECT_ALLOW \<in> effects
              then EFFECT_ALLOW else EFFECT_DENY), s) \<or>
       VerifyObjectPermission E ctx G b ob (Some a) action s = (Panic, s) \<and>
         \<not> public \<and> a \<noteq> oo \<and> uncompiled E RESOURCE_TYPE_BUCKET (BId b) s) \<and>
      VerifyObjectPermission E ctx G b ob None action s = (Ok (if public then EFFECT_ALLOW else EFFECT_DENY), s)) \<and>
    VerifyGroupPermission E ctx G gi a action s =
      (let e = grant_effect E (Now ctx) action None (grants s (RESOURCE_TYPE_GROUP, GId gi, ToAccount a)) in
       if EqualFold (GOwner gi) (AddrString E a) then (Ok EFFECT_ALLOW, s)
       else if e = EFFECT_UNSPECIFIED then (Panic, s) else (Ok e, s))"
proof -
  have ok: "perm_ok E s" using perm_reach_ok [OF assms(1)] by simp
  show ?thesis unfolding Let_def
    using bucket_access [OF ok assms(2), where ctx = ctx and G = G and a = a and action = action and opts = opts]
      object_access [OF ok assms(3), where ctx = ctx and G = G and b = b and a = a and action = action, unfolded Let_def]
      group_access [OF ok, where ctx = ctx and G = G and gi = gi and a = a and action = action, unfolded Let_def]
    by (intro conjI) (simp_all only: Let_def VerifyBucketPermission_anonymous VerifyObjectPermission_anonymous)
qed

definition sample_bucket :: BucketInfo where
  "sample_bucket = \<lparr>BOwner = ''b'', BVisibility = VISIBILITY_TYPE_PRIVATE, BId = 5\<rparr>"

definition sample_object :: ObjectInfo where
  "sample_object = \<lparr>OOwner = ''b'', OBucketName = ''photos'', OObjectName = ''x'',
     OVisibility = VISIBILITY_TYPE_INHERIT, OId = 6\<rparr>"

theorem resource_access_witness:
  "fst (VerifyBucketPermission sample_perm_env sample_access sample_groups sample_bucket (Some 2) ACTION_DELETE_BUCKET None sample_perm)
     = Ok EFFECT_ALLOW \<and>
   VerifyBucketPermission sample_perm_env sample_access sample_groups sample_bucket None ACTION_GET_OBJECT None sample_perm
     = (Ok EFFECT_DENY, sample_perm) \<and>
   VerifyObjectPermission sample_perm_env sample_access sample_groups sample_bucket sample_object (Some 2) ACTION_DELETE_OBJECT sample_perm
     = (Ok EFFECT_ALLOW, sample_perm) \<and>
   VerifyGroupPermission sample_perm_env sample_access sample_groups \<lparr>GOwner = ''b'', GId = 7\<rparr> 1 ACTION_DELETE_GROUP sample_perm
     = (Panic, sample_perm)"
proof -
  have o: "AccAddressFromHex sample_perm_env (BOwner sample_bucket) = Some 2"
    "AccAddressFromHex sample_perm_env (OOwner sample_object) = Some 2" by code_simp+
  have f: "fst (VerifyBucketPermission sample_perm_env sample_access sample_groups sample_bucket (Some 2) ACTION_DELETE_BUCKET None
      sample_perm) \<noteq> Panic" by code_simp
  have v: "BVisibility sample_bucket = VISIBILITY_TYPE_PRIVATE" by (simp add: sample_bucket_def)
  have g: "grant_effect sample_perm_env (Now sample_access) ACTION_DELETE_GROUP None
      (grants sample_perm (RESOURCE_TYPE_GROUP, 7, ToAccount 1)) = EFFECT_UNSPECIFIED"
    "\<not> EqualFold ''b'' (AddrString sample_perm_env 1)" by code_simp+
  note r = resource_access [OF sample_reach(4) o, where ctx = sample_access and G = sample_groups and opts = None
      and gi = "\<lparr>GOwner = ''b'', GId = 7\<rparr>"]
  have b: "fst (VerifyBucketPermission sample_perm_env sample_access sample_groups sample_bucket (Some 2) ACTION_DELETE_BUCKET None
      sample_perm) = Ok EFFECT_ALLOW"
    using r [where a = 2 and action = ACTION_DELETE_BUCKET, unfolded Let_def, THEN conjunct1, THEN conjunct1] f
    by (auto split: prod.splits outcome.splits)
  have n: "VerifyBucketPermission sample_perm_env sample_access sample_groups sample_bucket None ACTION_GET_OBJECT None sample_perm
      = (Ok EFFECT_DENY, sample_perm)"
    using r [where a = 2 and action = ACTION_GET_OBJECT, unfolded Let_def, THEN conjunct1, THEN conjunct2] v by simp
  have ob: "VerifyObjectPermission sample_perm_env sample_access sample_groups sample_bucket sample_object (Some 2)
      ACTION_DELETE_OBJECT sample_perm = (Ok EFFECT_ALLOW, sample_perm)"
    using r [where a = 2 and action = ACTION_DELETE_OBJECT, unfolded Let_def, THEN conjunct2, THEN conjunct1, THEN conjunct1] by simp
  show ?thesis
    using b n ob r [where a = 1 and action = ACTION_DELETE_GROUP, THEN conjunct2, THEN conjunct2] g by (simp add: Let_def)
qed


section \<open>Only owners grant\<close>

lemma DeletePolicy_Err: "DeletePolicy E who rt i s = (Err e, t) \<Longrightarrow> t = s"
  by (auto simp: DeletePolicy_def GetPolicyForAccount_def andthen_eq_Err split: PrincipalType.splits option.splits outcome.splits)
    (metis option.distinct(1))

lemma on_perm_simps:
  "on_perm f s = (r, t) \<longleftrightarrow> (\<exists>p. f (perm s) = (r, p) \<and> t = s\<lparr>perm := p\<rparr>)"
  by (auto simp: on_perm_def split: prod.splits)

lemma storage_PutPolicy_ok:
  assumes reach: "perm_reach (permEnv E) (perm s)" and run: "storage_PutPolicy E a grn who p s = (Ok r, t)"
  shows "\<exists>i g. getResourceOwnerAndIDFromGRN E grn s = Ok (a, i) \<and> t = s\<lparr>perm := perm t\<rparr> \<and>
    membership (perm t) = membership (perm s) \<and>
    grants (perm t) = (grants (perm s))((ResourceTypeOf p, i, g) \<mapsto> (Statements p, ExpirationTime p)) \<and> g \<noteq> ToAccount a \<and> (\<forall>h. g = ToGroup h \<longrightarrow> hasGroup (groups s) h)"
proof -
  obtain i w where w: "getResourceOwnerAndIDFromGRN E grn s = Ok (a, i)" "ValidatePrincipal E a w s = Ok ()"
    and put: "on_perm (PutPolicy (permEnv E) (p\<lparr>PrincipalOf := w, ResourceId := i\<rparr>)) s = (Ok r, t)"
    using run by (auto simp: storage_PutPolicy_def Let_def split: outcome.splits if_splits option.splits)
  let ?q = "p\<lparr>PrincipalOf := w, ResourceId := i\<rparr>"
  obtain u where u: "PutPolicy (permEnv E) ?q (perm s) = (Ok r, u)" "t = s\<lparr>perm := u\<rparr>" using put by (auto simp: on_perm_simps)
  have ok: "perm_ok (permEnv E) (perm s)" using perm_reach_ok [OF reach] by simp
  obtain k where k: "policy_slot (permEnv E) ?q = Some k" "grants u = (grants (perm s))(k \<mapsto> terms ?q)"
    by (rule PutPolicy_ok [OF ok u(1)])
  obtain g where g: "principal_grantee (permEnv E) w = Some g" "k = (ResourceTypeOf p, i, g)"
    using k(1) by (auto simp: policy_slot_def)
  have mem: "membership u = membership (perm s)"
    using PutPolicy_frame [of "perm s" "permEnv E" ?q] u(1) by (simp add: membership_via same_members_def)
  have "g \<noteq> ToAccount a" "\<forall>h. g = ToGroup h \<longrightarrow> hasGroup (groups s) h"
    using w(2) g(1) by (auto simp: ValidatePrincipal_def principal_grantee_def GetAccountAddress_def GetGroupInfoById_def
        hasGroup_def kv_has_def split: PrincipalType.splits option.splits if_splits)
  with w(1) u(2) k(2) g(2) mem show ?thesis by (auto simp: terms_def)
qed

lemma storage_DeletePolicy_ok:
  assumes reach: "perm_reach (permEnv E) (perm s)" and run: "storage_DeletePolicy E a who grn s = (Ok r, t)"
  shows "\<exists>i g. getResourceOwnerAndIDFromGRN E grn s = Ok (a, i) \<and> t = s\<lparr>perm := perm t\<rparr> \<and>
    membership (perm t) = membership (perm s) \<and> grants (perm t) = (grants (perm s))((resType grn, i, g) := None)"
proof -
  obtain i w where w: "getResourceOwnerAndIDFromGRN E grn s = Ok (a, i)"
    and del: "on_perm (DeletePolicy (permEnv E) w (resType grn) i) s = (Ok r, t)"
    using run by (auto simp: storage_DeletePolicy_def split: outcome.splits if_splits option.splits)
  obtain u where u: "DeletePolicy (permEnv E) w (resType grn) i (perm s) = (Ok r, u)" "t = s\<lparr>perm := u\<rparr>"
    using del by (auto simp: on_perm_simps)
  have ok: "perm_ok (permEnv E) (perm s)" using perm_reach_ok [OF reach] by simp
  obtain g where g: "grants u = (grants (perm s))((resType grn, i, g) := None)" by (rule DeletePolicy_ok [OF ok u(1)])
  have mem: "membership u = membership (perm s)"
    using DeletePolicy_frame [of "perm s" "permEnv E" w "resType grn" i] u(1) by (simp add: membership_via same_members_def)
  from w u(2) g mem show ?thesis by (intro exI [of _ i] exI [of _ g]) simp
qed

lemma storage_policy_Err:
  "storage_PutPolicy E a grn who p s = (Err e, t) \<Longrightarrow> t = s"
  "storage_DeletePolicy E a who grn s = (Err e, t) \<Longrightarrow> t = s"
  by (auto simp: storage_PutPolicy_def storage_DeletePolicy_def on_perm_simps Let_def
      dest!: PutPolicy_Err DeletePolicy_Err split: outcome.splits if_splits option.splits)

text \<open>
  C6: only owners grant.  A message that stores a policy succeeds only when its operator owns the resource it
  names and nothing in it has expired; it then sets exactly one grant on that resource, to an account other
  than the owner or to an existing group.  A message that deletes a policy succeeds only for the owner and
  clears exactly one grant.  Members, buckets, objects and groups stay as they are, and a message that
  returns an error changes nothing.
\<close>

theorem only_owners_grant:
  assumes "perm_reach (permEnv E) (perm s)"
  shows "(case msg_PutPolicy E ctx msg s of
      (Ok r, t) \<Rightarrow> \<exists>a grn i g. AccAddressFromHex (permEnv E) (Operator msg) = Some a \<and>
        ParseFromString (permEnv E) (MResource msg) True = Ok grn \<and> getResourceOwnerAndIDFromGRN E grn s = Ok (a, i) \<and>
        \<not> before (MExpiration msg) (Now ctx) \<and> \<not> list_ex (\<lambda>st. before (SExpirationTime st) (Now ctx)) (MStatements msg) \<and>
        t = s\<lparr>perm := perm t\<rparr> \<and> membership (perm t) = membership (perm s) \<and>
        grants (perm t) = (grants (perm s))((resType grn, i, g) \<mapsto> (MStatements msg, MExpiration msg)) \<and>
        g \<noteq> ToAccount a \<and> (\<forall>h. g = ToGroup h \<longrightarrow> hasGroup (groups s) h)
    | (Err e, t) \<Rightarrow> t = s
    | (Panic, t) \<Rightarrow> True) \<and>
    (case msg_DeletePolicy E operatorName who resourceName s of
      (Ok r, t) \<Rightarrow> \<exists>a grn i g. AccAddressFromHex (permEnv E) operatorName = Some a \<and>
        ParseFromString (permEnv E) resourceName False = Ok grn \<and> getResourceOwnerAndIDFromGRN E grn s = Ok (a, i) \<and>
        t = s\<lparr>perm := perm t\<rparr> \<and> membership (perm t) = membership (perm s) \<and>
        grants (perm t) = (grants (perm s))((resType grn, i, g) := None)
    | (Err e, t) \<Rightarrow> t = s
    | (Panic, t) \<Rightarrow> True)" (is "?put \<and> ?del")
proof
  obtain r t where run: "msg_PutPolicy E ctx msg s = (r, t)" by force
  show ?put
  proof (cases r)
    case (Ok j)
    then obtain a grn p where p: "AccAddressFromHex (permEnv E) (Operator msg) = Some a"
      "ParseFromString (permEnv E) (MResource msg) True = Ok grn"
      "\<not> before (MExpiration msg) (Now ctx)" "\<not> list_ex (\<lambda>st. before (SExpirationTime st) (Now ctx)) (MStatements msg)"
      "storage_PutPolicy E a grn (MPrincipal msg) p s = (Ok j, t)"
      "ResourceTypeOf p = resType grn" "Statements p = MStatements msg" "ExpirationTime p = MExpiration msg"
      using run by (auto simp: msg_PutPolicy_def split: option.splits outcome.splits if_splits)
    from storage_PutPolicy_ok [OF assms p(5)] p(1-4,6-8) Ok run show ?thesis by simp
  next
    case (Err e)
    then have "t = s" using run
      by (auto simp: msg_PutPolicy_def dest!: storage_policy_Err(1) split: option.splits outcome.splits if_splits)
    with Err run show ?thesis by simp
  qed (use run in simp)
  obtain r t where run: "msg_DeletePolicy E operatorName who resourceName s = (r, t)" by force
  show ?del
  proof (cases r)
    case (Ok j)
    then obtain a grn where p: "AccAddressFromHex (permEnv E) operatorName = Some a"
      "ParseFromString (permEnv E) resourceName False = Ok grn" "storage_DeletePolicy E a who grn s = (Ok j, t)"
      using run by (auto simp: msg_DeletePolicy_def split: option.splits outcome.splits)
    from storage_DeletePolicy_ok [OF assms p(3)] p(1,2) Ok run show ?thesis by simp
  next
    case (Err e)
    then have "t = s" using run
      by (auto simp: msg_DeletePolicy_def dest!: storage_policy_Err(2) split: option.splits outcome.splits)
    with Err run show ?thesis by simp
  qed (use run in simp)
qed

definition sample_storage_env :: storage_env where
  "sample_storage_env = \<lparr>permEnv = sample_perm_env, Keccak256 = (\<lambda>x. if x = ''photos'' then [1] else [2])\<rparr>"

definition sample_storage :: storage_state where
  "sample_storage = \<lparr>bucketIds = [([1], 5)], buckets = [(5, sample_bucket)], objectIds = [], objects = [],
     groupIds = [], groups = sample_groups, perm = sample_perm\<rparr>"

definition sample_put :: MsgPutPolicy where
  "sample_put = \<lparr>Operator = ''b'', MPrincipal = Some \<lparr>PType = PRINCIPAL_TYPE_GNFD_ACCOUNT, PValue = ''a''\<rparr>,
     MResource = ''grn:b::photos'', MStatements = [sample_statement], MExpiration = None\<rparr>"

theorem only_owners_grant_witness:
  "\<exists>r t. msg_PutPolicy sample_storage_env sample_access sample_put sample_storage = (Ok r, t) \<and>
     membership (perm t) = membership sample_perm"
proof -
  let ?run = "msg_PutPolicy sample_storage_env sample_access sample_put sample_storage"
  have f: "fst ?run = Ok 0" by code_simp
  then have run: "?run = (Ok 0, snd ?run)" by (simp add: prod_eq_iff)
  have e: "permEnv sample_storage_env = sample_perm_env" "perm sample_storage = sample_perm"
    by (simp_all add: sample_storage_env_def sample_storage_def)
  have reach: "perm_reach (permEnv sample_storage_env) (perm sample_storage)" unfolding e by (rule sample_reach(4))
  have "membership (perm (snd ?run)) = membership sample_perm"
    using only_owners_grant [OF reach, where ctx = sample_access and msg = sample_put] unfolding e
    by (subst (asm) run) auto
  with run show ?thesis by blast
qed

end
