(* ===== verification/Spec2Isabelle.thy ===== *)
theory Spec2Isabelle
  imports PaymentProps EvmProps FeeProps NameProps StorageProps
begin

text \<open>
  Verification of modules of the moca chain, a Cosmos SDK application with an Ethereum virtual machine
  and storage resources.  Paths below are relative to \<open>src/\<close>.

  \<^bold>\<open>The parts and how they interact.\<close>  Every module has a keeper that reads and writes ordered
  key-value stores.  Storage users pay by streams of tokens, which the payment module settles; who may
  use a bucket, object or group is decided by the policies of the permission module, which names resources
  by the identifiers of the sequences and by resource names; contracts run on a state database that is
  committed to the EVM keeper; the price of gas follows the base fee of the fee market.

  \<^bold>\<open>Foundations.\<close>
  \<^item> \<open>Prelude\<close>: the result of a Go call (a value, an error or a panic, beside the state, which
    keeps what was written before an error), loops with early exit, Go's integer operations.
  \<^item> \<open>KVStore\<close>: the contract of a store (locale \<open>kv_store\<close>) and the sorted association list that meets
    it.  A model of a keeper has one such list for each key prefix of its module.
  \<^item> \<open>Bytes\<close>: big-endian encodings and their order.
  \<^item> \<open>Sequence\<close> (\<open>internal/sequence/sequence.go\<close>): identifiers drawn from a store; the locale \<open>seq_codec\<close>
    is interpreted for 256-bit numbers, which panic at the end, and for 32-bit ones, which wrap.

  \<^bold>\<open>Payment\<close> (\<open>x/payment\<close>).  \<open>PaymentTypes\<close> has the data and the modules called (bank, accounts) as a
  record of functions; \<open>PaymentStore\<close> the stores and accessors; \<open>StreamRecords\<close> the update of a stream
  record, forced settlement and the end-block loops (\<open>keeper/stream_record.go\<close>); \<open>FeeCharge\<close> the charging
  of fees (\<open>keeper/storage_fee_charge.go\<close>); \<open>PaymentMsg\<close> messages, queries, genesis and migration.
  \<open>StreamLedger\<close>, \<open>Solvency\<close>, \<open>FlowLedger\<close> and \<open>PaymentFacts\<close> hold the lemmas: every operation
  moves the difference of books and custody by exactly the coins that enter or leave (the locale
  \<open>stream_update\<close> is the contract of an update, interpreted on \<open>update_rec\<close>), rates equal the
  sums of the stored flows, an update outside the end block leaves the account funded.  The properties are
  in \<open>PaymentProps\<close>, evaluated on the chain of \<open>PaymentSample\<close>.

  \<^bold>\<open>EVM state\<close> (\<open>x/evm/statedb\<close>, \<open>x/evm/keeper/statedb.go\<close>).  \<open>AccessList\<close> is the access list with its
  contract as sets (locale \<open>access_list\<close>); \<open>StateObject\<close> and \<open>StateDB\<close> the objects, the journal and every
  method of the database; \<open>EvmKeeper\<close> the keeper it commits to.  \<open>StateJournal\<close>, \<open>StateOps\<close> and
  \<open>StateRuns\<close> show that reverting a snapshot restores every observable value over arbitrary runs of
  operations; \<open>StateCommit\<close> that each setter changes the answers it names and no other, and that \<open>Commit\<close>
  leaves in the keeper the accounts, storage and code the database answered, over
  the locale \<open>statedb_keeper\<close>, which \<open>EvmKeeper\<close> interprets.  The properties are in \<open>EvmProps\<close>,
  with the state of \<open>EvmSample\<close>.

  \<^bold>\<open>Fee market\<close> (\<open>x/feemarket\<close>).  \<open>FeeMarket\<close> has parameters, stores, the base fee and the block hooks;
  \<open>FeeProps\<close> relates a block's base fee to the rule of EIP-1559, bounds its step, and says exactly when
  a block cannot begin, a fee of more than 256 bits included.

  \<^bold>\<open>Resource names\<close> (\<open>types/grn.go\<close>, \<open>types/s3util/s3util.go\<close>).  \<open>ResourceNames\<close> has the validity checks, the
  printer and the parser; \<open>NameProps\<close> the round trip.

  \<^bold>\<open>Permission\<close> (\<open>x/permission\<close>).  \<open>PermissionTypes\<close> has policies, their validation and evaluation;
  \<open>PermissionKeeper\<close> the keeper.  To its callers the module is a partial map \<open>grants\<close> from a resource
  and a grantee to statements and expiration, and a map \<open>membership\<close>.  \<open>PermissionIndex\<close> and
  \<open>PermissionInv\<close> show that indexes, policies and expiry queue stay consistent and that each operation is
  one update of the map; \<open>PermissionClean\<close> and \<open>PermissionExpiry\<close> treat the cleaning loops,
  \<open>PermissionMembers\<close> membership and the reachable states, \<open>PermissionEval\<close> the rule by which a policy is
  evaluated.  The properties are in \<open>PermissionProps\<close>.

  \<^bold>\<open>Storage access control\<close> (\<open>x/storage/keeper/permission.go\<close>).  \<open>StorageAccess\<close> has the decision whether an operator may
  act on a bucket, object or group, and the messages that store and delete policies; it calls the permission
  keeper and the resource names.  \<open>StorageRule\<close> states the rule of an access over \<open>grants\<close> and
  \<open>membership\<close> and shows that the code follows it whenever it returns, and where it panics, whatever expressions
  the stored policies contain; the properties in \<open>StorageProps\<close> span the three components.

  \<^bold>\<open>Bounds and fuel.\<close>  Updates and forced settlements of the payment module call each other; the model
  counts nested updates by \<open>CallDepth\<close>, and \<open>update_depth_two\<close> in \<open>PaymentProps\<close> shows that a depth of two is
  always enough.  All other loops are structural: over the entries a store had when the iterator was
  opened, over a journal, or over the items of a message.  Gas, counters, identifiers and size limits keep
  their widths (64, 32, 256 bits) with the wrap-around or panic of the code.

  \<^bold>\<open>Parameters.\<close>  Code outside the repository is an argument: the bank and auth modules, parsing and
  printing of addresses and decimals, the hash function, matching of the regular expressions a policy
  contains.  What is relied on is stated as a hypothesis (\<open>addr_laws\<close>, \<open>bank_laws\<close>, \<open>evm_laws\<close> and the like), and the
  witnesses instantiate it.  No hash function is injective, so \<open>codes_agree\<close> asks only that the codes of the
  accounts at hand do not collide.

  \<^bold>\<open>Not modelled.\<close>
  \<^item> Events, logging, telemetry, gas charged by store accesses, and the byte format of stored values.
  \<^item> Three cases that are not reached: a stream record stored at time 0, which the codec would read back with
    the block time; two spellings of one address in the flows of a charge; resources and groups of
    identifier 0, whose key prefix is empty.
  \<^item> The panic of \<open>sdkmath.Int\<close> beyond 256 bits in the payment module, whose amounts are integers.
  \<^item> \<open>MigrateAccountPolicyForResources\<close> of the permission keeper, the parameter migrations of the fee
    market, paginated list queries, simulation.
  \<^item> The storage module's creation, change and deletion of buckets, objects and groups, storage providers, virtual groups, challenges and the
    ERC20 module: their operations run contracts, verify BLS signatures, or rest on one another.
  \<^item> Execution of messages by the EVM interpreter (go-ethereum), precompiles, ante handlers.
  \<^item> Application wiring, JSON-RPC, server, indexer, command line, and generated code.
\<close>

end
